theory Spec2Isabelle
  imports Main "HOL-Library.Word"
begin

unbundle bit_operations_syntax

section \<open>Common vocabulary\<close>

text \<open>
  A \<open>byte\<close> is C++'s \<open>uint8\<close>. The fallible paths of the C++ code are values of
  \<open>fault\<close>: a failed \<open>assert\<close>, a dereferenced null pointer, an access outside an
  array, and the non-returning \<open>SlErrorCorrupt(msg)\<close> of the saveload code.
\<close>

type_synonym byte = "8 word"

datatype fault =
    AssertionFailure
  | NullPointer
  | OutOfBounds
  | SlErrorCorrupt string

text \<open>Sequencing of fallible steps: the first fault ends the computation.\<close>

definition and_then :: "fault + 'a \<Rightarrow> ('a \<Rightarrow> fault + 'b) \<Rightarrow> fault + 'b" where
  "and_then r f = (case r of Inl e \<Rightarrow> Inl e | Inr x \<Rightarrow> f x)"

text \<open>
  Modelled from the spec: \<open>HasBit\<close> and \<open>GB\<close> are templates of
  core/bitmath\_func.hpp, which is not among the sources. \<open>HasBit(x, y)\<close> tests bit
  \<open>y\<close> of \<open>x\<close>; \<open>GB(x, s, n)\<close> fetches the \<open>n\<close> bits of \<open>x\<close> that start at bit
  \<open>s\<close> (the code uses it to serialise integers one byte at a time, least significant
  byte first).
\<close>

definition HasBit :: "'a::len word \<Rightarrow> nat \<Rightarrow> bool" where
  "HasBit x y = bit x y"

definition GB :: "'a::len word \<Rightarrow> nat \<Rightarrow> nat \<Rightarrow> 'a word" where
  "GB x s n = drop_bit s x AND mask n"

section \<open>saveload/saveload\_buffer.cpp: the gamma codec\<close>

text \<open>
  Modelled from the spec: \<open>ReadByte\<close> and \<open>WriteByte\<close> are inline members of
  saveload\_buffer.h, which is not among the sources. The load buffer is the bytes
  the reader still has to deliver, the dump the bytes written so far. \<open>ReadByte\<close>
  takes the next byte, refilling through \<open>FillBuffer\<close> when the chunk is used up, and
  \<open>FillBuffer\<close> (in the sources) raises \<open>SlErrorCorrupt("Unexpected end of stream")\<close>
  when the reader has nothing left; \<open>WriteByte\<close> appends one byte to the dump.
\<close>

fun ReadByte :: "byte list \<Rightarrow> fault + (byte \<times> byte list)" where
  "ReadByte [] = Inl (SlErrorCorrupt ''Unexpected end of stream'')"
| "ReadByte (b # bs) = Inr (b, bs)"

definition WriteByte :: "byte list \<Rightarrow> byte \<Rightarrow> byte list" where
  "WriteByte dump b = dump @ [b]"

text \<open>The statement \<open>i = (i << 8) | this->ReadByte()\<close> on the \<open>uint\<close> accumulator.\<close>

definition ReadGamma_shift_in :: "32 word \<times> byte list \<Rightarrow> fault + (32 word \<times> byte list)" where
  "ReadGamma_shift_in st =
     (case st of (i, s) \<Rightarrow>
        and_then (ReadByte s) (\<lambda>(b, s'). Inr (push_bit 8 i OR ucast b, s')))"

text \<open>\<open>uint LoadBuffer::ReadGamma()\<close>, with the nesting of the source.\<close>

definition ReadGamma :: "byte list \<Rightarrow> fault + (32 word \<times> byte list)" where
  "ReadGamma s0 =
     and_then (ReadByte s0) (\<lambda>(b, s).
       let i = (ucast b :: 32 word) in
       if HasBit i 7 then
         and_then
           (let i = i AND NOT 0x80 in
            if HasBit i 6 then
              and_then
                (let i = i AND NOT 0x40 in
                 if HasBit i 5 then
                   (let i = i AND NOT 0x20 in
                    if HasBit i 4 then Inl (SlErrorCorrupt ''Unsupported gamma'')
                    else ReadGamma_shift_in (i, s))
                 else Inr (i, s))
                ReadGamma_shift_in
            else Inr (i, s))
           ReadGamma_shift_in
       else Inr (i, s))"

text \<open>
  \<open>void SaveDumper::WriteGamma(size_t i)\<close>; \<open>size_t\<close> is 64 bits wide, the casts
  \<open>(byte)\<close> keep the low eight bits, and the \<open>assert\<close> is a fault when it fails.
\<close>

definition WriteGamma :: "byte list \<Rightarrow> 64 word \<Rightarrow> fault + byte list" where
  "WriteGamma dump i =
     and_then
       (if i \<ge> push_bit 7 1 then
          (if i \<ge> push_bit 14 1 then
             and_then
               (if i \<ge> push_bit 21 1 then
                  (if i < push_bit 28 1 then
                     Inr (WriteByte (WriteByte dump (ucast (0xE0 OR drop_bit 24 i)))
                            (ucast (drop_bit 16 i)))
                   else Inl AssertionFailure)
                else Inr (WriteByte dump (ucast (0xC0 OR drop_bit 16 i))))
               (\<lambda>d. Inr (WriteByte d (ucast (drop_bit 8 i))))
           else Inr (WriteByte dump (ucast (0x80 OR drop_bit 8 i))))
        else Inr dump)
       (\<lambda>d. Inr (WriteByte d (ucast i)))"

section \<open>network/core/packet.cpp: the packet\<close>

text \<open>
  Modelled from the spec: the declarations of packet.h and core.h are not among the
  sources. \<open>PacketSize\<close> is the type of the 2-byte length field and \<open>PacketType\<close>
  the 1-byte type tag, so \<open>sizeof(PacketSize) = 2\<close> and \<open>sizeof(PacketType) = 1\<close>.
  A packet owns its \<open>buffer\<close> (a \<open>std::vector<byte>\<close>), the cursor \<open>pos\<close> (an offset
  into the buffer, kept as a natural number), its size \<open>limit\<close>, and the non-owning
  pointer \<open>cs\<close> to the socket handler it reads for (\<open>nullptr\<close> for a packet that is
  being written). Of the socket handler the packet code uses \<open>HasClientQuit()\<close>,
  which reads the flag \<open>has_quit\<close>, and \<open>NetworkSocketHandler::CloseConnection()\<close>,
  which marks the connection closed by setting that flag. The handler's state is
  kept inside the packet record, next to the pointer.
\<close>

record NetworkSocketHandler =
  has_quit :: bool

definition HasClientQuit :: "NetworkSocketHandler \<Rightarrow> bool" where
  "HasClientQuit h = has_quit h"

definition NetworkSocketHandler_CloseConnection :: "NetworkSocketHandler \<Rightarrow> NetworkSocketHandler" where
  "NetworkSocketHandler_CloseConnection h = h\<lparr>has_quit := True\<rparr>"

record Packet =
  pos :: nat
  buffer :: "byte list"
  limit :: nat
  cs :: "NetworkSocketHandler option"

definition sizeof_PacketSize :: nat where
  "sizeof_PacketSize = 2"

definition sizeof_PacketType :: nat where
  "sizeof_PacketType = 1"

text \<open>
  \<open>size_t\<close> arithmetic where the source can wrap around: the decrement \<open>--size\<close>, the
  sum and the subtraction of two sizes.
\<close>

definition size_t_dec :: "nat \<Rightarrow> nat" where
  "size_t_dec n = (if n = 0 then 2 ^ 64 - 1 else n - 1)"

definition size_t_add :: "nat \<Rightarrow> nat \<Rightarrow> nat" where
  "size_t_add a b = unat (word_of_nat a + word_of_nat b :: 64 word)"

definition size_t_sub :: "nat \<Rightarrow> nat \<Rightarrow> nat" where
  "size_t_sub a b = (if b \<le> a then a - b else 2 ^ 64 + a - b)"

text \<open>
  Indexing a vector or an array: C++ does not check the index, the model does and
  reports an access outside the storage as the fault \<open>OutOfBounds\<close>.
\<close>

definition peek :: "byte list \<Rightarrow> nat \<Rightarrow> fault + byte" where
  "peek xs i = (if i < length xs then Inr (xs ! i) else Inl OutOfBounds)"

definition poke :: "byte list \<Rightarrow> nat \<Rightarrow> byte \<Rightarrow> fault + byte list" where
  "poke xs i b = (if i < length xs then Inr (xs[i := b]) else Inl OutOfBounds)"

text \<open>\<open>std::vector::resize(n)\<close>: cut to \<open>n\<close> elements or fill up with zero bytes.\<close>

definition resize :: "byte list \<Rightarrow> nat \<Rightarrow> byte list" where
  "resize xs n = take n xs @ replicate (n - length xs) 0"

text \<open>\<open>size_t Packet::Size() const\<close>\<close>

definition Size :: "Packet \<Rightarrow> nat" where
  "Size p = length (buffer p)"

text \<open>
  \<open>bool Packet::CanWriteToPacket(size_t bytes_to_write)\<close>; the sum is computed in
  \<open>size_t\<close>.
\<close>

definition CanWriteToPacket :: "Packet \<Rightarrow> nat \<Rightarrow> bool" where
  "CanWriteToPacket p bytes_to_write \<longleftrightarrow> size_t_add (Size p) bytes_to_write < limit p"

text \<open>\<open>Send_uint8\<close>, \<open>Send_uint16\<close>, \<open>Send_uint32\<close>, \<open>Send_uint64\<close>, \<open>Send_bool\<close>\<close>

definition Send_uint8 :: "Packet \<Rightarrow> byte \<Rightarrow> fault + Packet" where
  "Send_uint8 p data =
     (if CanWriteToPacket p 1 then Inr (p\<lparr>buffer := buffer p @ [data]\<rparr>)
      else Inl AssertionFailure)"

definition Send_uint16 :: "Packet \<Rightarrow> 16 word \<Rightarrow> fault + Packet" where
  "Send_uint16 p data =
     (if CanWriteToPacket p 2 then
        Inr (p\<lparr>buffer := buffer p @ [ucast (GB data 0 8), ucast (GB data 8 8)]\<rparr>)
      else Inl AssertionFailure)"

definition Send_uint32 :: "Packet \<Rightarrow> 32 word \<Rightarrow> fault + Packet" where
  "Send_uint32 p data =
     (if CanWriteToPacket p 4 then
        Inr (p\<lparr>buffer := buffer p @
          [ucast (GB data 0 8), ucast (GB data 8 8), ucast (GB data 16 8), ucast (GB data 24 8)]\<rparr>)
      else Inl AssertionFailure)"

definition Send_uint64 :: "Packet \<Rightarrow> 64 word \<Rightarrow> fault + Packet" where
  "Send_uint64 p data =
     (if CanWriteToPacket p 8 then
        Inr (p\<lparr>buffer := buffer p @
          [ucast (GB data 0 8), ucast (GB data 8 8), ucast (GB data 16 8), ucast (GB data 24 8),
           ucast (GB data 32 8), ucast (GB data 40 8), ucast (GB data 48 8), ucast (GB data 56 8)]\<rparr>)
      else Inl AssertionFailure)"

definition Send_bool :: "Packet \<Rightarrow> bool \<Rightarrow> fault + Packet" where
  "Send_bool p data = Send_uint8 p (if data then 1 else 0)"

text \<open>
  \<open>void Packet::Send_string(const char *data)\<close>. The argument is the character array
  \<open>data\<close> points to; the end of the list stands for the array's terminating NUL, and a
  zero byte inside the list ends the C string earlier, as it does in C. \<open>strlen\<close> counts
  the bytes before the terminator; the loop appends bytes up to and including it.
\<close>

fun strlen :: "byte list \<Rightarrow> nat" where
  "strlen [] = 0"
| "strlen (c # data) = (if c = 0 then 0 else Suc (strlen data))"

fun Send_string_loop :: "byte list \<Rightarrow> byte list \<Rightarrow> byte list" where
  "Send_string_loop buf [] = buf @ [0]"
| "Send_string_loop buf (c # data) =
     (if c = 0 then buf @ [c] else Send_string_loop (buf @ [c]) data)"

definition Send_string :: "Packet \<Rightarrow> byte list \<Rightarrow> fault + Packet" where
  "Send_string p data =
     (if CanWriteToPacket p (strlen data + 1) then
        Inr (p\<lparr>buffer := Send_string_loop (buffer p) data\<rparr>)
      else Inl AssertionFailure)"

text \<open>
  \<open>size_t Packet::Send_bytes(const byte *begin, const byte *end)\<close>: no assertion, it
  copies what fits and returns the amount.
\<close>

definition Send_bytes :: "Packet \<Rightarrow> byte list \<Rightarrow> nat \<times> Packet" where
  "Send_bytes p src =
     (let amount = min (length src) (size_t_sub (limit p) (Size p))
      in (amount, p\<lparr>buffer := buffer p @ take amount src\<rparr>))"

text \<open>
  \<open>void Packet::Send_binary(const char *data, const size_t size)\<close>; reading more than
  the array \<open>data\<close> holds is an access outside it.
\<close>

definition Send_binary :: "Packet \<Rightarrow> byte list \<Rightarrow> nat \<Rightarrow> fault + Packet" where
  "Send_binary p data sz =
     (if CanWriteToPacket p sz then
        (if sz \<le> length data then Inr (p\<lparr>buffer := buffer p @ take sz data\<rparr>)
         else Inl OutOfBounds)
      else Inl AssertionFailure)"


definition ResetState :: "Packet \<Rightarrow> byte \<Rightarrow> fault + Packet" where
  "ResetState p type =
     and_then (Send_uint16 (p\<lparr>cs := None, buffer := []\<rparr>) 0) (\<lambda>p'. Send_uint8 p' type)"

definition Packet_outgoing :: "byte \<Rightarrow> nat \<Rightarrow> fault + Packet" where
  "Packet_outgoing type lim = ResetState \<lparr>pos = 0, buffer = [], limit = lim, cs = None\<rparr> type"

text \<open>\<open>void Packet::PrepareToSend()\<close>; \<open>Size()\<close> is a \<open>size_t\<close>.\<close>

definition PrepareToSend :: "Packet \<Rightarrow> fault + Packet" where
  "PrepareToSend p =
     (if cs p \<noteq> None then Inl AssertionFailure
      else
        and_then (poke (buffer p) 0 (ucast (GB (word_of_nat (Size p) :: 64 word) 0 8))) (\<lambda>b0.
        and_then (poke b0 1 (ucast (GB (word_of_nat (Size p) :: 64 word) 8 8))) (\<lambda>b1.
          Inr (p\<lparr>buffer := b1, pos := 0\<rparr>))))"

text \<open>
  \<open>bool Packet::CanReadFromPacket(size_t bytes_to_read, bool close_connection)\<close>; the
  sum \<open>this->pos + bytes_to_read\<close> is computed in \<open>size_t\<close>.
\<close>

definition CanReadFromPacket :: "Packet \<Rightarrow> nat \<Rightarrow> bool \<Rightarrow> fault + (bool \<times> Packet)" where
  "CanReadFromPacket p bytes_to_read close_connection =
     (case cs p of
        None \<Rightarrow> Inl NullPointer
      | Some h \<Rightarrow>
          if HasClientQuit h then Inr (False, p)
          else if size_t_add (pos p) bytes_to_read > Size p then
            Inr (False,
              if close_connection then p\<lparr>cs := Some (NetworkSocketHandler_CloseConnection h)\<rparr>
              else p)
          else Inr (True, p))"

text \<open>\<open>HasPacketSizeData\<close>, \<open>ReadRawPacketSize\<close>, \<open>ParsePacketSize\<close>, \<open>PrepareToRead\<close>, \<open>GetPacketType\<close>\<close>

definition HasPacketSizeData :: "Packet \<Rightarrow> bool" where
  "HasPacketSizeData p \<longleftrightarrow> pos p \<ge> sizeof_PacketSize"

definition ReadRawPacketSize :: "Packet \<Rightarrow> fault + nat" where
  "ReadRawPacketSize p =
     and_then (peek (buffer p) 0) (\<lambda>b0.
     and_then (peek (buffer p) 1) (\<lambda>b1.
       Inr (unat b0 + unat (push_bit 8 (ucast b1 :: 64 word)))))"

definition ParsePacketSize :: "Packet \<Rightarrow> fault + (bool \<times> Packet)" where
  "ParsePacketSize p =
     (if cs p = None then Inl AssertionFailure
      else
        and_then (peek (buffer p) 0) (\<lambda>b0.
        and_then (peek (buffer p) 1) (\<lambda>b1.
          let sz = unat b0 + unat (push_bit 8 (ucast b1 :: 64 word)) in
          if sz < sizeof_PacketSize + sizeof_PacketType \<or> sz > limit p then Inr (False, p)
          else Inr (True, p\<lparr>buffer := resize (buffer p) sz, pos := sizeof_PacketSize\<rparr>))))"


definition GetPacketType :: "Packet \<Rightarrow> fault + byte" where
  "GetPacketType p =
     (if Size p \<ge> sizeof_PacketSize + sizeof_PacketType then peek (buffer p) sizeof_PacketSize
      else Inl AssertionFailure)"

text \<open>The expression \<open>this->buffer[this->pos++]\<close>.\<close>

definition next_byte :: "Packet \<Rightarrow> fault + (byte \<times> Packet)" where
  "next_byte p = and_then (peek (buffer p) (pos p)) (\<lambda>b. Inr (b, p\<lparr>pos := pos p + 1\<rparr>))"

text \<open>\<open>Recv_uint8\<close>, \<open>Recv_bool\<close>, \<open>Recv_uint16\<close>, \<open>Recv_uint32\<close>, \<open>Recv_uint64\<close>\<close>

definition Recv_uint8 :: "Packet \<Rightarrow> fault + (byte \<times> Packet)" where
  "Recv_uint8 p =
     and_then (CanReadFromPacket p 1 True) (\<lambda>(ok, p).
       if \<not> ok then Inr (0, p) else next_byte p)"

definition Recv_bool :: "Packet \<Rightarrow> fault + (bool \<times> Packet)" where
  "Recv_bool p = and_then (Recv_uint8 p) (\<lambda>(n, p). Inr (n \<noteq> 0, p))"

definition Recv_uint16 :: "Packet \<Rightarrow> fault + (16 word \<times> Packet)" where
  "Recv_uint16 p =
     and_then (CanReadFromPacket p 2 True) (\<lambda>(ok, p).
       if \<not> ok then Inr (0, p)
       else
         and_then (next_byte p) (\<lambda>(b0, p). let n = ucast b0 in
         and_then (next_byte p) (\<lambda>(b1, p). let n = n + push_bit 8 (ucast b1) in
           Inr (n, p))))"

definition Recv_uint32 :: "Packet \<Rightarrow> fault + (32 word \<times> Packet)" where
  "Recv_uint32 p =
     and_then (CanReadFromPacket p 4 True) (\<lambda>(ok, p).
       if \<not> ok then Inr (0, p)
       else
         and_then (next_byte p) (\<lambda>(b0, p). let n = ucast b0 in
         and_then (next_byte p) (\<lambda>(b1, p). let n = n + push_bit 8 (ucast b1) in
         and_then (next_byte p) (\<lambda>(b2, p). let n = n + push_bit 16 (ucast b2) in
         and_then (next_byte p) (\<lambda>(b3, p). let n = n + push_bit 24 (ucast b3) in
           Inr (n, p))))))"

definition Recv_uint64 :: "Packet \<Rightarrow> fault + (64 word \<times> Packet)" where
  "Recv_uint64 p =
     and_then (CanReadFromPacket p 8 True) (\<lambda>(ok, p).
       if \<not> ok then Inr (0, p)
       else
         and_then (next_byte p) (\<lambda>(b0, p). let n = ucast b0 in
         and_then (next_byte p) (\<lambda>(b1, p). let n = n + push_bit 8 (ucast b1) in
         and_then (next_byte p) (\<lambda>(b2, p). let n = n + push_bit 16 (ucast b2) in
         and_then (next_byte p) (\<lambda>(b3, p). let n = n + push_bit 24 (ucast b3) in
         and_then (next_byte p) (\<lambda>(b4, p). let n = n + push_bit 32 (ucast b4) in
         and_then (next_byte p) (\<lambda>(b5, p). let n = n + push_bit 40 (ucast b5) in
         and_then (next_byte p) (\<lambda>(b6, p). let n = n + push_bit 48 (ucast b6) in
         and_then (next_byte p) (\<lambda>(b7, p). let n = n + push_bit 56 (ucast b7) in
           Inr (n, p))))))))))"

text \<open>
  \<open>void Packet::Recv_string(char *buffer, size_t size, StringValidationSettings settings)\<close>.
  The destination is the caller's array \<open>dest\<close>; the index \<open>i\<close> is the distance of the
  moving pointer \<open>buffer\<close> from its start \<open>bufp\<close>; \<open>sz\<close> is the parameter \<open>size\<close> and
  \<open>ps\<close> the local cursor \<open>pos\<close>, a \<open>PacketSize\<close> and so a 16-bit word: it takes the low
  16 bits of the member \<open>pos\<close> and every \<open>pos++\<close> wraps around. The copy loop is
  \<open>while (--size > 0 && pos < Size() && (*buffer++ = this->buffer[pos++]) != '\0')\<close>; a
  write beyond the destination array is the fault \<open>OutOfBounds\<close>. The skip loop is
  \<open>while (pos < Size() && this->buffer[pos] != '\0') pos++\<close>; in a packet of more than
  65535 bytes whose first 65536 bytes hold no NUL it never ends, which is the result
  \<open>None\<close> of \<open>Recv_string_skip\<close> and of \<open>Recv_string\<close>.
  \<open>str_validate\<close> (string.cpp) is not among the sources: the sanitising step that the
  call \<open>str_validate(bufp, last, settings)\<close> applies to the destination under the given
  settings is the parameter \<open>validate\<close>.
\<close>

function Recv_string_copy ::
  "byte list \<Rightarrow> nat \<Rightarrow> 16 word \<Rightarrow> nat \<Rightarrow> byte list
     \<Rightarrow> fault + (nat \<times> 16 word \<times> nat \<times> byte list)" where
  "Recv_string_copy src sz ps i dest =
     (let sz' = size_t_dec sz in
      if sz' > 0 \<and> unat ps < length src then
        (if i < length dest then
           (let c = src ! unat ps; dest' = dest[i := c] in
            if c \<noteq> 0 then Recv_string_copy src sz' (ps + 1) (i + 1) dest'
            else Inr (sz', ps + 1, i + 1, dest'))
         else Inl OutOfBounds)
      else Inr (sz', ps, i, dest))"
  by pat_completeness auto
termination
  by (relation "measure (\<lambda>(src, sz, ps, i, dest). length dest - i)") auto

partial_function (option) Recv_string_skip :: "byte list \<Rightarrow> 16 word \<Rightarrow> 16 word option" where
  "Recv_string_skip src ps =
     (if unat ps < length src \<and> src ! unat ps \<noteq> 0 then Recv_string_skip src (ps + 1)
      else Some ps)"

declare Recv_string_copy.simps [simp del]

declare Recv_string_skip.simps [code]

definition Recv_string ::
  "(byte list \<Rightarrow> byte list) \<Rightarrow> Packet \<Rightarrow> byte list \<Rightarrow> nat
     \<Rightarrow> (fault + (byte list \<times> Packet)) option" where
  "Recv_string validate p dest sz =
     (case cs p of
        None \<Rightarrow> Some (Inl NullPointer)
      | Some h \<Rightarrow>
          if HasClientQuit h then Some (Inr (dest, p))
          else
            (case Recv_string_copy (buffer p) sz (word_of_nat (pos p)) 0 dest of
               Inl e \<Rightarrow> Some (Inl e)
             | Inr (sz', ps, i, dest') \<Rightarrow>
                 if sz' = 0 \<or> unat ps = Size p then
                   (case poke dest' i 0 of
                      Inl e \<Rightarrow> Some (Inl e)
                    | Inr dest'' \<Rightarrow>
                        (case Recv_string_skip (buffer p) ps of
                           None \<Rightarrow> None
                         | Some ps' \<Rightarrow>
                             Some (Inr (validate dest'', p\<lparr>pos := unat (ps' + 1)\<rparr>))))
                 else Some (Inr (validate dest', p\<lparr>pos := unat ps\<rparr>))))"

text \<open>\<open>size_t Packet::RemainingBytesToTransfer() const\<close>\<close>

definition RemainingBytesToTransfer :: "Packet \<Rightarrow> nat" where
  "RemainingBytesToTransfer p = size_t_sub (Size p) (pos p)"

text \<open>
  Modelled from the spec: \<open>ttd_strnlen\<close> (string\_func.h) is not among the sources. It is
  the bounded string length: the number of bytes before the first NUL, at most
  \<open>maxlen\<close>. It is given the bytes of the vector from \<open>pos\<close> on, and looking beyond them
  is an access outside the vector.
\<close>

fun ttd_strnlen :: "byte list \<Rightarrow> nat \<Rightarrow> fault + nat" where
  "ttd_strnlen [] maxlen = (if maxlen = 0 then Inr 0 else Inl OutOfBounds)"
| "ttd_strnlen (c # str) maxlen =
     (if maxlen = 0 \<or> c = 0 then Inr 0
      else and_then (ttd_strnlen str (maxlen - 1)) (\<lambda>n. Inr (Suc n)))"

text \<open>
  \<open>void Packet::Recv_string(std::string &buffer, StringValidationSettings settings)\<close>;
  the call \<open>str_validate_inplace(buffer, settings)\<close> is again the parameter \<open>validate\<close>,
  and \<open>(uint)length + 1\<close> is computed in 32 bits.
\<close>

definition Recv_string_std ::
  "(byte list \<Rightarrow> byte list) \<Rightarrow> Packet \<Rightarrow> byte list \<Rightarrow> fault + (byte list \<times> Packet)" where
  "Recv_string_std validate p dest =
     (case cs p of
        None \<Rightarrow> Inl NullPointer
      | Some h \<Rightarrow>
          if HasClientQuit h then Inr (dest, p)
          else
            and_then
              (ttd_strnlen (drop (pos p) (buffer p)) (size_t_sub (size_t_sub (Size p) (pos p)) 1))
              (\<lambda>len.
                 Inr (validate (take len (drop (pos p) (buffer p))),
                      p\<lparr>pos := pos p + (len mod 2 ^ 32 + 1) mod 2 ^ 32\<rparr>)))"

text \<open>
  \<open>void Packet::Recv_binary(char *buffer, size_t size)\<close> and
  \<open>void Packet::Recv_binary(std::string &buffer, size_t size)\<close>. \<open>memcpy\<close> and \<open>assign\<close>
  read \<open>size\<close> bytes of the vector from \<open>pos\<close> on, and \<open>memcpy\<close> writes as many into
  the array \<open>dest\<close>: beyond the end of either it is the fault \<open>OutOfBounds\<close>. The cast
  \<open>(PacketSize) size\<close> keeps the low 16 bits.
\<close>

definition Recv_binary :: "Packet \<Rightarrow> byte list \<Rightarrow> nat \<Rightarrow> fault + (byte list \<times> Packet)" where
  "Recv_binary p dest sz =
     and_then (CanReadFromPacket p sz True) (\<lambda>(ok, p).
       if \<not> ok then Inr (dest, p)
       else if sz \<le> length dest \<and> pos p + sz \<le> Size p then
         Inr (take sz (drop (pos p) (buffer p)) @ drop sz dest,
              p\<lparr>pos := pos p + sz mod 2 ^ 16\<rparr>)
       else Inl OutOfBounds)"

definition Recv_binary_std :: "Packet \<Rightarrow> byte list \<Rightarrow> nat \<Rightarrow> fault + (byte list \<times> Packet)" where
  "Recv_binary_std p dest sz =
     and_then (CanReadFromPacket p sz True) (\<lambda>(ok, p).
       if \<not> ok then Inr (dest, p)
       else if pos p + sz \<le> Size p then
         Inr (take sz (drop (pos p) (buffer p)), p\<lparr>pos := pos p + sz mod 2 ^ 16\<rparr>)
       else Inl OutOfBounds)"

text \<open>
  Modelled from the spec: \<open>str_validate\<close> and \<open>str_validate_inplace\<close> (string.cpp) are
  not among the sources. The spec: every string payload is passed, before it is handed
  to the caller, through a step that sanitises the decoded byte sequence in place,
  removing control characters or invalid encoding. \<open>IsControl\<close> holds of the ASCII
  control characters. \<open>str_validate_inplace\<close> sanitises a \<open>std::string\<close>;
  \<open>str_validate\<close> sanitises the C string held in a character array, writes its
  terminator and leaves the rest of the array alone. The encoding concerns bytes from
  \<open>0x80\<close> on, which are kept here as they are.
\<close>

definition IsControl :: "byte \<Rightarrow> bool" where
  "IsControl c \<longleftrightarrow> c < 0x20 \<or> c = 0x7F"

definition str_validate_inplace :: "byte list \<Rightarrow> byte list" where
  "str_validate_inplace str = filter (\<lambda>c. \<not> IsControl c) str"

definition str_validate :: "byte list \<Rightarrow> byte list" where
  "str_validate buf =
     (let str = str_validate_inplace (takeWhile (\<lambda>c. c \<noteq> 0) buf)
      in take (length buf) (str @ 0 # drop (length str + 1) buf))"

section \<open>network/core/tcp.cpp: sending and receiving packets\<close>

text \<open>
  \<open>NetworkClientSocket\<close> derives from \<open>NetworkSocketHandler\<close>; of its members the
  socket \<open>sock\<close> (\<open>None\<close> is \<open>INVALID_SOCKET\<close>), the flag \<open>writable\<close>, the queue of
  packets to send and the packet being received take part in sending and receiving.
  The queue, a chain of \<open>next\<close> pointers in the source, is a list. The globals
  \<open>_network_server\<close>, \<open>_networking\<close>, \<open>_switch_mode\<close> and \<open>_switch_mode_errorstr\<close> are the
  fields of \<open>network_globals\<close>.

  The operating system is a script: \<open>to_send\<close> holds what the successive calls of
  \<open>send\<close> will answer and \<open>to_recv\<close> what the successive calls of \<open>recv\<close> will answer;
  \<open>wire\<close> collects the bytes that \<open>send\<close> has accepted. \<open>Accepts n\<close> is a \<open>send\<close> that takes
  \<open>n\<close> bytes, or all that were offered when these are fewer, and returns their number;
  \<open>Delivers bs\<close> is a \<open>recv\<close> that has the bytes \<open>bs\<close> at hand and returns as many of them as
  were asked for, keeping the others for the next call; \<open>SendWouldBlock\<close> and
  \<open>RecvWouldBlock\<close> are the result \<open>-1\<close> with \<open>EWOULDBLOCK\<close>, \<open>SendError\<close> and
  \<open>RecvError\<close> the result \<open>-1\<close> with any other error. Where the script has run out the
  call would block.
\<close>

datatype NetworkRecvStatus = NETWORK_RECV_STATUS_OKAY | NETWORK_RECV_STATUS_CONN_LOST

datatype SwitchMode = SM_MENU | SM_OTHER nat

datatype StringID = STR_NETWORK_ERR_LOSTCONNECTION | STR_OTHER nat

record network_globals =
  network_server :: bool
  networking :: bool
  switch_mode :: SwitchMode
  switch_mode_errorstr :: StringID

record NetworkClientSocket = NetworkSocketHandler +
  sock :: "nat option"
  writable :: bool
  packet_queue :: "Packet list"
  packet_recv :: "Packet option"

datatype send_event = Accepts nat | SendWouldBlock | SendError

datatype recv_event = Delivers "byte list" | RecvWouldBlock | RecvError

record net_state =
  globals :: network_globals
  client :: NetworkClientSocket
  to_send :: "send_event list"
  wire :: "byte list"
  to_recv :: "recv_event list"

text \<open>
  Modelled from the spec: \<open>IsConnected()\<close> (core.h) tells whether the socket is valid.
\<close>

definition IsConnected :: "NetworkClientSocket \<Rightarrow> bool" where
  "IsConnected c \<longleftrightarrow> sock c \<noteq> None"

text \<open>The destructor \<open>NetworkClientSocket::~NetworkClientSocket()\<close>.\<close>

definition NetworkClientSocket_destroy :: "NetworkClientSocket \<Rightarrow> NetworkClientSocket" where
  "NetworkClientSocket_destroy c =
     c\<lparr>writable := False, has_quit := True, packet_queue := [], packet_recv := None, sock := None\<rparr>"

text \<open>
  Modelled from the spec: \<open>NetworkCloseClient\<close> (network.cpp) is not among the sources.
  A hosting peer that loses a client removes that client's connection state, releasing
  every queued and partially received packet and marking the connection so that no
  further send or receive is attempted on it: the effects of the destructor.
\<close>

definition NetworkCloseClient :: "NetworkClientSocket \<Rightarrow> NetworkClientSocket" where
  "NetworkCloseClient c = NetworkClientSocket_destroy c"

text \<open>\<open>NetworkRecvStatus NetworkClientSocket::CloseConnection()\<close>\<close>

definition CloseConnection :: "net_state \<Rightarrow> NetworkRecvStatus \<times> net_state" where
  "CloseConnection st =
     (if \<not> network_server (globals st) \<and> networking (globals st) then
        (NETWORK_RECV_STATUS_CONN_LOST,
         st\<lparr>globals := (globals st)\<lparr>switch_mode := SM_MENU, networking := False,
                 switch_mode_errorstr := STR_NETWORK_ERR_LOSTCONNECTION\<rparr>\<rparr>)
      else (NETWORK_RECV_STATUS_OKAY, st\<lparr>client := NetworkCloseClient (client st)\<rparr>))"

text \<open>\<open>void NetworkClientSocket::Send_Packet(Packet *packet)\<close>\<close>

definition Send_Packet :: "net_state \<Rightarrow> Packet \<Rightarrow> fault + net_state" where
  "Send_Packet st packet =
     and_then (PrepareToSend packet) (\<lambda>p.
       Inr (st\<lparr>client := (client st)\<lparr>packet_queue := packet_queue (client st) @ [p]\<rparr>\<rparr>))"

text \<open>
  \<open>bool NetworkClientSocket::Send_Packets()\<close>. tcp.cpp reads the members \<open>buffer\<close>,
  \<open>size\<close> and \<open>pos\<close> of the packet; \<open>p->size\<close> is the number of bytes of the packet, which
  packet.cpp calls \<open>Size()\<close>. The function \<open>Send_Packets_loop\<close> is the \<open>while\<close> loop.
\<close>

function Send_Packets_loop :: "net_state \<Rightarrow> bool \<times> net_state" where
  "Send_Packets_loop st =
     (case packet_queue (client st) of
        [] \<Rightarrow> (True, st)
      | p # q \<Rightarrow>
          (case to_send st of
             [] \<Rightarrow> (True, st)
           | ev # evs \<Rightarrow>
               (case ev of
                  SendWouldBlock \<Rightarrow> (True, st\<lparr>to_send := evs\<rparr>)
                | SendError \<Rightarrow> (False, snd (CloseConnection (st\<lparr>to_send := evs\<rparr>)))
                | Accepts n \<Rightarrow>
                    (let res = min n (Size p - pos p) in
                     if res = 0 then (False, snd (CloseConnection (st\<lparr>to_send := evs\<rparr>)))
                     else
                       (let p' = p\<lparr>pos := pos p + res\<rparr>;
                            st' = st\<lparr>to_send := evs,
                                     wire := wire st @ take res (drop (pos p) (buffer p))\<rparr>
                        in if pos p' = Size p' then
                             Send_Packets_loop (st'\<lparr>client := (client st')\<lparr>packet_queue := q\<rparr>\<rparr>)
                           else (True, st'\<lparr>client := (client st')\<lparr>packet_queue := p' # q\<rparr>\<rparr>))))))"
  by pat_completeness auto
termination
  by (relation "measure (\<lambda>st. length (to_send st))") auto

declare Send_Packets_loop.simps [simp del]

definition Send_Packets :: "net_state \<Rightarrow> bool \<times> net_state" where
  "Send_Packets st =
     (if \<not> writable (client st) then (False, st)
      else if \<not> IsConnected (client st) then (False, st)
      else Send_Packets_loop st)"






section \<open>Sequences of calls\<close>

text \<open>
  A packet to send is built by the constructor followed by any sequence of \<open>Send_*\<close>
  calls. \<open>send_call\<close> names one call with its argument, \<open>do_send\<close> performs it and
  \<open>do_sends\<close> performs a sequence, stopping at the first failed assertion.
\<close>

datatype send_call =
    Call_Send_bool bool
  | Call_Send_uint8 byte
  | Call_Send_uint16 "16 word"
  | Call_Send_uint32 "32 word"
  | Call_Send_uint64 "64 word"
  | Call_Send_string "byte list"
  | Call_Send_bytes "byte list"
  | Call_Send_binary "byte list" nat

fun do_send :: "Packet \<Rightarrow> send_call \<Rightarrow> fault + Packet" where
  "do_send p (Call_Send_bool b) = Send_bool p b"
| "do_send p (Call_Send_uint8 v) = Send_uint8 p v"
| "do_send p (Call_Send_uint16 v) = Send_uint16 p v"
| "do_send p (Call_Send_uint32 v) = Send_uint32 p v"
| "do_send p (Call_Send_uint64 v) = Send_uint64 p v"
| "do_send p (Call_Send_string s) = Send_string p s"
| "do_send p (Call_Send_bytes s) = Inr (snd (Send_bytes p s))"
| "do_send p (Call_Send_binary s n) = Send_binary p s n"

fun do_sends :: "Packet \<Rightarrow> send_call list \<Rightarrow> fault + Packet" where
  "do_sends p [] = Inr p"
| "do_sends p (c # calls) = and_then (do_send p c) (\<lambda>p'. do_sends p' calls)"

text \<open>
  The C string held in a character array is the bytes before its first NUL.
  \<open>read_back p h n\<close> is the packet as the receiving side holds it once the bytes of
  \<open>p\<close> have arrived: the same bytes and limit, attached to the socket handler \<open>h\<close>,
  with the cursor at offset \<open>n\<close>.
\<close>

definition c_str :: "byte list \<Rightarrow> byte list" where
  "c_str d = takeWhile (\<lambda>c. c \<noteq> 0) d"

definition read_back :: "Packet \<Rightarrow> NetworkSocketHandler \<Rightarrow> nat \<Rightarrow> Packet" where
  "read_back p h n = \<lparr>pos = n, buffer = buffer p, limit = limit p, cs = Some h\<rparr>"

text \<open>
  A string is printable ASCII when each of its bytes lies between the space (\<open>0x20\<close>)
  and the tilde (\<open>0x7E\<close>).
\<close>

definition printable_ascii :: "byte list \<Rightarrow> bool" where
  "printable_ascii s \<longleftrightarrow> list_all (\<lambda>c. 0x20 \<le> c \<and> c \<le> 0x7E) s"

text \<open>
  Calling \<open>Send_Packets\<close> again and again, as the game loop does once per tick.
  \<open>pending\<close> is what a queue still has to transmit: the bytes of its packets from
  their cursors on, in queue order. A script \<open>progresses\<close> when every \<open>send\<close> either would
  block or takes at least one byte; \<open>count_accepts\<close> counts the latter. A queue is
  \<open>queue_ok\<close> when each of its packets still has bytes to transmit, a connection \<open>live\<close>
  when it can be written to, and \<open>drained st st'\<close> relates the states before and after
  any number of calls that only moved bytes from the queue to the wire.
\<close>

fun Send_Packets_repeatedly :: "nat \<Rightarrow> net_state \<Rightarrow> net_state" where
  "Send_Packets_repeatedly 0 st = st"
| "Send_Packets_repeatedly (Suc k) st = Send_Packets_repeatedly k (snd (Send_Packets st))"

definition pending :: "Packet list \<Rightarrow> byte list" where
  "pending q = concat (map (\<lambda>p. drop (pos p) (buffer p)) q)"

fun progresses :: "send_event \<Rightarrow> bool" where
  "progresses (Accepts n) = (0 < n)"
| "progresses SendWouldBlock = True"
| "progresses SendError = False"

fun is_Accepts :: "send_event \<Rightarrow> bool" where
  "is_Accepts (Accepts n) = True"
| "is_Accepts e = False"

definition queue_ok :: "Packet list \<Rightarrow> bool" where
  "queue_ok q \<longleftrightarrow> list_all (\<lambda>p. pos p < Size p) q"

definition count_accepts :: "send_event list \<Rightarrow> nat" where
  "count_accepts evs = length (filter is_Accepts evs)"

definition drained :: "net_state \<Rightarrow> net_state \<Rightarrow> bool" where
  "drained st st' \<longleftrightarrow>
     wire st' @ pending (packet_queue (client st')) = wire st @ pending (packet_queue (client st))
     \<and> queue_ok (packet_queue (client st'))
     \<and> (\<exists>k. map buffer (packet_queue (client st')) = drop k (map buffer (packet_queue (client st))))
     \<and> list_all progresses (to_send st')
     \<and> count_accepts (to_send st) + length (pending (packet_queue (client st')))
           \<le> count_accepts (to_send st') + length (pending (packet_queue (client st)))
     \<and> length (to_send st') \<le> length (to_send st)
     \<and> globals st' = globals st \<and> to_recv st' = to_recv st
     \<and> client st' = (client st)\<lparr>packet_queue := packet_queue (client st')\<rparr>"

definition live :: "net_state \<Rightarrow> bool" where
  "live st \<longleftrightarrow> writable (client st) \<and> IsConnected (client st)"

section \<open>Facts about the gamma codec\<close>

lemma hi_bits: "(v::64 word) < 2 ^ k \<Longrightarrow> bit v n \<Longrightarrow> n < k"
  by (metis bit_take_bit_iff less_mask_eq take_bit_eq_mask)

lemma bit_0x80: "bit (0x80::'a::len word) n \<longleftrightarrow> n = 7 \<and> 7 < LENGTH('a)"
proof -
  have "(0x80::'a word) = 2 ^ 7" by simp
  then show ?thesis by (simp only: bit_exp_iff possible_bit_word) auto
qed
lemma bit_0x40: "bit (0x40::'a::len word) n \<longleftrightarrow> n = 6 \<and> 6 < LENGTH('a)"
proof -
  have "(0x40::'a word) = 2 ^ 6" by simp
  then show ?thesis by (simp only: bit_exp_iff possible_bit_word) auto
qed
lemma bit_0x20: "bit (0x20::'a::len word) n \<longleftrightarrow> n = 5 \<and> 5 < LENGTH('a)"
proof -
  have "(0x20::'a word) = 2 ^ 5" by simp
  then show ?thesis by (simp only: bit_exp_iff possible_bit_word) auto
qed
lemma bit_0xC0: "bit (0xC0::64 word) n \<longleftrightarrow> n = 6 \<or> n = 7"
proof -
  have "(0xC0::64 word) = 2 ^ 7 OR 2 ^ 6" by simp
  then show ?thesis by (simp only: bit_or_iff bit_exp_iff possible_bit_word) auto
qed
lemma bit_0xE0: "bit (0xE0::64 word) n \<longleftrightarrow> n = 5 \<or> n = 6 \<or> n = 7"
proof -
  have "(0xE0::64 word) = 2 ^ 7 OR 2 ^ 6 OR 2 ^ 5" by simp
  then show ?thesis by (simp only: bit_or_iff bit_exp_iff possible_bit_word) auto
qed

lemmas gamma_bits = bit_0x80 bit_0x40 bit_0x20 bit_0xC0 bit_0xE0

lemma strip7: "bit ((ucast (b::byte) :: 32 word) AND NOT 0x80) n \<longleftrightarrow> bit b n \<and> n \<noteq> 7"
  by (simp only: bit_simps gamma_bits) (auto dest: bit_imp_le_length)
lemma strip6: "bit (((ucast (b::byte) :: 32 word) AND NOT 0x80) AND NOT 0x40) n \<longleftrightarrow> bit b n \<and> n \<noteq> 7 \<and> n \<noteq> 6"
  by (simp only: bit_simps gamma_bits) (auto dest: bit_imp_le_length)
lemma strip5: "bit ((((ucast (b::byte) :: 32 word) AND NOT 0x80) AND NOT 0x40) AND NOT 0x20) n \<longleftrightarrow> bit b n \<and> n \<noteq> 7 \<and> n \<noteq> 6 \<and> n \<noteq> 5"
  by (simp only: bit_simps gamma_bits) (auto dest: bit_imp_le_length)
lemma strip0: "bit (ucast (b::byte) :: 32 word) n \<longleftrightarrow> bit b n"
  by (simp only: bit_simps) (auto dest: bit_imp_le_length)

lemma ReadGamma_unfold:
  "ReadGamma (b # s) =
     (if bit b 7 then
         and_then
           (if bit b 6 then
              and_then
                (if bit b 5 then
                   (if bit b 4 then Inl (SlErrorCorrupt ''Unsupported gamma'')
                    else ReadGamma_shift_in (((ucast b AND NOT 0x80) AND NOT 0x40) AND NOT 0x20, s))
                 else Inr ((ucast b AND NOT 0x80) AND NOT 0x40, s))
                ReadGamma_shift_in
            else Inr (ucast b AND NOT 0x80, s))
           ReadGamma_shift_in
       else Inr (ucast b, s))"
  by (simp only: ReadGamma_def HasBit_def Let_def ReadByte.simps and_then_def sum.case prod.case
    strip0 strip7 strip6 strip5 simp_thms if_True if_False cong: if_cong) simp

lemma ReadGamma_1: "\<not> bit b 7 \<Longrightarrow> ReadGamma (b # s) = Inr (ucast b, s)"
  by (simp add: ReadGamma_unfold)

lemma ReadGamma_2: "bit b 7 \<Longrightarrow> \<not> bit b 6 \<Longrightarrow>
   ReadGamma (b # b1 # s) = Inr (push_bit 8 (ucast b AND NOT 0x80) OR ucast b1, s)"
  by (simp only: ReadGamma_unfold ReadGamma_shift_in_def and_then_def ReadByte.simps
       if_True if_False sum.case prod.case)

lemma ReadGamma_3: "bit b 7 \<Longrightarrow> bit b 6 \<Longrightarrow> \<not> bit b 5 \<Longrightarrow>
   ReadGamma (b # b1 # b2 # s) =
     Inr (push_bit 8 (push_bit 8 ((ucast b AND NOT 0x80) AND NOT 0x40) OR ucast b1) OR ucast b2, s)"
  by (simp only: ReadGamma_unfold ReadGamma_shift_in_def and_then_def ReadByte.simps
       if_True if_False sum.case prod.case)

lemma ReadGamma_4: "bit b 7 \<Longrightarrow> bit b 6 \<Longrightarrow> bit b 5 \<Longrightarrow> \<not> bit b 4 \<Longrightarrow>
   ReadGamma (b # b1 # b2 # b3 # s) =
     Inr (push_bit 8 (push_bit 8 (push_bit 8 (((ucast b AND NOT 0x80) AND NOT 0x40) AND NOT 0x20) OR ucast b1) OR ucast b2) OR ucast b3, s)"
  by (simp only: ReadGamma_unfold ReadGamma_shift_in_def and_then_def ReadByte.simps
       if_True if_False sum.case prod.case)

lemma ReadGamma_unsupported: "bit b 7 \<Longrightarrow> bit b 6 \<Longrightarrow> bit b 5 \<Longrightarrow> bit b 4 \<Longrightarrow>
   ReadGamma (b # s) = Inl (SlErrorCorrupt ''Unsupported gamma'')"
  by (simp only: ReadGamma_unfold ReadGamma_shift_in_def and_then_def ReadByte.simps
       if_True if_False sum.case prod.case)

lemma WriteGamma_1: "i < 2 ^ 7 \<Longrightarrow> WriteGamma d i = Inr (d @ [ucast i])"
  by (auto simp add: WriteGamma_def and_then_def WriteByte_def word_le_nat_alt word_less_nat_alt)

lemma WriteGamma_2: "2 ^ 7 \<le> i \<Longrightarrow> i < 2 ^ 14 \<Longrightarrow>
  WriteGamma d i = Inr (d @ [ucast (0x80 OR drop_bit 8 i), ucast i])"
  by (auto simp add: WriteGamma_def and_then_def WriteByte_def word_le_nat_alt word_less_nat_alt)

lemma WriteGamma_3: "2 ^ 14 \<le> i \<Longrightarrow> i < 2 ^ 21 \<Longrightarrow>
  WriteGamma d i = Inr (d @ [ucast (0xC0 OR drop_bit 16 i), ucast (drop_bit 8 i), ucast i])"
  by (auto simp add: WriteGamma_def and_then_def WriteByte_def word_le_nat_alt word_less_nat_alt)

lemma WriteGamma_4: "2 ^ 21 \<le> i \<Longrightarrow> i < 2 ^ 28 \<Longrightarrow>
  WriteGamma d i = Inr (d @ [ucast (0xE0 OR drop_bit 24 i), ucast (drop_bit 16 i), ucast (drop_bit 8 i), ucast i])"
  by (auto simp add: WriteGamma_def and_then_def WriteByte_def word_le_nat_alt word_less_nat_alt)

lemma WriteGamma_unsupported: "2 ^ 28 \<le> i \<Longrightarrow> WriteGamma d i = Inl AssertionFailure"
  by (auto simp add: WriteGamma_def and_then_def WriteByte_def word_le_nat_alt word_less_nat_alt)

lemma gamma_value_1:
  assumes "(v::64 word) < 2 ^ 7"
  shows "\<not> bit (ucast v :: byte) 7" and "ucast (ucast (ucast v :: byte) :: 32 word) = v"
proof -
  have hb: "\<And>n. bit v n \<Longrightarrow> n < 7" by (rule hi_bits[OF assms])
  show "\<not> bit (ucast v :: byte) 7"
    using hb[of 7] by (simp only: bit_simps) auto
  show "ucast (ucast (ucast v :: byte) :: 32 word) = v"
  proof (rule bit_eqI)
    fix n
    show "bit (ucast (ucast (ucast v :: byte) :: 32 word) :: 64 word) n = bit v n"
      using hb[of n] by (simp only: bit_simps) auto
  qed
qed

lemma gamma_value_2:
  assumes v: "(v::64 word) < 2 ^ 14"
  defines "b \<equiv> (ucast (0x80 OR drop_bit 8 v) :: byte)"
  shows "bit b 7" and "\<not> bit b 6"
    and "ucast (push_bit 8 (ucast b AND NOT 0x80) OR (ucast (ucast v :: byte) :: 32 word)) = v"
proof -
  have hb: "\<And>n. bit v n \<Longrightarrow> n < 14" by (rule hi_bits[OF v])
  show "bit b 7" unfolding b_def by (simp only: bit_simps gamma_bits) auto
  show "\<not> bit b 6" unfolding b_def using hb[of 14] by (simp only: bit_simps gamma_bits) auto
  show "ucast (push_bit 8 (ucast b AND NOT 0x80) OR (ucast (ucast v :: byte) :: 32 word)) = v"
  proof (rule bit_eqI)
    fix n
    show "bit (ucast (push_bit 8 (ucast b AND NOT 0x80) OR (ucast (ucast v :: byte) :: 32 word)) :: 64 word) n = bit v n"
      unfolding b_def
      apply (simp only: bit_simps gamma_bits)
      apply (cases "bit v n")
      using hb[of n] apply auto
      done
  qed
qed

lemma gamma_value_3:
  assumes v: "(v::64 word) < 2 ^ 21"
  defines "b \<equiv> (ucast (0xC0 OR drop_bit 16 v) :: byte)"
  shows "bit b 7" and "bit b 6" and "\<not> bit b 5"
    and "ucast (push_bit 8 (push_bit 8 ((ucast b AND NOT 0x80) AND NOT 0x40) OR ucast (ucast (drop_bit 8 v) :: byte))
           OR (ucast (ucast v :: byte) :: 32 word)) = v"
proof -
  have hb: "\<And>n. bit v n \<Longrightarrow> n < 21" by (rule hi_bits[OF v])
  show "bit b 7" unfolding b_def by (simp only: bit_simps gamma_bits) auto
  show "bit b 6" unfolding b_def by (simp only: bit_simps gamma_bits) auto
  show "\<not> bit b 5" unfolding b_def using hb[of 21] by (simp only: bit_simps gamma_bits) auto
  show "ucast (push_bit 8 (push_bit 8 ((ucast b AND NOT 0x80) AND NOT 0x40) OR ucast (ucast (drop_bit 8 v) :: byte))
           OR (ucast (ucast v :: byte) :: 32 word)) = v"
  proof (rule bit_eqI)
    fix n
    show "bit (ucast (push_bit 8 (push_bit 8 ((ucast b AND NOT 0x80) AND NOT 0x40) OR ucast (ucast (drop_bit 8 v) :: byte))
           OR (ucast (ucast v :: byte) :: 32 word)) :: 64 word) n = bit v n"
      unfolding b_def
      apply (simp only: bit_simps gamma_bits)
      apply (cases "bit v n")
      using hb[of n] apply auto
      done
  qed
qed

lemma gamma_value_4:
  assumes v: "(v::64 word) < 2 ^ 28"
  defines "b \<equiv> (ucast (0xE0 OR drop_bit 24 v) :: byte)"
  shows "bit b 7" and "bit b 6" and "bit b 5" and "\<not> bit b 4"
    and "ucast (push_bit 8 (push_bit 8 (push_bit 8 (((ucast b AND NOT 0x80) AND NOT 0x40) AND NOT 0x20)
             OR ucast (ucast (drop_bit 16 v) :: byte)) OR ucast (ucast (drop_bit 8 v) :: byte))
           OR (ucast (ucast v :: byte) :: 32 word)) = v"
proof -
  have hb: "\<And>n. bit v n \<Longrightarrow> n < 28" by (rule hi_bits[OF v])
  show "bit b 7" unfolding b_def by (simp only: bit_simps gamma_bits) auto
  show "bit b 6" unfolding b_def by (simp only: bit_simps gamma_bits) auto
  show "bit b 5" unfolding b_def by (simp only: bit_simps gamma_bits) auto
  show "\<not> bit b 4" unfolding b_def using hb[of 28] by (simp only: bit_simps gamma_bits) auto
  show "ucast (push_bit 8 (push_bit 8 (push_bit 8 (((ucast b AND NOT 0x80) AND NOT 0x40) AND NOT 0x20)
             OR ucast (ucast (drop_bit 16 v) :: byte)) OR ucast (ucast (drop_bit 8 v) :: byte))
           OR (ucast (ucast v :: byte) :: 32 word)) = v"
  proof (rule bit_eqI)
    fix n
    show "bit (ucast (push_bit 8 (push_bit 8 (push_bit 8 (((ucast b AND NOT 0x80) AND NOT 0x40) AND NOT 0x20)
             OR ucast (ucast (drop_bit 16 v) :: byte)) OR ucast (ucast (drop_bit 8 v) :: byte))
           OR (ucast (ucast v :: byte) :: 32 word)) :: 64 word) n = bit v n"
      unfolding b_def
      apply (simp only: bit_simps gamma_bits)
      apply (cases "bit v n")
      using hb[of n] apply auto
      done
  qed
qed

lemma high_nibble_bits:
  assumes "0xF0 \<le> (b::8 word)"
  shows "bit b 7 \<and> bit b 6 \<and> bit b 5 \<and> bit b 4"
proof -
  have "unat b < 256" using unsigned_less[of b, where 'a=nat] by simp
  moreover have "240 \<le> unat b" using assms by (simp add: word_le_nat_alt)
  ultimately have "unat b = 240 \<or> unat b = 241 \<or> unat b = 242 \<or> unat b = 243 \<or>
    unat b = 244 \<or> unat b = 245 \<or> unat b = 246 \<or> unat b = 247 \<or> unat b = 248 \<or>
    unat b = 249 \<or> unat b = 250 \<or> unat b = 251 \<or> unat b = 252 \<or> unat b = 253 \<or>
    unat b = 254 \<or> unat b = 255"
    by arith
  moreover have "b = word_of_nat (unat b)" by simp
  ultimately have "b \<in> {240,241,242,243,244,245,246,247,248,249,250,251,252,253,254,255}"
    by (metis insertCI of_nat_numeral)
  then show ?thesis by auto
qed

lemma gamma_roundtrip_small:
  assumes v: "(v::64 word) < 2 ^ 28"
  shows "\<exists>bs i. WriteGamma d v = Inr (d @ bs) \<and> 1 \<le> length bs \<and> length bs \<le> 4
           \<and> ReadGamma (bs @ rest) = Inr (i, rest) \<and> ucast i = v"
proof -
  consider (one) "v < 2 ^ 7" | (two) "2 ^ 7 \<le> v" "v < 2 ^ 14"
    | (three) "2 ^ 14 \<le> v" "v < 2 ^ 21" | (four) "2 ^ 21 \<le> v"
    by (meson not_le)
  then show ?thesis
  proof cases
    case one
    show ?thesis
      using WriteGamma_1[OF one, of d] gamma_value_1[OF one]
      by (simp add: ReadGamma_1)
  next
    case two
    show ?thesis
      using WriteGamma_2[OF two, of d] gamma_value_2[OF two(2)]
      by (simp add: ReadGamma_2)
  next
    case three
    show ?thesis
      using WriteGamma_3[OF three, of d] gamma_value_3[OF three(2)]
      by (simp add: ReadGamma_3)
  next
    case four
    show ?thesis
      using WriteGamma_4[OF four v, of d] gamma_value_4[OF v]
      by (simp add: ReadGamma_4)
  qed
qed

text \<open>
  C2. For every value \<open>v\<close> below \<open>2^28\<close>, \<open>WriteGamma\<close> appends between one and
  four bytes to the dump, and \<open>ReadGamma\<close> on these bytes (followed by any further
  bytes \<open>rest\<close>) returns exactly \<open>v\<close> and leaves \<open>rest\<close> unread. Encoding a value of
  \<open>2^28\<close> or more fails its assertion (the unsupported-value fault). Decoding a stream
  whose first byte is in \<open>0xF0..0xFF\<close> raises
  \<open>SlErrorCorrupt("Unsupported gamma")\<close>.
\<close>

theorem ReadGamma_WriteGamma:
  "(v < 2 ^ 28 \<longrightarrow>
      (\<exists>bs i. WriteGamma d v = Inr (d @ bs) \<and> 1 \<le> length bs \<and> length bs \<le> 4
         \<and> ReadGamma (bs @ rest) = Inr (i, rest) \<and> ucast i = v))
   \<and> (2 ^ 28 \<le> w \<longrightarrow> WriteGamma d w = Inl AssertionFailure)
   \<and> (0xF0 \<le> b \<longrightarrow> ReadGamma (b # rest) = Inl (SlErrorCorrupt ''Unsupported gamma''))"
  using gamma_roundtrip_small[of v d rest] WriteGamma_unsupported[of w d]
    high_nibble_bits[of b] ReadGamma_unsupported[of b rest]
  by blast

theorem ReadGamma_WriteGamma_witness:
  "(0xFFFFFFF :: 64 word) < 2 ^ 28
   \<and> (\<exists>bs i. WriteGamma [] 0xFFFFFFF = Inr ([] @ bs) \<and> 1 \<le> length bs \<and> length bs \<le> 4
         \<and> ReadGamma (bs @ [7]) = Inr (i, [7]) \<and> ucast i = (0xFFFFFFF :: 64 word))
   \<and> WriteGamma [] 0xFFFFFFF = Inr [0xEF, 0xFF, 0xFF, 0xFF]
   \<and> ReadGamma [0xEF, 0xFF, 0xFF, 0xFF, 7] = Inr (0xFFFFFFF, [7])
   \<and> (2 ^ 28 :: 64 word) \<le> 0x10000000
   \<and> WriteGamma [] 0x10000000 = Inl AssertionFailure
   \<and> (0xF0 :: byte) \<le> 0xF5
   \<and> ReadGamma [0xF5, 7] = Inl (SlErrorCorrupt ''Unsupported gamma'')"
  using ReadGamma_WriteGamma[of "0xFFFFFFF" "[]" "[7]" "0x10000000" "0xF5"]
  by (simp add: WriteGamma_def WriteByte_def ReadGamma_def ReadGamma_shift_in_def
      and_then_def HasBit_def)

section \<open>Facts about the packet\<close>

lemma and_then_Inr [simp]: "and_then (Inr x) f = f x"
  by (simp add: and_then_def)
lemma and_then_Inl [simp]: "and_then (Inl e) f = Inl e"
  by (simp add: and_then_def)

lemma size_t_add_mod: "size_t_add a b = (a + b) mod 2 ^ 64"
  by (simp add: size_t_add_def unat_word_ariths unat_of_nat mod_add_eq)

lemma size_t_add_le: "size_t_add a b \<le> a + b"
  by (simp add: size_t_add_mod)

lemma size_t_add_eq: "a + b < 2 ^ 64 \<Longrightarrow> size_t_add a b = a + b"
  by (simp add: size_t_add_mod)

lemma Packet_outgoing_eq:
  "Packet_outgoing type lim =
     (if 3 < lim then Inr \<lparr>pos = 0, buffer = [0, 0, type], limit = lim, cs = None\<rparr>
      else Inl AssertionFailure)"
  by (auto simp add: Packet_outgoing_def ResetState_def Send_uint16_def Send_uint8_def
      CanWriteToPacket_def size_t_add_mod Size_def GB_def)

lemma raw_size_value: "unat (b0::byte) + unat (push_bit 8 (ucast (b1::byte) :: 64 word)) = unat b0 + 256 * unat b1"
proof -
  have "unat (push_bit 8 (ucast b1 :: 64 word)) = 256 * unat b1"
    using unsigned_less[of b1, where 'a=nat]
    by (simp add: push_bit_eq_mult unat_word_ariths unsigned_ucast_eq take_bit_nat_eq_self)
  then show ?thesis by simp
qed

lemma length_resize [simp]: "length (resize xs n) = n"
  by (simp add: resize_def)

lemma CanReadFromPacket_passes:
  assumes "cs p = Some h" and "\<not> (has_quit h \<or> Size p < size_t_add (pos p) n)"
  shows "CanReadFromPacket p n c = Inr (True, p)"
  using assms by (simp add: CanReadFromPacket_def HasClientQuit_def)

lemma CanReadFromPacket_fails:
  assumes "cs p = Some h" and "has_quit h \<or> Size p < size_t_add (pos p) n"
  shows "CanReadFromPacket p n True = Inr (False, p\<lparr>cs := Some (h\<lparr>has_quit := True\<rparr>)\<rparr>)"
proof (cases "has_quit h")
  case True
  then have "h\<lparr>has_quit := True\<rparr> = h" by simp
  then have "p\<lparr>cs := Some (h\<lparr>has_quit := True\<rparr>)\<rparr> = p" using assms(1) by simp
  then show ?thesis using True assms(1)
    by (simp add: CanReadFromPacket_def HasClientQuit_def)
next
  case False
  then show ?thesis using assms
    by (simp add: CanReadFromPacket_def HasClientQuit_def NetworkSocketHandler_CloseConnection_def)
qed

lemma CanReadFromPacket_succeeds:
  assumes "cs p = Some h" and "\<not> has_quit h" and "pos p + n \<le> Size p"
  shows "CanReadFromPacket p n c = Inr (True, p)"
  using assms size_t_add_le[of "pos p" n]
  by (simp add: CanReadFromPacket_def HasClientQuit_def)

lemma Send_string_loop_eq: "Send_string_loop buf data = buf @ takeWhile (\<lambda>c. c \<noteq> 0) data @ [0]"
  by (induction data arbitrary: buf) auto

lemma strlen_eq: "strlen data = length (takeWhile (\<lambda>c. c \<noteq> 0) data)"
  by (induction data) auto

text \<open>every send appends to the buffer and leaves the other fields alone\<close>

lemma do_send_appends:
  assumes "do_send p c = Inr p'"
  shows "\<exists>bs. buffer p' = buffer p @ bs" and "cs p' = cs p" and "pos p' = pos p" and "limit p' = limit p"
  using assms
  by (cases c; auto simp add: Send_bool_def Send_uint8_def Send_uint16_def Send_uint32_def
      Send_uint64_def Send_string_def Send_bytes_def Send_binary_def Send_string_loop_eq Let_def
      split: if_splits)+

lemma do_sends_appends:
  assumes "do_sends p calls = Inr p'"
  shows "(\<exists>bs. buffer p' = buffer p @ bs) \<and> cs p' = cs p \<and> pos p' = pos p \<and> limit p' = limit p"
  using assms
proof (induction calls arbitrary: p)
  case Nil
  then show ?case by simp
next
  case (Cons c calls)
  from Cons.prems obtain q where q: "do_send p c = Inr q" and rest: "do_sends q calls = Inr p'"
    by (cases "do_send p c") auto
  from Cons.IH[OF rest] do_send_appends[OF q] show ?case by auto
qed

lemma ReadRawPacketSize_eq:
  "2 \<le> length (buffer p) \<Longrightarrow>
     ReadRawPacketSize p = Inr (unat (buffer p ! 0) + 256 * unat (buffer p ! 1))"
  by (auto simp add: ReadRawPacketSize_def peek_def raw_size_value)


lemma ucast_GB_byte: "(ucast (GB (w::'a::len word) s 8) :: byte) = ucast (drop_bit s w)"
  unfolding GB_def
  by (rule bit_eqI) (auto simp add: bit_simps dest: bit_imp_le_length)

lemma unat_ucast_byte: "unat (ucast (w::'a::len word) :: byte) = unat w mod 256"
  by (simp add: unsigned_ucast_eq take_bit_eq_mod)

lemma GB_low_byte: "unat (ucast (GB (word_of_nat n :: 64 word) 0 8) :: byte) = n mod 256"
proof -
  have "unat (word_of_nat n :: 64 word) = n mod 2 ^ 64" by (simp add: unsigned_of_nat take_bit_eq_mod)
  moreover have "n mod 2 ^ 64 mod 256 = n mod 256"
    by (rule mod_mod_cancel) simp
  ultimately show ?thesis by (simp add: ucast_GB_byte unat_ucast_byte)
qed

lemma GB_high_byte: "unat (ucast (GB (word_of_nat n :: 64 word) 8 8) :: byte) = n div 256 mod 256"
proof -
  have "unat (drop_bit 8 (word_of_nat n :: 64 word)) = n mod 2 ^ 64 div 256"
    by (simp add: unat_div unsigned_of_nat take_bit_eq_mod drop_bit_eq_div)
  moreover have "n mod 2 ^ 64 div 256 mod 256 = n div 256 mod 256"
  proof -
    have "n mod 2 ^ 64 div 256 = (n div 256) mod 2 ^ 56"
      using drop_bit_take_bit[of 8 64 n] by (simp add: take_bit_eq_mod drop_bit_eq_div)
    moreover have "(n div 256) mod 2 ^ 56 mod 256 = n div 256 mod 256"
      by (rule mod_mod_cancel) simp
    ultimately show ?thesis by simp
  qed
  ultimately show ?thesis by (simp add: ucast_GB_byte unat_ucast_byte)
qed


lemma PrepareToSend_eq:
  assumes "cs p = None" and "2 \<le> Size p"
  shows "PrepareToSend p = Inr (p\<lparr>buffer := (buffer p)[0 := ucast (GB (word_of_nat (Size p) :: 64 word) 0 8),
              1 := ucast (GB (word_of_nat (Size p) :: 64 word) 8 8)], pos := 0\<rparr>)"
  using assms by (auto simp add: PrepareToSend_def poke_def Size_def)

lemma PrepareToSend_size:
  assumes "cs p = None" and "2 \<le> Size p"
  shows "\<exists>p'. PrepareToSend p = Inr p' \<and> Size p' = Size p \<and> pos p' = 0
            \<and> ReadRawPacketSize p' = Inr (Size p mod 65536)
            \<and> drop 2 (buffer p') = drop 2 (buffer p)"
proof -
  from assms(2) obtain x y zs where xs: "buffer p = x # y # zs"
    by (cases "buffer p"; cases "tl (buffer p)"; auto simp add: Size_def)
  have "Size p mod (256 * 256) = 256 * (Size p div 256 mod 256) + Size p mod 256"
    by (rule mod_mult2_eq)
  then have m: "Size p mod 256 + 256 * (Size p div 256 mod 256) = Size p mod 65536"
    by simp
  define p' where "p' = p\<lparr>buffer := ucast (GB (word_of_nat (Size p) :: 64 word) 0 8)
      # ucast (GB (word_of_nat (Size p) :: 64 word) 8 8) # zs, pos := 0\<rparr>"
  have "PrepareToSend p = Inr p'"
    using assms(1) xs by (simp add: PrepareToSend_def poke_def p'_def)
  moreover have "Size p' = Size p" by (simp add: p'_def Size_def xs)
  moreover have "ReadRawPacketSize p' = Inr (Size p mod 65536)"
    using m by (simp add: ReadRawPacketSize_def peek_def raw_size_value p'_def
        GB_low_byte GB_high_byte)
  moreover have "drop 2 (buffer p') = drop 2 (buffer p)" by (simp add: p'_def xs)
  moreover have "pos p' = 0" by (simp add: p'_def)
  ultimately show ?thesis by blast
qed

lemma Packet_outgoing_Inr:
  assumes "Packet_outgoing type lim = Inr p0"
  shows "buffer p0 = [0, 0, type]" and "cs p0 = None" and "pos p0 = 0" and "limit p0 = lim"
  using assms by (auto simp add: Packet_outgoing_eq split: if_splits)

subsection \<open>Writing up to the limit\<close>

text \<open>
  C5. \<open>CanWriteToPacket(n)\<close> is \<open>Size() + n < limit\<close>, with a strict comparison: a
  write that would bring the packet to exactly \<open>limit\<close> bytes fails its assertion. At
  the packet \<open>Packet(1, 4)\<close>, which holds 3 bytes, \<open>Send_uint8(7)\<close> would give a total
  of 4 bytes, not more than the limit, yet \<open>CanWriteToPacket(1)\<close> is false and the
  assertion fails; \<open>Send_bytes\<close> on the same packet does fill it to exactly 4 bytes.
\<close>

theorem CanWriteToPacket_at_limit:
  "Packet_outgoing 1 4 = Inr \<lparr>pos = 0, buffer = [0, 0, 1], limit = 4, cs = None\<rparr>
   \<and> Size \<lparr>pos = 0, buffer = [0, 0, 1], limit = 4, cs = None\<rparr> + 1
       \<le> limit \<lparr>pos = 0, buffer = [0, 0, 1], limit = 4, cs = None\<rparr>
   \<and> \<not> CanWriteToPacket \<lparr>pos = 0, buffer = [0, 0, 1], limit = 4, cs = None\<rparr> 1
   \<and> Send_uint8 \<lparr>pos = 0, buffer = [0, 0, 1], limit = 4, cs = None\<rparr> 7 = Inl AssertionFailure
   \<and> Send_bytes \<lparr>pos = 0, buffer = [0, 0, 1], limit = 4, cs = None\<rparr> [7]
       = (1, \<lparr>pos = 0, buffer = [0, 0, 1, 7], limit = 4, cs = None\<rparr>)"
  by (simp add: Packet_outgoing_eq Send_uint8_def Send_bytes_def CanWriteToPacket_def size_t_add_mod Size_def
      size_t_sub_def)

subsection \<open>The declared size\<close>

text \<open>
  C6, as stated, at an incoming packet whose first two bytes declare the length 5 with
  limit 100: \<open>ParsePacketSize\<close> succeeds and resizes the storage to 5 bytes, but
  the cursor is at offset 2 (\<open>sizeof(PacketSize)\<close>, just past the length field), not 3.
\<close>

theorem ParsePacketSize_cursor_counterexample:
  "ParsePacketSize \<lparr>pos = 0, buffer = [5, 0], limit = 100, cs = Some \<lparr>has_quit = False\<rparr>\<rparr>
     = Inr (True, \<lparr>pos = 2, buffer = [5, 0, 0, 0, 0], limit = 100, cs = Some \<lparr>has_quit = False\<rparr>\<rparr>)
   \<and> pos \<lparr>pos = 2, buffer = [5, 0, 0, 0, 0], limit = 100, cs = Some \<lparr>has_quit = False\<rparr>\<rparr> \<noteq> 3"
  by code_simp

text \<open>
  C6, amended. For every incoming packet that holds at least its two length bytes,
  decoding little-endian to \<open>L\<close>: \<open>ParsePacketSize\<close> returns true if and only if
  \<open>3 \<le> L \<le> limit\<close>; on success the storage is resized to exactly \<open>L\<close> bytes and the
  cursor is set to offset 2, just past the 2-byte length field (the type byte is still
  to be read); on failure it returns false and leaves the packet unchanged.
\<close>

theorem ParsePacketSize_spec:
  assumes "cs p \<noteq> None" and "2 \<le> Size p"
  shows "let L = unat (buffer p ! 0) + 256 * unat (buffer p ! 1);
             p' = p\<lparr>buffer := resize (buffer p) L, pos := 2\<rparr>
         in ParsePacketSize p = (if 3 \<le> L \<and> L \<le> limit p then Inr (True, p') else Inr (False, p))
            \<and> Size p' = L \<and> pos p' = 2"
  using assms
  by (auto simp add: ParsePacketSize_def peek_def Size_def raw_size_value Let_def
      sizeof_PacketSize_def sizeof_PacketType_def)

theorem ParsePacketSize_spec_witness:
  "cs \<lparr>pos = 0, buffer = [5, 0], limit = 100, cs = Some \<lparr>has_quit = False\<rparr>\<rparr> \<noteq> None
   \<and> 2 \<le> Size \<lparr>pos = 0, buffer = [5, 0], limit = 100, cs = Some \<lparr>has_quit = False\<rparr>\<rparr>
   \<and> ParsePacketSize \<lparr>pos = 0, buffer = [5, 0], limit = 100, cs = Some \<lparr>has_quit = False\<rparr>\<rparr>
       = Inr (True, \<lparr>pos = 2, buffer = resize [5, 0] 5, limit = 100, cs = Some \<lparr>has_quit = False\<rparr>\<rparr>)
   \<and> ParsePacketSize \<lparr>pos = 0, buffer = [2, 0], limit = 100, cs = Some \<lparr>has_quit = False\<rparr>\<rparr>
       = Inr (False, \<lparr>pos = 0, buffer = [2, 0], limit = 100, cs = Some \<lparr>has_quit = False\<rparr>\<rparr>)
   \<and> ParsePacketSize \<lparr>pos = 0, buffer = [101, 0], limit = 100, cs = Some \<lparr>has_quit = False\<rparr>\<rparr>
       = Inr (False, \<lparr>pos = 0, buffer = [101, 0], limit = 100, cs = Some \<lparr>has_quit = False\<rparr>\<rparr>)"
  using ParsePacketSize_spec[of "\<lparr>pos = 0, buffer = [5, 0], limit = 100, cs = Some \<lparr>has_quit = False\<rparr>\<rparr>"]
    ParsePacketSize_spec[of "\<lparr>pos = 0, buffer = [2, 0], limit = 100, cs = Some \<lparr>has_quit = False\<rparr>\<rparr>"]
    ParsePacketSize_spec[of "\<lparr>pos = 0, buffer = [101, 0], limit = 100, cs = Some \<lparr>has_quit = False\<rparr>\<rparr>"]
  by (simp add: Size_def Let_def)

subsection \<open>Reads that fail their bounds check\<close>

text \<open>
  C10. For every packet attached to a socket handler \<open>h\<close> and every fixed-width read
  (\<open>Recv_bool\<close>, \<open>Recv_uint8/16/32/64\<close>, both \<open>Recv_binary\<close>): the bounds check
  \<open>CanReadFromPacket\<close> fails exactly when the connection has already quit or the cursor
  plus the requested width, added as \<open>size_t\<close> values, exceeds \<open>Size()\<close>; where the sum
  is below \<open>2^64\<close> that is the plain sum. When the check fails, the read returns its
  default (false, 0, or the destination as it was) and the packet keeps its buffer,
  cursor and limit; the only effect is that the connection is marked as quit.
\<close>

theorem Recv_failure_all_or_nothing:
  assumes "cs p = Some h"
  shows "let p' = p\<lparr>cs := Some (h\<lparr>has_quit := True\<rparr>)\<rparr>;
             fails = (\<lambda>n. has_quit h \<or> Size p < size_t_add (pos p) n) in
      buffer p' = buffer p \<and> pos p' = pos p \<and> limit p' = limit p
    \<and> CanReadFromPacket p n True = (if fails n then Inr (False, p') else Inr (True, p))
    \<and> (pos p + n < 2 ^ 64 \<longrightarrow> fails n = (has_quit h \<or> Size p < pos p + n))
    \<and> (fails 1 \<longrightarrow> Recv_bool p = Inr (False, p') \<and> Recv_uint8 p = Inr (0, p'))
    \<and> (fails 2 \<longrightarrow> Recv_uint16 p = Inr (0, p'))
    \<and> (fails 4 \<longrightarrow> Recv_uint32 p = Inr (0, p'))
    \<and> (fails 8 \<longrightarrow> Recv_uint64 p = Inr (0, p'))
    \<and> (fails n \<longrightarrow>
          Recv_binary p dest n = Inr (dest, p') \<and> Recv_binary_std p dest n = Inr (dest, p'))"
  using CanReadFromPacket_fails[OF assms] CanReadFromPacket_passes[OF assms, of n True]
    size_t_add_eq[of "pos p" n]
  by (simp add: Let_def Recv_bool_def Recv_uint8_def Recv_uint16_def Recv_uint32_def
      Recv_uint64_def Recv_binary_def Recv_binary_std_def)

theorem Recv_failure_all_or_nothing_witness:
  "cs \<lparr>pos = 3, buffer = [5, 0, 1, 9, 9], limit = 100, cs = Some \<lparr>has_quit = False\<rparr>\<rparr>
      = Some \<lparr>has_quit = False\<rparr>
   \<and> Size \<lparr>pos = 3, buffer = [5, 0, 1, 9, 9], limit = 100, cs = Some \<lparr>has_quit = False\<rparr>\<rparr> < size_t_add 3 4
   \<and> Size \<lparr>pos = 3, buffer = [5, 0, 1, 9, 9], limit = 100, cs = Some \<lparr>has_quit = False\<rparr>\<rparr> < size_t_add 3 3
   \<and> Recv_uint32 \<lparr>pos = 3, buffer = [5, 0, 1, 9, 9], limit = 100, cs = Some \<lparr>has_quit = False\<rparr>\<rparr>
      = Inr (0, \<lparr>pos = 3, buffer = [5, 0, 1, 9, 9], limit = 100, cs = Some \<lparr>has_quit = True\<rparr>\<rparr>)
   \<and> Recv_uint64 \<lparr>pos = 3, buffer = [5, 0, 1, 9, 9], limit = 100, cs = Some \<lparr>has_quit = False\<rparr>\<rparr>
      = Inr (0, \<lparr>pos = 3, buffer = [5, 0, 1, 9, 9], limit = 100, cs = Some \<lparr>has_quit = True\<rparr>\<rparr>)
   \<and> Recv_binary \<lparr>pos = 3, buffer = [5, 0, 1, 9, 9], limit = 100, cs = Some \<lparr>has_quit = False\<rparr>\<rparr> [7, 7, 7] 3
      = Inr ([7, 7, 7], \<lparr>pos = 3, buffer = [5, 0, 1, 9, 9], limit = 100, cs = Some \<lparr>has_quit = True\<rparr>\<rparr>)
   \<and> Recv_uint8 \<lparr>pos = 3, buffer = [5, 0, 1, 9, 9], limit = 100, cs = Some \<lparr>has_quit = True\<rparr>\<rparr>
      = Inr (0, \<lparr>pos = 3, buffer = [5, 0, 1, 9, 9], limit = 100, cs = Some \<lparr>has_quit = True\<rparr>\<rparr>)"
  using Recv_failure_all_or_nothing[of "\<lparr>pos = 3, buffer = [5, 0, 1, 9, 9], limit = 100, cs = Some \<lparr>has_quit = False\<rparr>\<rparr>"
        "\<lparr>has_quit = False\<rparr>" 3 "[7, 7, 7]"]
    Recv_failure_all_or_nothing[of "\<lparr>pos = 3, buffer = [5, 0, 1, 9, 9], limit = 100, cs = Some \<lparr>has_quit = True\<rparr>\<rparr>"
        "\<lparr>has_quit = True\<rparr>" 3 "[7, 7, 7]"]
  by (simp add: Size_def Let_def size_t_add_mod)

subsection \<open>The length prefix\<close>

text \<open>
  C8, as stated, at a packet of more than 65535 bytes: \<open>Packet(1, 70000)\<close> followed by
  \<open>Send_binary\<close> of 65533 bytes holds 65536 bytes; after \<open>PrepareToSend\<close> the first two
  bytes decode to 0, the low 16 bits of the size, not to the size.
\<close>

theorem PrepareToSend_length_prefix_counterexample:
  "and_then (Packet_outgoing 1 70000) (\<lambda>p0.
   and_then (Send_binary p0 (replicate 65533 0) 65533) (\<lambda>p.
   and_then (PrepareToSend p) (\<lambda>p'.
   and_then (ReadRawPacketSize p') (\<lambda>n. Inr (n, Size p')))))
   = Inr (0, 65536)"
proof -
  define p where "p = \<lparr>pos = 0, buffer = [0, 0, 1] @ replicate 65533 (0::byte), limit = 70000, cs = None\<rparr>"
  have sz: "Size p = 65536" by (simp add: p_def Size_def)
  have "cs p = None" and "2 \<le> Size p" by (simp_all add: p_def Size_def)
  from PrepareToSend_size[OF this] obtain p' where
    "PrepareToSend p = Inr p'" "Size p' = 65536" "ReadRawPacketSize p' = Inr 0"
    by (auto simp add: sz)
  moreover have "and_then (Packet_outgoing 1 70000) (\<lambda>p0. Send_binary p0 (replicate 65533 0) 65533) = Inr p"
    by (simp add: Packet_outgoing_eq Send_binary_def CanWriteToPacket_def size_t_add_mod Size_def p_def)
  ultimately show ?thesis
    by (simp add: Packet_outgoing_eq split: if_splits)
qed

text \<open>
  C8, amended. For every packet built by the constructor and any sequence of successful
  \<open>Send_*\<close> calls whose total size fits the 16-bit length field (at most 65535 bytes):
  \<open>PrepareToSend\<close> succeeds, afterwards the first two bytes decoded as a little-endian
  uint16 equal the total size, the size is unchanged and at least 3, and the cursor is 0.
\<close>

theorem PrepareToSend_length_prefix:
  assumes "Packet_outgoing type lim = Inr p0" and "do_sends p0 calls = Inr p"
    and "Size p \<le> 65535"
  shows "\<exists>p'. PrepareToSend p = Inr p' \<and> ReadRawPacketSize p' = Inr (Size p')
            \<and> Size p' = Size p \<and> 3 \<le> Size p' \<and> pos p' = 0"
proof -
  from do_sends_appends[OF assms(2)] Packet_outgoing_Inr[OF assms(1)]
  obtain bs where "buffer p = [0, 0, type] @ bs" and c: "cs p = None" by auto
  then have s: "3 \<le> Size p" by (simp add: Size_def)
  then have "2 \<le> Size p" by simp
  from PrepareToSend_size[OF c this] s assms(3) show ?thesis by auto
qed

theorem PrepareToSend_length_prefix_witness:
  "Packet_outgoing 5 1460 = Inr \<lparr>pos = 0, buffer = [0, 0, 5], limit = 1460, cs = None\<rparr>
   \<and> do_sends \<lparr>pos = 0, buffer = [0, 0, 5], limit = 1460, cs = None\<rparr>
        [Call_Send_uint16 0x1234, Call_Send_string [0x41, 0x42], Call_Send_bool True]
       = Inr \<lparr>pos = 0, buffer = [0, 0, 5, 0x34, 0x12, 0x41, 0x42, 0, 1], limit = 1460, cs = None\<rparr>
   \<and> Size \<lparr>pos = 0, buffer = [0, 0, 5, 0x34, 0x12, 0x41, 0x42, 0, 1], limit = 1460, cs = None\<rparr> \<le> 65535
   \<and> (\<exists>p'. PrepareToSend \<lparr>pos = 0, buffer = [0, 0, 5, 0x34, 0x12, 0x41, 0x42, 0, 1], limit = 1460, cs = None\<rparr> = Inr p'
         \<and> ReadRawPacketSize p' = Inr (Size p')
         \<and> Size p' = Size \<lparr>pos = 0, buffer = [0, 0, 5, 0x34, 0x12, 0x41, 0x42, 0, 1], limit = 1460, cs = None\<rparr>
         \<and> 3 \<le> Size p' \<and> pos p' = 0)
   \<and> PrepareToSend \<lparr>pos = 0, buffer = [0, 0, 5, 0x34, 0x12, 0x41, 0x42, 0, 1], limit = 1460, cs = None\<rparr>
       = Inr \<lparr>pos = 0, buffer = [9, 0, 5, 0x34, 0x12, 0x41, 0x42, 0, 1], limit = 1460, cs = None\<rparr>"
proof -
  have a: "Packet_outgoing 5 1460 = Inr \<lparr>pos = 0, buffer = [0, 0, 5], limit = 1460, cs = None\<rparr>"
    by code_simp
  have b: "do_sends \<lparr>pos = 0, buffer = [0, 0, 5], limit = 1460, cs = None\<rparr>
        [Call_Send_uint16 0x1234, Call_Send_string [0x41, 0x42], Call_Send_bool True]
       = Inr \<lparr>pos = 0, buffer = [0, 0, 5, 0x34, 0x12, 0x41, 0x42, 0, 1], limit = 1460, cs = None\<rparr>"
    by code_simp
  have c: "Size \<lparr>pos = 0, buffer = [0, 0, 5, 0x34, 0x12, 0x41, 0x42, 0, 1], limit = 1460, cs = None\<rparr> \<le> 65535"
    by (simp add: Size_def)
  have d: "PrepareToSend \<lparr>pos = 0, buffer = [0, 0, 5, 0x34, 0x12, 0x41, 0x42, 0, 1], limit = 1460, cs = None\<rparr>
       = Inr \<lparr>pos = 0, buffer = [9, 0, 5, 0x34, 0x12, 0x41, 0x42, 0, 1], limit = 1460, cs = None\<rparr>"
    by code_simp
  from PrepareToSend_length_prefix[OF a b c] a b c d show ?thesis by blast
qed

section \<open>Facts about writing and reading back\<close>

lemma add_byte_disjoint:
  fixes acc :: "'a::len word"
  assumes "\<And>n. bit acc n \<Longrightarrow> n < k"
  shows "acc + push_bit k (ucast (b::byte)) = acc OR push_bit k (ucast b)"
proof (rule disjunctive_add)
  fix n
  show "\<not> bit acc n \<or> \<not> bit (push_bit k (ucast b :: 'a word)) n"
    using assms[of n] by (auto simp add: bit_simps)
qed

lemma bit_ucast_byte_bound: "bit (ucast (b::byte) :: 'a::len word) n \<Longrightarrow> n < 8"
  by (auto simp add: bit_simps dest: bit_imp_le_length)

lemma bit_or_byte_bound:
  fixes acc :: "'a::len word"
  assumes "\<And>n. bit acc n \<Longrightarrow> n < k" and "bit (acc OR push_bit k (ucast (b::byte))) n"
  shows "n < k + 8"
  using assms(2) assms(1)[of n] by (auto simp add: bit_simps dest: bit_imp_le_length)

lemma le16:
  "(ucast (b0::byte) :: 16 word) + push_bit 8 (ucast (b1::byte))
     = ucast b0 OR push_bit 8 (ucast b1)"
  by (rule add_byte_disjoint) (rule bit_ucast_byte_bound)

lemma le32:
  "(ucast (b0::byte) :: 32 word) + push_bit 8 (ucast (b1::byte)) + push_bit 16 (ucast (b2::byte)) + push_bit 24 (ucast (b3::byte))
     = ((ucast b0 OR push_bit 8 (ucast b1)) OR push_bit 16 (ucast b2)) OR push_bit 24 (ucast b3)"
proof -
  have s1: "(ucast b0 :: 32 word) + push_bit 8 (ucast b1) = (ucast b0 :: 32 word) OR push_bit 8 (ucast b1)"
    by (rule add_byte_disjoint) (rule bit_ucast_byte_bound)
  have b1: "\<And>n. bit ((ucast b0 :: 32 word) OR push_bit 8 (ucast b1)) n \<Longrightarrow> n < 16"
    using bit_or_byte_bound[of "(ucast b0 :: 32 word)" 8 b1] bit_ucast_byte_bound by fastforce
  have s2: "((ucast b0 :: 32 word) OR push_bit 8 (ucast b1)) + push_bit 16 (ucast b2) = ((ucast b0 :: 32 word) OR push_bit 8 (ucast b1)) OR push_bit 16 (ucast b2)"
    by (rule add_byte_disjoint) (rule b1)
  have b2: "\<And>n. bit (((ucast b0 :: 32 word) OR push_bit 8 (ucast b1)) OR push_bit 16 (ucast b2)) n \<Longrightarrow> n < 24"
    using bit_or_byte_bound[of "((ucast b0 :: 32 word) OR push_bit 8 (ucast b1))" 16 b2] b1 by fastforce
  have s3: "(((ucast b0 :: 32 word) OR push_bit 8 (ucast b1)) OR push_bit 16 (ucast b2)) + push_bit 24 (ucast b3) = (((ucast b0 :: 32 word) OR push_bit 8 (ucast b1)) OR push_bit 16 (ucast b2)) OR push_bit 24 (ucast b3)"
    by (rule add_byte_disjoint) (rule b2)
  show ?thesis by (simp only: s1 s2 s3)
qed

lemma le64:
  "(ucast (b0::byte) :: 64 word) + push_bit 8 (ucast (b1::byte)) + push_bit 16 (ucast (b2::byte)) + push_bit 24 (ucast (b3::byte)) + push_bit 32 (ucast (b4::byte)) + push_bit 40 (ucast (b5::byte)) + push_bit 48 (ucast (b6::byte)) + push_bit 56 (ucast (b7::byte))
     = ((((((ucast b0 OR push_bit 8 (ucast b1)) OR push_bit 16 (ucast b2)) OR push_bit 24 (ucast b3)) OR push_bit 32 (ucast b4)) OR push_bit 40 (ucast b5)) OR push_bit 48 (ucast b6)) OR push_bit 56 (ucast b7)"
proof -
  have s1: "(ucast b0 :: 64 word) + push_bit 8 (ucast b1) = (ucast b0 :: 64 word) OR push_bit 8 (ucast b1)"
    by (rule add_byte_disjoint) (rule bit_ucast_byte_bound)
  have b1: "\<And>n. bit ((ucast b0 :: 64 word) OR push_bit 8 (ucast b1)) n \<Longrightarrow> n < 16"
    using bit_or_byte_bound[of "(ucast b0 :: 64 word)" 8 b1] bit_ucast_byte_bound by fastforce
  have s2: "((ucast b0 :: 64 word) OR push_bit 8 (ucast b1)) + push_bit 16 (ucast b2) = ((ucast b0 :: 64 word) OR push_bit 8 (ucast b1)) OR push_bit 16 (ucast b2)"
    by (rule add_byte_disjoint) (rule b1)
  have b2: "\<And>n. bit (((ucast b0 :: 64 word) OR push_bit 8 (ucast b1)) OR push_bit 16 (ucast b2)) n \<Longrightarrow> n < 24"
    using bit_or_byte_bound[of "((ucast b0 :: 64 word) OR push_bit 8 (ucast b1))" 16 b2] b1 by fastforce
  have s3: "(((ucast b0 :: 64 word) OR push_bit 8 (ucast b1)) OR push_bit 16 (ucast b2)) + push_bit 24 (ucast b3) = (((ucast b0 :: 64 word) OR push_bit 8 (ucast b1)) OR push_bit 16 (ucast b2)) OR push_bit 24 (ucast b3)"
    by (rule add_byte_disjoint) (rule b2)
  have b3: "\<And>n. bit ((((ucast b0 :: 64 word) OR push_bit 8 (ucast b1)) OR push_bit 16 (ucast b2)) OR push_bit 24 (ucast b3)) n \<Longrightarrow> n < 32"
    using bit_or_byte_bound[of "(((ucast b0 :: 64 word) OR push_bit 8 (ucast b1)) OR push_bit 16 (ucast b2))" 24 b3] b2 by fastforce
  have s4: "((((ucast b0 :: 64 word) OR push_bit 8 (ucast b1)) OR push_bit 16 (ucast b2)) OR push_bit 24 (ucast b3)) + push_bit 32 (ucast b4) = ((((ucast b0 :: 64 word) OR push_bit 8 (ucast b1)) OR push_bit 16 (ucast b2)) OR push_bit 24 (ucast b3)) OR push_bit 32 (ucast b4)"
    by (rule add_byte_disjoint) (rule b3)
  have b4: "\<And>n. bit (((((ucast b0 :: 64 word) OR push_bit 8 (ucast b1)) OR push_bit 16 (ucast b2)) OR push_bit 24 (ucast b3)) OR push_bit 32 (ucast b4)) n \<Longrightarrow> n < 40"
    using bit_or_byte_bound[of "((((ucast b0 :: 64 word) OR push_bit 8 (ucast b1)) OR push_bit 16 (ucast b2)) OR push_bit 24 (ucast b3))" 32 b4] b3 by fastforce
  have s5: "(((((ucast b0 :: 64 word) OR push_bit 8 (ucast b1)) OR push_bit 16 (ucast b2)) OR push_bit 24 (ucast b3)) OR push_bit 32 (ucast b4)) + push_bit 40 (ucast b5) = (((((ucast b0 :: 64 word) OR push_bit 8 (ucast b1)) OR push_bit 16 (ucast b2)) OR push_bit 24 (ucast b3)) OR push_bit 32 (ucast b4)) OR push_bit 40 (ucast b5)"
    by (rule add_byte_disjoint) (rule b4)
  have b5: "\<And>n. bit ((((((ucast b0 :: 64 word) OR push_bit 8 (ucast b1)) OR push_bit 16 (ucast b2)) OR push_bit 24 (ucast b3)) OR push_bit 32 (ucast b4)) OR push_bit 40 (ucast b5)) n \<Longrightarrow> n < 48"
    using bit_or_byte_bound[of "(((((ucast b0 :: 64 word) OR push_bit 8 (ucast b1)) OR push_bit 16 (ucast b2)) OR push_bit 24 (ucast b3)) OR push_bit 32 (ucast b4))" 40 b5] b4 by fastforce
  have s6: "((((((ucast b0 :: 64 word) OR push_bit 8 (ucast b1)) OR push_bit 16 (ucast b2)) OR push_bit 24 (ucast b3)) OR push_bit 32 (ucast b4)) OR push_bit 40 (ucast b5)) + push_bit 48 (ucast b6) = ((((((ucast b0 :: 64 word) OR push_bit 8 (ucast b1)) OR push_bit 16 (ucast b2)) OR push_bit 24 (ucast b3)) OR push_bit 32 (ucast b4)) OR push_bit 40 (ucast b5)) OR push_bit 48 (ucast b6)"
    by (rule add_byte_disjoint) (rule b5)
  have b6: "\<And>n. bit (((((((ucast b0 :: 64 word) OR push_bit 8 (ucast b1)) OR push_bit 16 (ucast b2)) OR push_bit 24 (ucast b3)) OR push_bit 32 (ucast b4)) OR push_bit 40 (ucast b5)) OR push_bit 48 (ucast b6)) n \<Longrightarrow> n < 56"
    using bit_or_byte_bound[of "((((((ucast b0 :: 64 word) OR push_bit 8 (ucast b1)) OR push_bit 16 (ucast b2)) OR push_bit 24 (ucast b3)) OR push_bit 32 (ucast b4)) OR push_bit 40 (ucast b5))" 48 b6] b5 by fastforce
  have s7: "(((((((ucast b0 :: 64 word) OR push_bit 8 (ucast b1)) OR push_bit 16 (ucast b2)) OR push_bit 24 (ucast b3)) OR push_bit 32 (ucast b4)) OR push_bit 40 (ucast b5)) OR push_bit 48 (ucast b6)) + push_bit 56 (ucast b7) = (((((((ucast b0 :: 64 word) OR push_bit 8 (ucast b1)) OR push_bit 16 (ucast b2)) OR push_bit 24 (ucast b3)) OR push_bit 32 (ucast b4)) OR push_bit 40 (ucast b5)) OR push_bit 48 (ucast b6)) OR push_bit 56 (ucast b7)"
    by (rule add_byte_disjoint) (rule b6)
  show ?thesis by (simp only: s1 s2 s3 s4 s5 s6 s7)
qed

lemma bit_byte_of:
  "bit (push_bit k (ucast (ucast (drop_bit k (v::'a::len word)) :: byte) :: 'a word)) n
     \<longleftrightarrow> k \<le> n \<and> n < k + 8 \<and> bit v n"
  by (auto simp add: bit_simps dest: bit_imp_le_length)

lemma bytes_of_16:
  "(ucast (ucast (GB (v::16 word) 0 8) :: byte) :: 16 word) OR push_bit 8 (ucast (ucast (GB v 8 8) :: byte)) = v"
proof (rule bit_eqI)
  fix n
  assume "possible_bit TYPE(16 word) n"
  then have n: "n < 16" by simp
  have "bit (push_bit 0 (ucast (ucast (drop_bit 0 v) :: byte) :: 16 word) OR push_bit 8 (ucast (ucast (drop_bit 8 v) :: byte))) n = bit v n"
    unfolding bit_or_iff bit_byte_of using n by auto
  then show "bit ((ucast (ucast (GB (v::16 word) 0 8) :: byte) :: 16 word) OR push_bit 8 (ucast (ucast (GB v 8 8) :: byte))) n = bit v n"
    by (simp add: ucast_GB_byte)
qed

lemma bytes_of_32:
  "(((ucast (ucast (GB (v::32 word) 0 8) :: byte) :: 32 word) OR push_bit 8 (ucast (ucast (GB v 8 8) :: byte))) OR push_bit 16 (ucast (ucast (GB v 16 8) :: byte))) OR push_bit 24 (ucast (ucast (GB v 24 8) :: byte)) = v"
proof (rule bit_eqI)
  fix n
  assume "possible_bit TYPE(32 word) n"
  then have n: "n < 32" by simp
  have "bit (((push_bit 0 (ucast (ucast (drop_bit 0 v) :: byte) :: 32 word) OR push_bit 8 (ucast (ucast (drop_bit 8 v) :: byte))) OR push_bit 16 (ucast (ucast (drop_bit 16 v) :: byte))) OR push_bit 24 (ucast (ucast (drop_bit 24 v) :: byte))) n = bit v n"
    unfolding bit_or_iff bit_byte_of using n by auto
  then show "bit ((((ucast (ucast (GB (v::32 word) 0 8) :: byte) :: 32 word) OR push_bit 8 (ucast (ucast (GB v 8 8) :: byte))) OR push_bit 16 (ucast (ucast (GB v 16 8) :: byte))) OR push_bit 24 (ucast (ucast (GB v 24 8) :: byte))) n = bit v n"
    by (simp add: ucast_GB_byte)
qed

lemma bytes_of_64:
  "(((((((ucast (ucast (GB (v::64 word) 0 8) :: byte) :: 64 word) OR push_bit 8 (ucast (ucast (GB v 8 8) :: byte))) OR push_bit 16 (ucast (ucast (GB v 16 8) :: byte))) OR push_bit 24 (ucast (ucast (GB v 24 8) :: byte))) OR push_bit 32 (ucast (ucast (GB v 32 8) :: byte))) OR push_bit 40 (ucast (ucast (GB v 40 8) :: byte))) OR push_bit 48 (ucast (ucast (GB v 48 8) :: byte))) OR push_bit 56 (ucast (ucast (GB v 56 8) :: byte)) = v"
proof (rule bit_eqI)
  fix n
  assume "possible_bit TYPE(64 word) n"
  then have n: "n < 64" by simp
  have "bit (((((((push_bit 0 (ucast (ucast (drop_bit 0 v) :: byte) :: 64 word) OR push_bit 8 (ucast (ucast (drop_bit 8 v) :: byte))) OR push_bit 16 (ucast (ucast (drop_bit 16 v) :: byte))) OR push_bit 24 (ucast (ucast (drop_bit 24 v) :: byte))) OR push_bit 32 (ucast (ucast (drop_bit 32 v) :: byte))) OR push_bit 40 (ucast (ucast (drop_bit 40 v) :: byte))) OR push_bit 48 (ucast (ucast (drop_bit 48 v) :: byte))) OR push_bit 56 (ucast (ucast (drop_bit 56 v) :: byte))) n = bit v n"
    unfolding bit_or_iff bit_byte_of using n by auto
  then show "bit ((((((((ucast (ucast (GB (v::64 word) 0 8) :: byte) :: 64 word) OR push_bit 8 (ucast (ucast (GB v 8 8) :: byte))) OR push_bit 16 (ucast (ucast (GB v 16 8) :: byte))) OR push_bit 24 (ucast (ucast (GB v 24 8) :: byte))) OR push_bit 32 (ucast (ucast (GB v 32 8) :: byte))) OR push_bit 40 (ucast (ucast (GB v 40 8) :: byte))) OR push_bit 48 (ucast (ucast (GB v 48 8) :: byte))) OR push_bit 56 (ucast (ucast (GB v 56 8) :: byte))) n = bit v n"
    by (simp add: ucast_GB_byte)
qed

lemma next_byte_at:
  "pos q < length (buffer q) \<Longrightarrow> next_byte q = Inr (buffer q ! pos q, q\<lparr>pos := pos q + 1\<rparr>)"
  by (simp add: next_byte_def peek_def)

lemma Recv_uint8_value:
  assumes "cs q = Some h" "\<not> has_quit h" "buffer q = pre @ [b0] @ post" "pos q = length pre"
  shows "Recv_uint8 q = Inr (b0, q\<lparr>pos := length pre + 1\<rparr>)"
proof -
  have "CanReadFromPacket q 1 True = Inr (True, q)"
    using assms by (intro CanReadFromPacket_succeeds) (auto simp add: Size_def)
  then show ?thesis using assms
    by (simp add: Recv_uint8_def next_byte_at)
qed

lemma Recv_uint16_value:
  assumes "cs q = Some h" "\<not> has_quit h" "buffer q = pre @ [b0, b1] @ post" "pos q = length pre"
  shows "Recv_uint16 q = Inr (ucast b0 + push_bit 8 (ucast b1), q\<lparr>pos := length pre + 2\<rparr>)"
proof -
  have "CanReadFromPacket q 2 True = Inr (True, q)"
    using assms by (intro CanReadFromPacket_succeeds) (auto simp add: Size_def)
  then show ?thesis using assms
    by (simp add: Recv_uint16_def next_byte_at nth_append Let_def)
qed

lemma Recv_uint32_value:
  assumes "cs q = Some h" "\<not> has_quit h" "buffer q = pre @ [b0, b1, b2, b3] @ post"
    "pos q = length pre"
  shows "Recv_uint32 q = Inr (ucast b0 + push_bit 8 (ucast b1) + push_bit 16 (ucast b2)
            + push_bit 24 (ucast b3), q\<lparr>pos := length pre + 4\<rparr>)"
proof -
  have "CanReadFromPacket q 4 True = Inr (True, q)"
    using assms by (intro CanReadFromPacket_succeeds) (auto simp add: Size_def)
  then show ?thesis using assms
    by (simp add: Recv_uint32_def next_byte_at nth_append Let_def)
qed

lemma Recv_uint64_value:
  assumes "cs q = Some h" "\<not> has_quit h"
    "buffer q = pre @ [b0, b1, b2, b3, b4, b5, b6, b7] @ post" "pos q = length pre"
  shows "Recv_uint64 q = Inr (ucast b0 + push_bit 8 (ucast b1) + push_bit 16 (ucast b2)
            + push_bit 24 (ucast b3) + push_bit 32 (ucast b4) + push_bit 40 (ucast b5)
            + push_bit 48 (ucast b6) + push_bit 56 (ucast b7), q\<lparr>pos := length pre + 8\<rparr>)"
proof -
  have "CanReadFromPacket q 8 True = Inr (True, q)"
    using assms by (intro CanReadFromPacket_succeeds) (auto simp add: Size_def)
  then show ?thesis using assms
    by (simp add: Recv_uint64_def next_byte_at nth_append Let_def)
qed

lemma roundtrip_uint8:
  assumes "CanWriteToPacket p 1" "\<not> has_quit h"
  shows "\<exists>p'. Send_uint8 p v = Inr p' \<and>
           Recv_uint8 (read_back p' h (Size p)) = Inr (v, read_back p' h (Size p + 1))"
  using assms Recv_uint8_value[of "read_back (p\<lparr>buffer := buffer p @ [v]\<rparr>) h (Size p)" h "buffer p" v "[]"]
  by (simp add: Send_uint8_def read_back_def Size_def)

lemma roundtrip_bool:
  assumes "CanWriteToPacket p 1" "\<not> has_quit h"
  shows "\<exists>p'. Send_bool p v = Inr p' \<and>
           Recv_bool (read_back p' h (Size p)) = Inr (v, read_back p' h (Size p + 1))"
  using roundtrip_uint8[OF assms, of "if v then 1 else 0"]
  by (auto simp add: Send_bool_def Recv_bool_def)

lemma roundtrip_uint16:
  assumes "CanWriteToPacket p 2" "\<not> has_quit h"
  shows "\<exists>p'. Send_uint16 p v = Inr p' \<and>
           Recv_uint16 (read_back p' h (Size p)) = Inr (v, read_back p' h (Size p + 2))"
  using assms Recv_uint16_value[of "read_back (p\<lparr>buffer := buffer p @ [ucast (GB v 0 8), ucast (GB v 8 8)]\<rparr>) h (Size p)" h "buffer p" _ _ "[]"]
  by (simp add: Send_uint16_def read_back_def Size_def le16 bytes_of_16)

lemma roundtrip_uint32:
  assumes "CanWriteToPacket p 4" "\<not> has_quit h"
  shows "\<exists>p'. Send_uint32 p v = Inr p' \<and>
           Recv_uint32 (read_back p' h (Size p)) = Inr (v, read_back p' h (Size p + 4))"
  using assms Recv_uint32_value[of "read_back (p\<lparr>buffer := buffer p @ [ucast (GB v 0 8), ucast (GB v 8 8), ucast (GB v 16 8), ucast (GB v 24 8)]\<rparr>) h (Size p)" h "buffer p" _ _ _ _ "[]"]
  by (simp add: Send_uint32_def read_back_def Size_def le32 bytes_of_32)

lemma roundtrip_uint64:
  assumes "CanWriteToPacket p 8" "\<not> has_quit h"
  shows "\<exists>p'. Send_uint64 p v = Inr p' \<and>
           Recv_uint64 (read_back p' h (Size p)) = Inr (v, read_back p' h (Size p + 8))"
  using assms Recv_uint64_value[of "read_back (p\<lparr>buffer := buffer p @ [ucast (GB v 0 8), ucast (GB v 8 8), ucast (GB v 16 8), ucast (GB v 24 8), ucast (GB v 32 8), ucast (GB v 40 8), ucast (GB v 48 8), ucast (GB v 56 8)]\<rparr>) h (Size p)" h "buffer p" _ _ _ _ _ _ _ _ "[]"]
  by (simp add: Send_uint64_def read_back_def Size_def le64 bytes_of_64)

lemma drop_Cons_nth:
  assumes "drop n xs = y # ys"
  shows "n < length xs" and "xs ! n = y" and "drop (Suc n) xs = ys"
proof -
  show n: "n < length xs" using assms by (cases "n < length xs") auto
  from Cons_nth_drop_Suc[OF n] assms show "xs ! n = y" and "drop (Suc n) xs = ys" by auto
qed

lemma unat_cursor: "n < 65536 \<Longrightarrow> unat (word_of_nat n :: 16 word) = n"
  by (simp add: unat_of_nat)

lemma Recv_string_copy_whole:
  assumes "drop ps src = t @ 0 # rest" and "0 \<notin> set t"
    and "length t + 2 \<le> sz" and "i + length t + 1 \<le> length dest"
    and "ps + length t < 65536"
  shows "Recv_string_copy src sz (word_of_nat ps) i dest =
           Inr (sz - (length t + 1), word_of_nat (ps + length t + 1), i + length t + 1,
                take i dest @ t @ [0] @ drop (i + length t + 1) dest)"
  using assms
proof (induction t arbitrary: sz ps i dest)
  case Nil
  from drop_Cons_nth[of ps src 0 rest] Nil.prems(1)
  have "ps < length src" "src ! ps = 0" by auto
  moreover have "size_t_dec sz = sz - 1" "0 < sz - 1" "i < length dest"
    using Nil.prems by (auto simp add: size_t_dec_def)
  moreover have "unat (word_of_nat ps :: 16 word) = ps"
    using Nil.prems by (intro unat_cursor) simp
  ultimately show ?case
    by (subst Recv_string_copy.simps) (simp add: upd_conv_take_nth_drop)
next
  case (Cons c t)
  from drop_Cons_nth[of ps src c "t @ 0 # rest"] Cons.prems(1)
  have src: "ps < length src" "src ! ps = c" "drop (Suc ps) src = t @ 0 # rest" by auto
  have c: "c \<noteq> 0" using Cons.prems(2) by auto
  have sz: "size_t_dec sz = sz - 1" "0 < sz - 1" and i: "i < length dest"
    using Cons.prems by (auto simp add: size_t_dec_def)
  have u: "unat (word_of_nat ps :: 16 word) = ps"
    using Cons.prems by (intro unat_cursor) simp
  have "Recv_string_copy src (sz - 1) (word_of_nat (Suc ps)) (Suc i) (dest[i := c]) =
          Inr (sz - 1 - (length t + 1), word_of_nat (Suc ps + length t + 1), Suc i + length t + 1,
               take (Suc i) (dest[i := c]) @ t @ [0] @ drop (Suc i + length t + 1) (dest[i := c]))"
    using Cons.prems by (intro Cons.IH src) auto
  moreover have "take (Suc i) (dest[i := c]) = take i dest @ [c]"
    using i by (simp add: take_Suc_conv_app_nth)
  ultimately show ?case using src c sz i u
    by (subst Recv_string_copy.simps) (simp add: Let_def add.commute)
qed

lemma Recv_string_copy_truncated:
  assumes "drop ps src = t @ rest" and "0 \<notin> set t"
    and "sz = length t + 1" and "i + length t \<le> length dest"
    and "ps + length t \<le> 65536"
  shows "Recv_string_copy src sz (word_of_nat ps) i dest =
           Inr (0, word_of_nat (ps + length t), i + length t,
                take i dest @ t @ drop (i + length t) dest)"
  using assms
proof (induction t arbitrary: sz ps i dest)
  case Nil
  then show ?case
    by (subst Recv_string_copy.simps) (simp add: size_t_dec_def)
next
  case (Cons c t)
  from drop_Cons_nth[of ps src c "t @ rest"] Cons.prems(1)
  have src: "ps < length src" "src ! ps = c" "drop (Suc ps) src = t @ rest" by auto
  have c: "c \<noteq> 0" using Cons.prems(2) by auto
  have sz: "size_t_dec sz = sz - 1" "0 < sz - 1" and i: "i < length dest"
    using Cons.prems by (auto simp add: size_t_dec_def)
  have u: "unat (word_of_nat ps :: 16 word) = ps"
    using Cons.prems by (intro unat_cursor) simp
  have "Recv_string_copy src (sz - 1) (word_of_nat (Suc ps)) (Suc i) (dest[i := c]) =
          Inr (0, word_of_nat (Suc ps + length t), Suc i + length t,
               take (Suc i) (dest[i := c]) @ t @ drop (Suc i + length t) (dest[i := c]))"
    using Cons.prems by (intro Cons.IH src) auto
  moreover have "take (Suc i) (dest[i := c]) = take i dest @ [c]"
    using i by (simp add: take_Suc_conv_app_nth)
  ultimately show ?case using src c sz i u
    by (subst Recv_string_copy.simps) (simp add: Let_def add.commute)
qed

lemma Recv_string_skip_to_NUL:
  assumes "drop ps src = t @ 0 # rest" and "0 \<notin> set t" and "ps + length t < 65536"
  shows "Recv_string_skip src (word_of_nat ps) = Some (word_of_nat (ps + length t))"
  using assms
proof (induction t arbitrary: ps)
  case Nil
  have "unat (word_of_nat ps :: 16 word) = ps"
    using Nil.prems by (intro unat_cursor) simp
  with drop_Cons_nth[of ps src 0 rest] Nil.prems(1) show ?case
    by (subst Recv_string_skip.simps) simp
next
  case (Cons c t)
  from drop_Cons_nth[of ps src c "t @ 0 # rest"] Cons.prems(1)
  have src: "ps < length src" "src ! ps = c" "drop (Suc ps) src = t @ 0 # rest" by auto
  have u: "unat (word_of_nat ps :: 16 word) = ps"
    using Cons.prems by (intro unat_cursor) simp
  have "Recv_string_skip src (word_of_nat (Suc ps)) = Some (word_of_nat (Suc ps + length t))"
    using Cons.prems by (intro Cons.IH src) auto
  with Cons.prems(2) src u show ?case
    by (subst Recv_string_skip.simps) (simp add: add.commute)
qed

lemma Recv_string_skip_at_end: "length src \<le> unat ps \<Longrightarrow> Recv_string_skip src ps = Some ps"
  by (subst Recv_string_skip.simps) simp

lemma Recv_string_truncating:
  assumes live: "cs p = Some h" "\<not> has_quit h"
    and src: "drop (pos p) (buffer p) = s @ 0 # rest" "0 \<notin> set s"
    and cap: "0 < length dest" "length dest \<le> length s + 1"
    and fits: "pos p + length s + 1 < 65536"
  shows "Recv_string validate p dest (length dest) =
           Some (Inr (validate (take (length dest - 1) s @ [0]), p\<lparr>pos := pos p + length s + 1\<rparr>))"
proof -
  from cap(1) obtain k where k: "length dest = Suc k" by (cases dest) auto
  with cap(2) have ks: "k \<le> length s" by simp
  let ?t = "take k s"
  have t: "length ?t = k" using ks by simp
  have d: "drop (pos p) (buffer p) = ?t @ (drop k s @ 0 # rest)"
    using src(1) by simp
  have nz: "0 \<notin> set ?t" using src(2) by (auto dest: in_set_takeD)
  have "Recv_string_copy (buffer p) (Suc k) (word_of_nat (pos p)) 0 dest =
      Inr (0, word_of_nat (pos p + length ?t), 0 + length ?t,
           take 0 dest @ ?t @ drop (0 + length ?t) dest)"
    using k t ks fits by (intro Recv_string_copy_truncated[OF d nz]) auto
  then have copy: "Recv_string_copy (buffer p) (Suc k) (word_of_nat (pos p)) 0 dest =
      Inr (0, word_of_nat (pos p + k), k, ?t @ drop k dest)"
    using t by simp
  have "drop k (drop (pos p) (buffer p)) = drop k s @ 0 # rest"
    using src(1) ks by simp
  then have d2: "drop (pos p + k) (buffer p) = drop k s @ 0 # rest"
    by (simp add: add.commute)
  have nz2: "0 \<notin> set (drop k s)" using src(2) by (auto dest: in_set_dropD)
  have "Recv_string_skip (buffer p) (word_of_nat (pos p + k))
      = Some (word_of_nat (pos p + k + length (drop k s)))"
    using ks fits by (intro Recv_string_skip_to_NUL[OF d2 nz2]) auto
  then have skip: "Recv_string_skip (buffer p) (word_of_nat (pos p + k))
      = Some (word_of_nat (pos p + length s))"
    using ks by simp
  have fin_pos: "unat ((word_of_nat (pos p + length s) :: 16 word) + 1) = pos p + length s + 1"
    using unat_cursor[of "Suc (pos p + length s)"] fits by (simp del: of_nat_add add: add.commute)
  have "drop k dest = [dest ! k]"
    using k by (simp add: Cons_nth_drop_Suc[symmetric])
  then have fin: "(?t @ drop k dest)[k := 0] = ?t @ [0]"
    using t by (simp add: list_update_append)
  show ?thesis
    using live ks
    by (simp add: Recv_string_def HasClientQuit_def k copy skip poke_def fin min_absorb2
        fin_pos del: of_nat_add)
qed

lemma Recv_string_roomy_at_end:
  assumes live: "cs p = Some h" "\<not> has_quit h"
    and src: "drop (pos p) (buffer p) = s @ [0]" "0 \<notin> set s"
    and cap: "length s + 2 \<le> length dest"
    and fits: "Size p < 65536"
  shows "Recv_string validate p dest (length dest) =
           Some (Inr (validate (s @ [0, 0] @ drop (length s + 2) dest),
                      p\<lparr>pos := unat ((word_of_nat (Size p) :: 16 word) + 1)\<rparr>))"
proof -
  have len: "pos p + length s + 1 = Size p"
  proof -
    have "length (drop (pos p) (buffer p)) = length s + 1" using src(1) by simp
    then show ?thesis by (simp add: Size_def)
  qed
  have "Recv_string_copy (buffer p) (length dest) (word_of_nat (pos p)) 0 dest =
      Inr (length dest - (length s + 1), word_of_nat (pos p + length s + 1), 0 + length s + 1,
           take 0 dest @ s @ [0] @ drop (0 + length s + 1) dest)"
    using cap src len fits by (intro Recv_string_copy_whole[where rest="[]"]) auto
  then have copy: "Recv_string_copy (buffer p) (length dest) (word_of_nat (pos p)) 0 dest =
      Inr (length dest - (length s + 1), word_of_nat (Size p), length s + 1,
           s @ [0] @ drop (length s + 1) dest)"
    using len by (simp del: of_nat_add of_nat_Suc)
  have u: "unat (word_of_nat (Size p) :: 16 word) = Size p"
    using fits by (intro unat_cursor)
  have fin: "(s @ 0 # drop (Suc (length s)) dest)[Suc (length s) := 0]
        = s @ [0, 0] @ drop (length s + 2) dest"
  proof -
    have "drop (Suc (length s)) dest = dest ! Suc (length s) # drop (length s + 2) dest"
      using cap by (simp add: Cons_nth_drop_Suc)
    then show ?thesis by (simp add: list_update_append)
  qed
  have skip: "Recv_string_skip (buffer p) (word_of_nat (Size p)) = Some (word_of_nat (Size p))"
    using u by (intro Recv_string_skip_at_end) (simp add: Size_def)
  show ?thesis
    using live cap fin u
    by (simp add: Recv_string_def HasClientQuit_def copy poke_def skip del: of_nat_add of_nat_Suc)
qed

lemma c_str_append_NUL: "0 \<notin> set s \<Longrightarrow> c_str (s @ 0 # rest) = s"
  by (induction s) (auto simp add: c_str_def)

lemma ttd_strnlen_exact:
  "0 \<notin> set s \<Longrightarrow> ttd_strnlen (s @ rest) (length s) = Inr (length s)"
  by (induction s) (auto, cases rest, auto)

lemma Recv_string_std_at_end:
  assumes live: "cs p = Some h" "\<not> has_quit h"
    and src: "drop (pos p) (buffer p) = s @ [0]" "0 \<notin> set s"
  shows "\<exists>p'. Recv_string_std validate p dest = Inr (validate s, p')
            \<and> buffer p' = buffer p"
proof -
  have "length (drop (pos p) (buffer p)) = length s + 1" using src(1) by simp
  then have "size_t_sub (size_t_sub (Size p) (pos p)) 1 = length s"
    by (auto simp add: Size_def size_t_sub_def)
  then show ?thesis
    using live src ttd_strnlen_exact[OF src(2), of "[0]"]
    by (simp add: Recv_string_std_def HasClientQuit_def)
qed

lemma Send_string_Inr:
  assumes "CanWriteToPacket p (length s + 1)" "0 \<notin> set s"
  shows "Send_string p s = Inr (p\<lparr>buffer := buffer p @ s @ [0]\<rparr>)"
proof -
  have tw: "takeWhile (\<lambda>c. c \<noteq> 0) s = s" using assms(2) by (induction s) auto
  show ?thesis using assms(1)
    by (simp add: Send_string_def strlen_eq Send_string_loop_eq tw)
qed

lemma printable_ascii_no_NUL: "printable_ascii s \<Longrightarrow> 0 \<notin> set s"
  by (induction s) (auto simp add: printable_ascii_def)

lemma str_validate_inplace_printable: "printable_ascii s \<Longrightarrow> str_validate_inplace s = s"
  by (induction s) (auto simp add: printable_ascii_def str_validate_inplace_def IsControl_def
      word_le_nat_alt word_less_nat_alt)

lemma str_validate_printable:
  assumes "printable_ascii (c_str d)" and "length (c_str d) < length d"
  shows "str_validate d = d"
proof -
  let ?s = "takeWhile (\<lambda>c. c \<noteq> 0) d"
  have d: "d = ?s @ dropWhile (\<lambda>c. c \<noteq> 0) d" by simp
  have "length d = length ?s + length (dropWhile (\<lambda>c. c \<noteq> 0) d)"
    by (metis length_append takeWhile_dropWhile_id)
  then have "dropWhile (\<lambda>c. c \<noteq> 0) d \<noteq> []"
    using assms(2) by (auto simp add: c_str_def)
  then obtain r where r: "dropWhile (\<lambda>c. c \<noteq> 0) d = 0 # r"
    using hd_dropWhile[of "\<lambda>c. c \<noteq> 0" d] by (cases "dropWhile (\<lambda>c. c \<noteq> 0) d") auto
  have dr: "drop (Suc (length ?s)) d = r"
  proof -
    have "drop (Suc (length ?s)) (?s @ 0 # r) = r" by simp
    with d r show ?thesis by simp
  qed
  have e: "?s @ 0 # r = d" using d r by simp
  have "str_validate d = take (length d) (?s @ 0 # drop (Suc (length ?s)) d)"
    using assms(1) str_validate_inplace_printable[of ?s]
    by (simp add: str_validate_def c_str_def Let_def)
  also have "\<dots> = take (length d) (?s @ 0 # r)" by (simp only: dr)
  also have "\<dots> = take (length d) d" by (simp only: e)
  finally show ?thesis by simp
qed

lemma cursor_overflow: "(65536 :: 16 word) = 0"
  by (simp add: word_eq_iff_unsigned[where 'a=nat] unsigned_numeral)

lemma Recv_string_wraps:
  assumes "length pre = 65535" and "pre ! 0 = 0"
  shows "Recv_string validate \<lparr>pos = 65535, buffer = pre @ [0x42, 0x43, 0], limit = lim, cs = Some \<lparr>has_quit = False\<rparr>\<rparr>
           [0xAA, 0xAA, 0xAA, 0xAA] 4
         = Some (Inr (validate [0x42, 0, 0xAA, 0xAA],
              \<lparr>pos = 1, buffer = pre @ [0x42, 0x43, 0], limit = lim, cs = Some \<lparr>has_quit = False\<rparr>\<rparr>))"
proof -
  have c1: "Recv_string_copy (pre @ [0x42, 0x43, 0]) 3 0 1 [0x42, 0xAA, 0xAA, 0xAA]
      = Inr (2, 1, 2, [0x42, 0, 0xAA, 0xAA])"
    using assms by (subst Recv_string_copy.simps) (simp add: size_t_dec_def nth_append)
  have c0: "Recv_string_copy (pre @ [0x42, 0x43, 0]) 4 0xFFFF 0 [0xAA, 0xAA, 0xAA, 0xAA]
      = Inr (2, 1, 2, [0x42, 0, 0xAA, 0xAA])"
    using assms c1
    by (subst Recv_string_copy.simps) (simp add: size_t_dec_def nth_append cursor_overflow)
  show ?thesis
    using assms c0 by (simp add: Recv_string_def HasClientQuit_def Size_def)
qed

lemma Recv_string_fitting:
  assumes live: "cs p = Some h" "\<not> has_quit h"
    and src: "drop (pos p) (buffer p) = s @ 0 # rest" "0 \<notin> set s"
    and cap: "length s < length dest"
    and fits: "Size p \<le> 65535"
  shows "\<exists>d p'. Recv_string validate p dest (length dest) = Some (Inr (validate d, p'))
           \<and> c_str d = s \<and> length s < length d \<and> buffer p' = buffer p"
proof -
  have len: "pos p + length s + 1 + length rest = Size p"
  proof -
    have "length (drop (pos p) (buffer p)) = length s + 1 + length rest" using src(1) by simp
    then show ?thesis by (simp add: Size_def)
  qed
  consider (tight) "length dest = length s + 1"
    | (last) "length s + 2 \<le> length dest" "rest = []"
    | (inner) "length s + 2 \<le> length dest" "rest \<noteq> []"
    using cap by linarith
  then show ?thesis
  proof cases
    case tight
    have "Recv_string validate p dest (length dest)
        = Some (Inr (validate (take (length dest - 1) s @ [0]), p\<lparr>pos := pos p + length s + 1\<rparr>))"
      using tight len fits by (intro Recv_string_truncating[OF live src]) auto
    moreover have "c_str (s @ [0]) = s" using c_str_append_NUL[OF src(2)] by simp
    ultimately show ?thesis using tight by (intro exI[of _ "s @ [0]"]) auto
  next
    case last
    have "Recv_string validate p dest (length dest)
        = Some (Inr (validate (s @ [0, 0] @ drop (length s + 2) dest),
             p\<lparr>pos := unat ((word_of_nat (Size p) :: 16 word) + 1)\<rparr>))"
      using last src fits by (intro Recv_string_roomy_at_end[OF live]) auto
    moreover have "c_str (s @ [0, 0] @ drop (length s + 2) dest) = s"
      using c_str_append_NUL[OF src(2)] by simp
    ultimately show ?thesis by (intro exI[of _ "s @ [0, 0] @ drop (length s + 2) dest"]) auto
  next
    case inner
    then have lt: "pos p + length s + 1 < Size p" using len by (cases rest) auto
    have "Recv_string_copy (buffer p) (length dest) (word_of_nat (pos p)) 0 dest =
        Inr (length dest - (length s + 1), word_of_nat (pos p + length s + 1), 0 + length s + 1,
             take 0 dest @ s @ [0] @ drop (0 + length s + 1) dest)"
      using inner src lt fits by (intro Recv_string_copy_whole) auto
    then have copy: "Recv_string_copy (buffer p) (length dest) (word_of_nat (pos p)) 0 dest =
        Inr (length dest - (length s + 1), word_of_nat (pos p + length s + 1), length s + 1,
             s @ [0] @ drop (length s + 1) dest)"
      by (simp del: of_nat_add of_nat_Suc)
    have u: "unat (word_of_nat (pos p + length s + 1) :: 16 word) = pos p + length s + 1"
      using lt fits by (intro unat_cursor) simp
    have "Recv_string validate p dest (length dest)
        = Some (Inr (validate (s @ [0] @ drop (length s + 1) dest), p\<lparr>pos := pos p + length s + 1\<rparr>))"
      using live inner(1) lt u
      by (simp add: Recv_string_def HasClientQuit_def copy del: of_nat_add of_nat_Suc)
    moreover have "c_str (s @ [0] @ drop (length s + 1) dest) = s"
      using c_str_append_NUL[OF src(2)] by simp
    ultimately show ?thesis by (intro exI[of _ "s @ [0] @ drop (length s + 1) dest"]) auto
  qed
qed

lemma Recv_string_truncated_wraps:
  assumes "length pre = 65532" and "pre ! 0 = 0"
  shows "Recv_string validate \<lparr>pos = 65532, buffer = pre @ [0x48, 0x45, 0x4c, 0x4c] @ later, limit = lim, cs = Some \<lparr>has_quit = False\<rparr>\<rparr>
           [0xAA, 0xAA, 0xAA, 0xAA] 4
         = Some (Inr (validate [0x48, 0x45, 0x4c, 0],
              \<lparr>pos = 1, buffer = pre @ [0x48, 0x45, 0x4c, 0x4c] @ later, limit = lim, cs = Some \<lparr>has_quit = False\<rparr>\<rparr>))"
proof -
  let ?src = "pre @ [0x48, 0x45, 0x4c, 0x4c] @ later"
  have c3: "Recv_string_copy ?src 1 0xFFFF (Suc (Suc (Suc 0))) [0x48, 0x45, 0x4c, 0xAA]
      = Inr (0, 0xFFFF, Suc (Suc (Suc 0)), [0x48, 0x45, 0x4c, 0xAA])"
    by (subst Recv_string_copy.simps) (simp add: size_t_dec_def)
  have c2: "Recv_string_copy ?src 2 0xFFFE (Suc (Suc 0)) [0x48, 0x45, 0xAA, 0xAA]
      = Inr (0, 0xFFFF, Suc (Suc (Suc 0)), [0x48, 0x45, 0x4c, 0xAA])"
    using assms c3 by (subst Recv_string_copy.simps) (simp add: size_t_dec_def nth_append)
  have c1: "Recv_string_copy ?src 3 0xFFFD (Suc 0) [0x48, 0xAA, 0xAA, 0xAA]
      = Inr (0, 0xFFFF, Suc (Suc (Suc 0)), [0x48, 0x45, 0x4c, 0xAA])"
    using assms c2 by (subst Recv_string_copy.simps) (simp add: size_t_dec_def nth_append)
  have c0: "Recv_string_copy ?src 4 0xFFFC 0 [0xAA, 0xAA, 0xAA, 0xAA]
      = Inr (0, 0xFFFF, Suc (Suc (Suc 0)), [0x48, 0x45, 0x4c, 0xAA])"
    using assms c1 by (subst Recv_string_copy.simps) (simp add: size_t_dec_def nth_append)
  have s1: "Recv_string_skip ?src 0 = Some 0"
    using assms by (subst Recv_string_skip.simps) (simp add: nth_append)
  have s0: "Recv_string_skip ?src 0xFFFF = Some 0"
    using assms s1 by (subst Recv_string_skip.simps) (simp add: nth_append cursor_overflow)
  show ?thesis
    using assms c0 s0 by (simp add: Recv_string_def HasClientQuit_def Size_def poke_def)
qed

lemma roundtrip_string:
  assumes "CanWriteToPacket p (length s + 1)" "0 \<notin> set s" "\<not> has_quit h"
    and "length s < length dest" and "Size p + length s + 1 < 65536"
  shows "\<exists>p' d q'. Send_string p s = Inr p' \<and>
           Recv_string validate (read_back p' h (Size p)) dest (length dest)
             = Some (Inr (validate d, q')) \<and> c_str d = s \<and> length s < length d"
proof -
  let ?q = "read_back (p\<lparr>buffer := buffer p @ s @ [0]\<rparr>) h (Size p)"
  have q: "cs ?q = Some h" "drop (pos ?q) (buffer ?q) = s @ [0]"
    by (simp_all add: read_back_def Size_def)
  have fits: "pos ?q + length s + 1 < 65536" "Size ?q < 65536"
    using assms(5) by (simp_all add: read_back_def Size_def)
  consider (tight) "length dest = length s + 1" | (roomy) "length s + 2 \<le> length dest"
    using assms(4) by linarith
  then have "\<exists>d q'. Recv_string validate ?q dest (length dest) = Some (Inr (validate d, q'))
      \<and> c_str d = s \<and> length s < length d"
  proof cases
    case tight
    from Recv_string_truncating[OF q(1) assms(3), of s "[]" dest validate] q(2) assms(2) tight fits
    have "Recv_string validate ?q dest (length dest)
        = Some (Inr (validate (s @ [0]), ?q\<lparr>pos := pos ?q + length s + 1\<rparr>))"
      by simp
    moreover have "c_str (s @ [0]) = s \<and> length s < length (s @ [0])"
      using c_str_append_NUL[OF assms(2)] by simp
    ultimately show ?thesis by blast
  next
    case roomy
    from Recv_string_roomy_at_end[OF q(1) assms(3) q(2) assms(2) roomy fits(2)]
    have "Recv_string validate ?q dest (length dest)
        = Some (Inr (validate (s @ [0, 0] @ drop (length s + 2) dest),
             ?q\<lparr>pos := unat ((word_of_nat (Size ?q) :: 16 word) + 1)\<rparr>))" .
    moreover have "c_str (s @ [0, 0] @ drop (length s + 2) dest) = s
        \<and> length s < length (s @ [0, 0] @ drop (length s + 2) dest)"
      using c_str_append_NUL[OF assms(2)] by simp
    ultimately show ?thesis by blast
  qed
  then show ?thesis using Send_string_Inr[OF assms(1,2)] by auto
qed

lemma roundtrip_string_std:
  assumes "CanWriteToPacket p (length s + 1)" "0 \<notin> set s" "\<not> has_quit h"
  shows "\<exists>p' q'. Send_string p s = Inr p' \<and>
           Recv_string_std validate (read_back p' h (Size p)) dest
             = Inr (validate s, q')"
proof -
  let ?q = "read_back (p\<lparr>buffer := buffer p @ s @ [0]\<rparr>) h (Size p)"
  have q: "cs ?q = Some h" "drop (pos ?q) (buffer ?q) = s @ [0]"
    by (simp_all add: read_back_def Size_def)
  from Recv_string_std_at_end[OF q(1) assms(3) q(2) assms(2)] Send_string_Inr[OF assms(1,2)]
  show ?thesis by auto
qed

subsection \<open>Round trip\<close>

text \<open>
  C1, as stated, for strings. The string \<open>"A\001B"\<close> holds no NUL; written with
  \<open>Send_string\<close> and followed by one more byte, it is read back at the same position
  as \<open>"AB"\<close> by both overloads of \<open>Recv_string\<close>, because the sanitising step removes
  the control character. And in a packet of more than 65535 bytes the 16-bit cursor of
  \<open>Recv_string(char *, size_t)\<close> wraps around: the string \<open>"BC"\<close> written at offset 65535 is
  read back as \<open>"B"\<close>, the second byte being taken from offset 0.
\<close>

theorem Send_Recv_string_counterexample:
  "0 \<notin> set ([0x41, 0x01, 0x42] :: byte list)
   \<and> Send_string \<lparr>pos = 0, buffer = [0, 0, 1], limit = 1460, cs = None\<rparr> [0x41, 0x01, 0x42] = Inr \<lparr>pos = 0, buffer = [0, 0, 1, 0x41, 0x01, 0x42, 0], limit = 1460, cs = None\<rparr>
   \<and> Send_uint8 \<lparr>pos = 0, buffer = [0, 0, 1, 0x41, 0x01, 0x42, 0], limit = 1460, cs = None\<rparr> 9 = Inr \<lparr>pos = 0, buffer = [0, 0, 1, 0x41, 0x01, 0x42, 0, 9], limit = 1460, cs = None\<rparr>
   \<and> Recv_string str_validate (read_back \<lparr>pos = 0, buffer = [0, 0, 1, 0x41, 0x01, 0x42, 0, 9], limit = 1460, cs = None\<rparr> \<lparr>has_quit = False\<rparr> 3) (replicate 8 0) 8 = Some (Inr ([0x41, 0x42, 0, 0, 0, 0, 0, 0], read_back \<lparr>pos = 0, buffer = [0, 0, 1, 0x41, 0x01, 0x42, 0, 9], limit = 1460, cs = None\<rparr> \<lparr>has_quit = False\<rparr> 7))
   \<and> c_str ([0x41, 0x42, 0, 0, 0, 0, 0, 0] :: byte list) = [0x41, 0x42]
   \<and> Recv_string_std str_validate_inplace (read_back \<lparr>pos = 0, buffer = [0, 0, 1, 0x41, 0x01, 0x42, 0, 9], limit = 1460, cs = None\<rparr> \<lparr>has_quit = False\<rparr> 3) [] = Inr ([0x41, 0x42], read_back \<lparr>pos = 0, buffer = [0, 0, 1, 0x41, 0x01, 0x42, 0, 9], limit = 1460, cs = None\<rparr> \<lparr>has_quit = False\<rparr> 7)
   \<and> Size \<lparr>pos = 0, buffer = (0 # 0 # 1 # replicate 65532 0x41), limit = 70000, cs = None\<rparr> = 65535
   \<and> Send_string \<lparr>pos = 0, buffer = (0 # 0 # 1 # replicate 65532 0x41), limit = 70000, cs = None\<rparr> [0x42, 0x43] = Inr \<lparr>pos = 0, buffer = ((0 # 0 # 1 # replicate 65532 0x41) @ [0x42, 0x43, 0]), limit = 70000, cs = None\<rparr>
   \<and> Recv_string str_validate (read_back \<lparr>pos = 0, buffer = ((0 # 0 # 1 # replicate 65532 0x41) @ [0x42, 0x43, 0]), limit = 70000, cs = None\<rparr> \<lparr>has_quit = False\<rparr> 65535) [0xAA, 0xAA, 0xAA, 0xAA] 4 = Some (Inr ([0x42, 0, 0xAA, 0xAA], read_back \<lparr>pos = 0, buffer = ((0 # 0 # 1 # replicate 65532 0x41) @ [0x42, 0x43, 0]), limit = 70000, cs = None\<rparr> \<lparr>has_quit = False\<rparr> 1))
   \<and> c_str ([0x42, 0, 0xAA, 0xAA] :: byte list) = [0x42]"
proof -
  have a0: "0 \<notin> set ([0x41, 0x01, 0x42] :: byte list)"
    by simp
  have a1: "Send_string \<lparr>pos = 0, buffer = [0, 0, 1], limit = 1460, cs = None\<rparr> [0x41, 0x01, 0x42] = Inr \<lparr>pos = 0, buffer = [0, 0, 1, 0x41, 0x01, 0x42, 0], limit = 1460, cs = None\<rparr>"
    by code_simp
  have a2: "Send_uint8 \<lparr>pos = 0, buffer = [0, 0, 1, 0x41, 0x01, 0x42, 0], limit = 1460, cs = None\<rparr> 9 = Inr \<lparr>pos = 0, buffer = [0, 0, 1, 0x41, 0x01, 0x42, 0, 9], limit = 1460, cs = None\<rparr>"
    by code_simp
  have a3: "Recv_string str_validate (read_back \<lparr>pos = 0, buffer = [0, 0, 1, 0x41, 0x01, 0x42, 0, 9], limit = 1460, cs = None\<rparr> \<lparr>has_quit = False\<rparr> 3) (replicate 8 0) 8 = Some (Inr ([0x41, 0x42, 0, 0, 0, 0, 0, 0], read_back \<lparr>pos = 0, buffer = [0, 0, 1, 0x41, 0x01, 0x42, 0, 9], limit = 1460, cs = None\<rparr> \<lparr>has_quit = False\<rparr> 7))"
    by code_simp
  have a4: "c_str ([0x41, 0x42, 0, 0, 0, 0, 0, 0] :: byte list) = [0x41, 0x42]"
    by code_simp
  have a5: "Recv_string_std str_validate_inplace (read_back \<lparr>pos = 0, buffer = [0, 0, 1, 0x41, 0x01, 0x42, 0, 9], limit = 1460, cs = None\<rparr> \<lparr>has_quit = False\<rparr> 3) [] = Inr ([0x41, 0x42], read_back \<lparr>pos = 0, buffer = [0, 0, 1, 0x41, 0x01, 0x42, 0, 9], limit = 1460, cs = None\<rparr> \<lparr>has_quit = False\<rparr> 7)"
    by (simp add: Recv_string_std_def HasClientQuit_def Size_def size_t_sub_def read_back_def
        str_validate_inplace_def IsControl_def)
  have b0: "Size \<lparr>pos = 0, buffer = (0 # 0 # 1 # replicate 65532 0x41), limit = 70000, cs = None\<rparr> = 65535"
    by (simp add: Size_def)
  have b1: "Send_string \<lparr>pos = 0, buffer = (0 # 0 # 1 # replicate 65532 0x41), limit = 70000, cs = None\<rparr> [0x42, 0x43] = Inr \<lparr>pos = 0, buffer = ((0 # 0 # 1 # replicate 65532 0x41) @ [0x42, 0x43, 0]), limit = 70000, cs = None\<rparr>"
    by (intro Send_string_Inr [THEN trans]) (simp_all add: CanWriteToPacket_def size_t_add_mod Size_def)
  have sv: "str_validate [0x42, 0, 0xAA, 0xAA] = [0x42, 0, 0xAA, 0xAA]"
    by code_simp
  have b2: "Recv_string str_validate (read_back \<lparr>pos = 0, buffer = ((0 # 0 # 1 # replicate 65532 0x41) @ [0x42, 0x43, 0]), limit = 70000, cs = None\<rparr> \<lparr>has_quit = False\<rparr> 65535) [0xAA, 0xAA, 0xAA, 0xAA] 4 = Some (Inr ([0x42, 0, 0xAA, 0xAA], read_back \<lparr>pos = 0, buffer = ((0 # 0 # 1 # replicate 65532 0x41) @ [0x42, 0x43, 0]), limit = 70000, cs = None\<rparr> \<lparr>has_quit = False\<rparr> 1))"
    using Recv_string_wraps[of "(0 # 0 # 1 # replicate 65532 0x41)" str_validate 70000]
    by (simp add: read_back_def sv)
  have b3: "c_str ([0x42, 0, 0xAA, 0xAA] :: byte list) = [0x42]"
    by code_simp
  show ?thesis
    by (intro conjI a0 a1 a2 a3 a4 a5 b0 b1 b2 b3)
qed

text \<open>
  C1, amended. Let \<open>p\<close> be a packet being written and \<open>h\<close> a socket handler that has not
  quit. For each primitive type, if the write is allowed (\<open>CanWriteToPacket\<close> for its
  width), \<open>Send_T p v\<close> succeeds and \<open>Recv_T\<close>, applied to the same bytes at the position
  where \<open>v\<close> was written, returns exactly \<open>v\<close> and advances the cursor by the width: for
  \<open>bool\<close>, \<open>uint8\<close>, \<open>uint16\<close>, \<open>uint32\<close> and \<open>uint64\<close>, for every value of the type.
  For a NUL-free string \<open>s\<close>, what the read hands to the sanitising step is exactly \<open>s\<close>
  (as the C string of the destination array, or as the \<open>std::string\<close>), whatever that
  step is. With the sanitising step of the spec, a string \<open>s\<close> of printable ASCII
  characters, the empty string included, is read back as exactly \<open>s\<close>. The read into a
  character array needs room for the string and its terminator and a packet that, with
  the string, has at most 65535 bytes.
\<close>

theorem Send_Recv_roundtrip:
  assumes "\<not> has_quit h"
  shows
    "(CanWriteToPacket p 1 \<longrightarrow>
        (\<exists>p'. Send_bool p b = Inr p' \<and>
           Recv_bool (read_back p' h (Size p)) = Inr (b, read_back p' h (Size p + 1))))
   \<and> (CanWriteToPacket p 1 \<longrightarrow>
        (\<exists>p'. Send_uint8 p v8 = Inr p' \<and>
           Recv_uint8 (read_back p' h (Size p)) = Inr (v8, read_back p' h (Size p + 1))))
   \<and> (CanWriteToPacket p 2 \<longrightarrow>
        (\<exists>p'. Send_uint16 p v16 = Inr p' \<and>
           Recv_uint16 (read_back p' h (Size p)) = Inr (v16, read_back p' h (Size p + 2))))
   \<and> (CanWriteToPacket p 4 \<longrightarrow>
        (\<exists>p'. Send_uint32 p v32 = Inr p' \<and>
           Recv_uint32 (read_back p' h (Size p)) = Inr (v32, read_back p' h (Size p + 4))))
   \<and> (CanWriteToPacket p 8 \<longrightarrow>
        (\<exists>p'. Send_uint64 p v64 = Inr p' \<and>
           Recv_uint64 (read_back p' h (Size p)) = Inr (v64, read_back p' h (Size p + 8))))
   \<and> (CanWriteToPacket p (length s + 1) \<and> 0 \<notin> set s \<and> length s < length dest
        \<and> Size p + length s + 1 < 65536 \<longrightarrow>
        (\<exists>p' d q'. Send_string p s = Inr p' \<and>
           Recv_string validate (read_back p' h (Size p)) dest (length dest)
             = Some (Inr (validate d, q')) \<and> c_str d = s))
   \<and> (CanWriteToPacket p (length s + 1) \<and> 0 \<notin> set s \<longrightarrow>
        (\<exists>p' q'. Send_string p s = Inr p' \<and>
           Recv_string_std validate_inplace (read_back p' h (Size p)) dest'
             = Inr (validate_inplace s, q')))
   \<and> (CanWriteToPacket p (length s + 1) \<and> printable_ascii s \<and> length s < length dest
        \<and> Size p + length s + 1 < 65536 \<longrightarrow>
        (\<exists>p' d q'. Send_string p s = Inr p' \<and>
           Recv_string str_validate (read_back p' h (Size p)) dest (length dest)
             = Some (Inr (d, q')) \<and> c_str d = s))
   \<and> (CanWriteToPacket p (length s + 1) \<and> printable_ascii s \<longrightarrow>
        (\<exists>p' q'. Send_string p s = Inr p' \<and>
           Recv_string_std str_validate_inplace (read_back p' h (Size p)) dest'
             = Inr (s, q')))"
proof -
  have str: "\<exists>p' d q'. Send_string p s = Inr p' \<and>
           Recv_string str_validate (read_back p' h (Size p)) dest (length dest)
             = Some (Inr (d, q')) \<and> c_str d = s"
    if w: "CanWriteToPacket p (length s + 1)" and pr: "printable_ascii s"
      and room: "length s < length dest" and fits: "Size p + length s + 1 < 65536"
  proof -
    from roundtrip_string[OF w printable_ascii_no_NUL[OF pr] assms room fits, of str_validate]
    obtain p' d q' where r: "Send_string p s = Inr p'"
      "Recv_string str_validate (read_back p' h (Size p)) dest (length dest)
         = Some (Inr (str_validate d, q'))" "c_str d = s" "length s < length d"
      by blast
    from str_validate_printable[of d] r(3,4) pr have "str_validate d = d" by simp
    with r show ?thesis by auto
  qed
  have std: "\<exists>p' q'. Send_string p s = Inr p' \<and>
           Recv_string_std str_validate_inplace (read_back p' h (Size p)) dest' = Inr (s, q')"
    if w: "CanWriteToPacket p (length s + 1)" and pr: "printable_ascii s"
    using roundtrip_string_std[OF w printable_ascii_no_NUL[OF pr] assms, of str_validate_inplace dest']
      str_validate_inplace_printable[OF pr] by simp
  have gen: "\<exists>p' d q'. Send_string p s = Inr p' \<and>
           Recv_string validate (read_back p' h (Size p)) dest (length dest)
             = Some (Inr (validate d, q')) \<and> c_str d = s"
    if "CanWriteToPacket p (length s + 1)" "0 \<notin> set s" "length s < length dest"
       "Size p + length s + 1 < 65536"
    using roundtrip_string[OF that(1,2) assms that(3,4), of validate] by blast
  show ?thesis
    using roundtrip_bool[OF _ assms, of p b] roundtrip_uint8[OF _ assms, of p v8]
      roundtrip_uint16[OF _ assms, of p v16] roundtrip_uint32[OF _ assms, of p v32]
      roundtrip_uint64[OF _ assms, of p v64] gen
      roundtrip_string_std[OF _ _ assms, of p s validate_inplace dest'] str std
    by blast
qed

theorem Send_Recv_roundtrip_witness:
  "(Size \<lparr>pos = 0, buffer = [0, 0, 1], limit = 1460, cs = None\<rparr> + length ([0x20, 0x21, 0x22, 0x23, 0x24, 0x25, 0x26, 0x27, 0x28, 0x29, 0x2a, 0x2b, 0x2c, 0x2d, 0x2e, 0x2f, 0x30, 0x31, 0x32, 0x33, 0x34, 0x35, 0x36, 0x37, 0x38, 0x39, 0x3a, 0x3b, 0x3c, 0x3d, 0x3e, 0x3f, 0x40, 0x41, 0x42, 0x43, 0x44, 0x45, 0x46, 0x47, 0x48, 0x49, 0x4a, 0x4b, 0x4c, 0x4d, 0x4e, 0x4f, 0x50, 0x51, 0x52, 0x53, 0x54, 0x55, 0x56, 0x57, 0x58, 0x59, 0x5a, 0x5b, 0x5c, 0x5d, 0x5e, 0x5f, 0x60, 0x61, 0x62, 0x63, 0x64, 0x65, 0x66, 0x67, 0x68, 0x69, 0x6a, 0x6b, 0x6c, 0x6d, 0x6e, 0x6f, 0x70, 0x71, 0x72, 0x73, 0x74, 0x75, 0x76, 0x77, 0x78, 0x79, 0x7a, 0x7b, 0x7c, 0x7d, 0x7e] :: byte list) + 1 < 65536
   \<and> (case Recv_string_std str_validate_inplace (read_back \<lparr>pos = 0, buffer = ([0, 0, 1] @ ([0x20, 0x21, 0x22, 0x23, 0x24, 0x25, 0x26, 0x27, 0x28, 0x29, 0x2a, 0x2b, 0x2c, 0x2d, 0x2e, 0x2f, 0x30, 0x31, 0x32, 0x33, 0x34, 0x35, 0x36, 0x37, 0x38, 0x39, 0x3a, 0x3b, 0x3c, 0x3d, 0x3e, 0x3f, 0x40, 0x41, 0x42, 0x43, 0x44, 0x45, 0x46, 0x47, 0x48, 0x49, 0x4a, 0x4b, 0x4c, 0x4d, 0x4e, 0x4f, 0x50, 0x51, 0x52, 0x53, 0x54, 0x55, 0x56, 0x57, 0x58, 0x59, 0x5a, 0x5b, 0x5c, 0x5d, 0x5e, 0x5f, 0x60, 0x61, 0x62, 0x63, 0x64, 0x65, 0x66, 0x67, 0x68, 0x69, 0x6a, 0x6b, 0x6c, 0x6d, 0x6e, 0x6f, 0x70, 0x71, 0x72, 0x73, 0x74, 0x75, 0x76, 0x77, 0x78, 0x79, 0x7a, 0x7b, 0x7c, 0x7d, 0x7e] :: byte list) @ [0]), limit = 1460, cs = None\<rparr> \<lparr>has_quit = False\<rparr> 3) []
        of Inl e \<Rightarrow> False | Inr (d, q') \<Rightarrow> d = ([0x20, 0x21, 0x22, 0x23, 0x24, 0x25, 0x26, 0x27, 0x28, 0x29, 0x2a, 0x2b, 0x2c, 0x2d, 0x2e, 0x2f, 0x30, 0x31, 0x32, 0x33, 0x34, 0x35, 0x36, 0x37, 0x38, 0x39, 0x3a, 0x3b, 0x3c, 0x3d, 0x3e, 0x3f, 0x40, 0x41, 0x42, 0x43, 0x44, 0x45, 0x46, 0x47, 0x48, 0x49, 0x4a, 0x4b, 0x4c, 0x4d, 0x4e, 0x4f, 0x50, 0x51, 0x52, 0x53, 0x54, 0x55, 0x56, 0x57, 0x58, 0x59, 0x5a, 0x5b, 0x5c, 0x5d, 0x5e, 0x5f, 0x60, 0x61, 0x62, 0x63, 0x64, 0x65, 0x66, 0x67, 0x68, 0x69, 0x6a, 0x6b, 0x6c, 0x6d, 0x6e, 0x6f, 0x70, 0x71, 0x72, 0x73, 0x74, 0x75, 0x76, 0x77, 0x78, 0x79, 0x7a, 0x7b, 0x7c, 0x7d, 0x7e] :: byte list)))
   \<and> \<not> has_quit \<lparr>has_quit = False\<rparr>
   \<and> CanWriteToPacket \<lparr>pos = 0, buffer = [0, 0, 1], limit = 1460, cs = None\<rparr> 8
   \<and> CanWriteToPacket \<lparr>pos = 0, buffer = [0, 0, 1], limit = 1460, cs = None\<rparr> (length ([0x20, 0x21, 0x22, 0x23, 0x24, 0x25, 0x26, 0x27, 0x28, 0x29, 0x2a, 0x2b, 0x2c, 0x2d, 0x2e, 0x2f, 0x30, 0x31, 0x32, 0x33, 0x34, 0x35, 0x36, 0x37, 0x38, 0x39, 0x3a, 0x3b, 0x3c, 0x3d, 0x3e, 0x3f, 0x40, 0x41, 0x42, 0x43, 0x44, 0x45, 0x46, 0x47, 0x48, 0x49, 0x4a, 0x4b, 0x4c, 0x4d, 0x4e, 0x4f, 0x50, 0x51, 0x52, 0x53, 0x54, 0x55, 0x56, 0x57, 0x58, 0x59, 0x5a, 0x5b, 0x5c, 0x5d, 0x5e, 0x5f, 0x60, 0x61, 0x62, 0x63, 0x64, 0x65, 0x66, 0x67, 0x68, 0x69, 0x6a, 0x6b, 0x6c, 0x6d, 0x6e, 0x6f, 0x70, 0x71, 0x72, 0x73, 0x74, 0x75, 0x76, 0x77, 0x78, 0x79, 0x7a, 0x7b, 0x7c, 0x7d, 0x7e] :: byte list) + 1)
   \<and> printable_ascii ([0x20, 0x21, 0x22, 0x23, 0x24, 0x25, 0x26, 0x27, 0x28, 0x29, 0x2a, 0x2b, 0x2c, 0x2d, 0x2e, 0x2f, 0x30, 0x31, 0x32, 0x33, 0x34, 0x35, 0x36, 0x37, 0x38, 0x39, 0x3a, 0x3b, 0x3c, 0x3d, 0x3e, 0x3f, 0x40, 0x41, 0x42, 0x43, 0x44, 0x45, 0x46, 0x47, 0x48, 0x49, 0x4a, 0x4b, 0x4c, 0x4d, 0x4e, 0x4f, 0x50, 0x51, 0x52, 0x53, 0x54, 0x55, 0x56, 0x57, 0x58, 0x59, 0x5a, 0x5b, 0x5c, 0x5d, 0x5e, 0x5f, 0x60, 0x61, 0x62, 0x63, 0x64, 0x65, 0x66, 0x67, 0x68, 0x69, 0x6a, 0x6b, 0x6c, 0x6d, 0x6e, 0x6f, 0x70, 0x71, 0x72, 0x73, 0x74, 0x75, 0x76, 0x77, 0x78, 0x79, 0x7a, 0x7b, 0x7c, 0x7d, 0x7e] :: byte list)
   \<and> 0 \<notin> set ([0x20, 0x21, 0x22, 0x23, 0x24, 0x25, 0x26, 0x27, 0x28, 0x29, 0x2a, 0x2b, 0x2c, 0x2d, 0x2e, 0x2f, 0x30, 0x31, 0x32, 0x33, 0x34, 0x35, 0x36, 0x37, 0x38, 0x39, 0x3a, 0x3b, 0x3c, 0x3d, 0x3e, 0x3f, 0x40, 0x41, 0x42, 0x43, 0x44, 0x45, 0x46, 0x47, 0x48, 0x49, 0x4a, 0x4b, 0x4c, 0x4d, 0x4e, 0x4f, 0x50, 0x51, 0x52, 0x53, 0x54, 0x55, 0x56, 0x57, 0x58, 0x59, 0x5a, 0x5b, 0x5c, 0x5d, 0x5e, 0x5f, 0x60, 0x61, 0x62, 0x63, 0x64, 0x65, 0x66, 0x67, 0x68, 0x69, 0x6a, 0x6b, 0x6c, 0x6d, 0x6e, 0x6f, 0x70, 0x71, 0x72, 0x73, 0x74, 0x75, 0x76, 0x77, 0x78, 0x79, 0x7a, 0x7b, 0x7c, 0x7d, 0x7e] :: byte list)
   \<and> length ([0x20, 0x21, 0x22, 0x23, 0x24, 0x25, 0x26, 0x27, 0x28, 0x29, 0x2a, 0x2b, 0x2c, 0x2d, 0x2e, 0x2f, 0x30, 0x31, 0x32, 0x33, 0x34, 0x35, 0x36, 0x37, 0x38, 0x39, 0x3a, 0x3b, 0x3c, 0x3d, 0x3e, 0x3f, 0x40, 0x41, 0x42, 0x43, 0x44, 0x45, 0x46, 0x47, 0x48, 0x49, 0x4a, 0x4b, 0x4c, 0x4d, 0x4e, 0x4f, 0x50, 0x51, 0x52, 0x53, 0x54, 0x55, 0x56, 0x57, 0x58, 0x59, 0x5a, 0x5b, 0x5c, 0x5d, 0x5e, 0x5f, 0x60, 0x61, 0x62, 0x63, 0x64, 0x65, 0x66, 0x67, 0x68, 0x69, 0x6a, 0x6b, 0x6c, 0x6d, 0x6e, 0x6f, 0x70, 0x71, 0x72, 0x73, 0x74, 0x75, 0x76, 0x77, 0x78, 0x79, 0x7a, 0x7b, 0x7c, 0x7d, 0x7e] :: byte list) < length (replicate 128 (0::byte))
   \<and> Send_bool \<lparr>pos = 0, buffer = [0, 0, 1], limit = 1460, cs = None\<rparr> True = Inr \<lparr>pos = 0, buffer = [0, 0, 1, 1], limit = 1460, cs = None\<rparr>
   \<and> Recv_bool (read_back \<lparr>pos = 0, buffer = [0, 0, 1, 1], limit = 1460, cs = None\<rparr> \<lparr>has_quit = False\<rparr> 3) = Inr (True, read_back \<lparr>pos = 0, buffer = [0, 0, 1, 1], limit = 1460, cs = None\<rparr> \<lparr>has_quit = False\<rparr> 4)
   \<and> Send_bool \<lparr>pos = 0, buffer = [0, 0, 1], limit = 1460, cs = None\<rparr> False = Inr \<lparr>pos = 0, buffer = [0, 0, 1, 0], limit = 1460, cs = None\<rparr>
   \<and> Recv_bool (read_back \<lparr>pos = 0, buffer = [0, 0, 1, 0], limit = 1460, cs = None\<rparr> \<lparr>has_quit = False\<rparr> 3) = Inr (False, read_back \<lparr>pos = 0, buffer = [0, 0, 1, 0], limit = 1460, cs = None\<rparr> \<lparr>has_quit = False\<rparr> 4)
   \<and> Send_uint8 \<lparr>pos = 0, buffer = [0, 0, 1], limit = 1460, cs = None\<rparr> 0xFF = Inr \<lparr>pos = 0, buffer = [0, 0, 1, 0xFF], limit = 1460, cs = None\<rparr>
   \<and> Recv_uint8 (read_back \<lparr>pos = 0, buffer = [0, 0, 1, 0xFF], limit = 1460, cs = None\<rparr> \<lparr>has_quit = False\<rparr> 3) = Inr (0xFF, read_back \<lparr>pos = 0, buffer = [0, 0, 1, 0xFF], limit = 1460, cs = None\<rparr> \<lparr>has_quit = False\<rparr> 4)
   \<and> Send_uint8 \<lparr>pos = 0, buffer = [0, 0, 1], limit = 1460, cs = None\<rparr> 0 = Inr \<lparr>pos = 0, buffer = [0, 0, 1, 0], limit = 1460, cs = None\<rparr>
   \<and> Recv_uint8 (read_back \<lparr>pos = 0, buffer = [0, 0, 1, 0], limit = 1460, cs = None\<rparr> \<lparr>has_quit = False\<rparr> 3) = Inr (0, read_back \<lparr>pos = 0, buffer = [0, 0, 1, 0], limit = 1460, cs = None\<rparr> \<lparr>has_quit = False\<rparr> 4)
   \<and> Send_uint16 \<lparr>pos = 0, buffer = [0, 0, 1], limit = 1460, cs = None\<rparr> 0xFFFF = Inr \<lparr>pos = 0, buffer = [0, 0, 1, 0xFF, 0xFF], limit = 1460, cs = None\<rparr>
   \<and> Recv_uint16 (read_back \<lparr>pos = 0, buffer = [0, 0, 1, 0xFF, 0xFF], limit = 1460, cs = None\<rparr> \<lparr>has_quit = False\<rparr> 3) = Inr (0xFFFF, read_back \<lparr>pos = 0, buffer = [0, 0, 1, 0xFF, 0xFF], limit = 1460, cs = None\<rparr> \<lparr>has_quit = False\<rparr> 5)
   \<and> Send_uint16 \<lparr>pos = 0, buffer = [0, 0, 1], limit = 1460, cs = None\<rparr> 0 = Inr \<lparr>pos = 0, buffer = [0, 0, 1, 0, 0], limit = 1460, cs = None\<rparr>
   \<and> Recv_uint16 (read_back \<lparr>pos = 0, buffer = [0, 0, 1, 0, 0], limit = 1460, cs = None\<rparr> \<lparr>has_quit = False\<rparr> 3) = Inr (0, read_back \<lparr>pos = 0, buffer = [0, 0, 1, 0, 0], limit = 1460, cs = None\<rparr> \<lparr>has_quit = False\<rparr> 5)
   \<and> Send_uint32 \<lparr>pos = 0, buffer = [0, 0, 1], limit = 1460, cs = None\<rparr> 0xFFFFFFFF = Inr \<lparr>pos = 0, buffer = [0, 0, 1, 0xFF, 0xFF, 0xFF, 0xFF], limit = 1460, cs = None\<rparr>
   \<and> Recv_uint32 (read_back \<lparr>pos = 0, buffer = [0, 0, 1, 0xFF, 0xFF, 0xFF, 0xFF], limit = 1460, cs = None\<rparr> \<lparr>has_quit = False\<rparr> 3) = Inr (0xFFFFFFFF, read_back \<lparr>pos = 0, buffer = [0, 0, 1, 0xFF, 0xFF, 0xFF, 0xFF], limit = 1460, cs = None\<rparr> \<lparr>has_quit = False\<rparr> 7)
   \<and> Send_uint32 \<lparr>pos = 0, buffer = [0, 0, 1], limit = 1460, cs = None\<rparr> 0x01234567 = Inr \<lparr>pos = 0, buffer = [0, 0, 1, 0x67, 0x45, 0x23, 0x01], limit = 1460, cs = None\<rparr>
   \<and> Recv_uint32 (read_back \<lparr>pos = 0, buffer = [0, 0, 1, 0x67, 0x45, 0x23, 0x01], limit = 1460, cs = None\<rparr> \<lparr>has_quit = False\<rparr> 3) = Inr (0x01234567, read_back \<lparr>pos = 0, buffer = [0, 0, 1, 0x67, 0x45, 0x23, 0x01], limit = 1460, cs = None\<rparr> \<lparr>has_quit = False\<rparr> 7)
   \<and> Send_uint32 \<lparr>pos = 0, buffer = [0, 0, 1], limit = 1460, cs = None\<rparr> 0 = Inr \<lparr>pos = 0, buffer = [0, 0, 1, 0, 0, 0, 0], limit = 1460, cs = None\<rparr>
   \<and> Recv_uint32 (read_back \<lparr>pos = 0, buffer = [0, 0, 1, 0, 0, 0, 0], limit = 1460, cs = None\<rparr> \<lparr>has_quit = False\<rparr> 3) = Inr (0, read_back \<lparr>pos = 0, buffer = [0, 0, 1, 0, 0, 0, 0], limit = 1460, cs = None\<rparr> \<lparr>has_quit = False\<rparr> 7)
   \<and> Send_uint64 \<lparr>pos = 0, buffer = [0, 0, 1], limit = 1460, cs = None\<rparr> 0xFFFFFFFFFFFFFFFF = Inr \<lparr>pos = 0, buffer = [0, 0, 1, 0xFF, 0xFF, 0xFF, 0xFF, 0xFF, 0xFF, 0xFF, 0xFF], limit = 1460, cs = None\<rparr>
   \<and> Recv_uint64 (read_back \<lparr>pos = 0, buffer = [0, 0, 1, 0xFF, 0xFF, 0xFF, 0xFF, 0xFF, 0xFF, 0xFF, 0xFF], limit = 1460, cs = None\<rparr> \<lparr>has_quit = False\<rparr> 3) = Inr (0xFFFFFFFFFFFFFFFF, read_back \<lparr>pos = 0, buffer = [0, 0, 1, 0xFF, 0xFF, 0xFF, 0xFF, 0xFF, 0xFF, 0xFF, 0xFF], limit = 1460, cs = None\<rparr> \<lparr>has_quit = False\<rparr> 11)
   \<and> Send_uint64 \<lparr>pos = 0, buffer = [0, 0, 1], limit = 1460, cs = None\<rparr> 0 = Inr \<lparr>pos = 0, buffer = [0, 0, 1, 0, 0, 0, 0, 0, 0, 0, 0], limit = 1460, cs = None\<rparr>
   \<and> Recv_uint64 (read_back \<lparr>pos = 0, buffer = [0, 0, 1, 0, 0, 0, 0, 0, 0, 0, 0], limit = 1460, cs = None\<rparr> \<lparr>has_quit = False\<rparr> 3) = Inr (0, read_back \<lparr>pos = 0, buffer = [0, 0, 1, 0, 0, 0, 0, 0, 0, 0, 0], limit = 1460, cs = None\<rparr> \<lparr>has_quit = False\<rparr> 11)
   \<and> Send_string \<lparr>pos = 0, buffer = [0, 0, 1], limit = 1460, cs = None\<rparr> ([0x20, 0x21, 0x22, 0x23, 0x24, 0x25, 0x26, 0x27, 0x28, 0x29, 0x2a, 0x2b, 0x2c, 0x2d, 0x2e, 0x2f, 0x30, 0x31, 0x32, 0x33, 0x34, 0x35, 0x36, 0x37, 0x38, 0x39, 0x3a, 0x3b, 0x3c, 0x3d, 0x3e, 0x3f, 0x40, 0x41, 0x42, 0x43, 0x44, 0x45, 0x46, 0x47, 0x48, 0x49, 0x4a, 0x4b, 0x4c, 0x4d, 0x4e, 0x4f, 0x50, 0x51, 0x52, 0x53, 0x54, 0x55, 0x56, 0x57, 0x58, 0x59, 0x5a, 0x5b, 0x5c, 0x5d, 0x5e, 0x5f, 0x60, 0x61, 0x62, 0x63, 0x64, 0x65, 0x66, 0x67, 0x68, 0x69, 0x6a, 0x6b, 0x6c, 0x6d, 0x6e, 0x6f, 0x70, 0x71, 0x72, 0x73, 0x74, 0x75, 0x76, 0x77, 0x78, 0x79, 0x7a, 0x7b, 0x7c, 0x7d, 0x7e] :: byte list) = Inr \<lparr>pos = 0, buffer = ([0, 0, 1] @ ([0x20, 0x21, 0x22, 0x23, 0x24, 0x25, 0x26, 0x27, 0x28, 0x29, 0x2a, 0x2b, 0x2c, 0x2d, 0x2e, 0x2f, 0x30, 0x31, 0x32, 0x33, 0x34, 0x35, 0x36, 0x37, 0x38, 0x39, 0x3a, 0x3b, 0x3c, 0x3d, 0x3e, 0x3f, 0x40, 0x41, 0x42, 0x43, 0x44, 0x45, 0x46, 0x47, 0x48, 0x49, 0x4a, 0x4b, 0x4c, 0x4d, 0x4e, 0x4f, 0x50, 0x51, 0x52, 0x53, 0x54, 0x55, 0x56, 0x57, 0x58, 0x59, 0x5a, 0x5b, 0x5c, 0x5d, 0x5e, 0x5f, 0x60, 0x61, 0x62, 0x63, 0x64, 0x65, 0x66, 0x67, 0x68, 0x69, 0x6a, 0x6b, 0x6c, 0x6d, 0x6e, 0x6f, 0x70, 0x71, 0x72, 0x73, 0x74, 0x75, 0x76, 0x77, 0x78, 0x79, 0x7a, 0x7b, 0x7c, 0x7d, 0x7e] :: byte list) @ [0]), limit = 1460, cs = None\<rparr>
   \<and> (case Recv_string str_validate (read_back \<lparr>pos = 0, buffer = ([0, 0, 1] @ ([0x20, 0x21, 0x22, 0x23, 0x24, 0x25, 0x26, 0x27, 0x28, 0x29, 0x2a, 0x2b, 0x2c, 0x2d, 0x2e, 0x2f, 0x30, 0x31, 0x32, 0x33, 0x34, 0x35, 0x36, 0x37, 0x38, 0x39, 0x3a, 0x3b, 0x3c, 0x3d, 0x3e, 0x3f, 0x40, 0x41, 0x42, 0x43, 0x44, 0x45, 0x46, 0x47, 0x48, 0x49, 0x4a, 0x4b, 0x4c, 0x4d, 0x4e, 0x4f, 0x50, 0x51, 0x52, 0x53, 0x54, 0x55, 0x56, 0x57, 0x58, 0x59, 0x5a, 0x5b, 0x5c, 0x5d, 0x5e, 0x5f, 0x60, 0x61, 0x62, 0x63, 0x64, 0x65, 0x66, 0x67, 0x68, 0x69, 0x6a, 0x6b, 0x6c, 0x6d, 0x6e, 0x6f, 0x70, 0x71, 0x72, 0x73, 0x74, 0x75, 0x76, 0x77, 0x78, 0x79, 0x7a, 0x7b, 0x7c, 0x7d, 0x7e] :: byte list) @ [0]), limit = 1460, cs = None\<rparr> \<lparr>has_quit = False\<rparr> 3) (replicate 128 0) 128
        of None \<Rightarrow> False | Some (Inl e) \<Rightarrow> False | Some (Inr (d, q')) \<Rightarrow> c_str d = ([0x20, 0x21, 0x22, 0x23, 0x24, 0x25, 0x26, 0x27, 0x28, 0x29, 0x2a, 0x2b, 0x2c, 0x2d, 0x2e, 0x2f, 0x30, 0x31, 0x32, 0x33, 0x34, 0x35, 0x36, 0x37, 0x38, 0x39, 0x3a, 0x3b, 0x3c, 0x3d, 0x3e, 0x3f, 0x40, 0x41, 0x42, 0x43, 0x44, 0x45, 0x46, 0x47, 0x48, 0x49, 0x4a, 0x4b, 0x4c, 0x4d, 0x4e, 0x4f, 0x50, 0x51, 0x52, 0x53, 0x54, 0x55, 0x56, 0x57, 0x58, 0x59, 0x5a, 0x5b, 0x5c, 0x5d, 0x5e, 0x5f, 0x60, 0x61, 0x62, 0x63, 0x64, 0x65, 0x66, 0x67, 0x68, 0x69, 0x6a, 0x6b, 0x6c, 0x6d, 0x6e, 0x6f, 0x70, 0x71, 0x72, 0x73, 0x74, 0x75, 0x76, 0x77, 0x78, 0x79, 0x7a, 0x7b, 0x7c, 0x7d, 0x7e] :: byte list))
   \<and> Send_string \<lparr>pos = 0, buffer = [0, 0, 1], limit = 1460, cs = None\<rparr> [] = Inr \<lparr>pos = 0, buffer = [0, 0, 1, 0], limit = 1460, cs = None\<rparr>
   \<and> (case Recv_string str_validate (read_back \<lparr>pos = 0, buffer = [0, 0, 1, 0], limit = 1460, cs = None\<rparr> \<lparr>has_quit = False\<rparr> 3) (replicate 128 0) 128
        of None \<Rightarrow> False | Some (Inl e) \<Rightarrow> False | Some (Inr (d, q')) \<Rightarrow> c_str d = ([] :: byte list))"
proof -
  have h: "\<not> has_quit \<lparr>has_quit = False\<rparr>" by simp
  note t = Send_Recv_roundtrip[OF h, where p = "\<lparr>pos = 0, buffer = [0, 0, 1], limit = 1460, cs = None\<rparr>" and b = True and ?v8.0 = "0xFF"
      and ?v16.0 = "0xFFFF" and ?v32.0 = "0xFFFFFFFF" and ?v64.0 = "0xFFFFFFFFFFFFFFFF"
      and s = "([0x20, 0x21, 0x22, 0x23, 0x24, 0x25, 0x26, 0x27, 0x28, 0x29, 0x2a, 0x2b, 0x2c, 0x2d, 0x2e, 0x2f, 0x30, 0x31, 0x32, 0x33, 0x34, 0x35, 0x36, 0x37, 0x38, 0x39, 0x3a, 0x3b, 0x3c, 0x3d, 0x3e, 0x3f, 0x40, 0x41, 0x42, 0x43, 0x44, 0x45, 0x46, 0x47, 0x48, 0x49, 0x4a, 0x4b, 0x4c, 0x4d, 0x4e, 0x4f, 0x50, 0x51, 0x52, 0x53, 0x54, 0x55, 0x56, 0x57, 0x58, 0x59, 0x5a, 0x5b, 0x5c, 0x5d, 0x5e, 0x5f, 0x60, 0x61, 0x62, 0x63, 0x64, 0x65, 0x66, 0x67, 0x68, 0x69, 0x6a, 0x6b, 0x6c, 0x6d, 0x6e, 0x6f, 0x70, 0x71, 0x72, 0x73, 0x74, 0x75, 0x76, 0x77, 0x78, 0x79, 0x7a, 0x7b, 0x7c, 0x7d, 0x7e] :: byte list)"
      and dest = "replicate 128 0" and validate = str_validate
      and validate_inplace = str_validate_inplace and dest' = "[]"]
  have e1: "Size \<lparr>pos = 0, buffer = [0, 0, 1], limit = 1460, cs = None\<rparr> + length ([0x20, 0x21, 0x22, 0x23, 0x24, 0x25, 0x26, 0x27, 0x28, 0x29, 0x2a, 0x2b, 0x2c, 0x2d, 0x2e, 0x2f, 0x30, 0x31, 0x32, 0x33, 0x34, 0x35, 0x36, 0x37, 0x38, 0x39, 0x3a, 0x3b, 0x3c, 0x3d, 0x3e, 0x3f, 0x40, 0x41, 0x42, 0x43, 0x44, 0x45, 0x46, 0x47, 0x48, 0x49, 0x4a, 0x4b, 0x4c, 0x4d, 0x4e, 0x4f, 0x50, 0x51, 0x52, 0x53, 0x54, 0x55, 0x56, 0x57, 0x58, 0x59, 0x5a, 0x5b, 0x5c, 0x5d, 0x5e, 0x5f, 0x60, 0x61, 0x62, 0x63, 0x64, 0x65, 0x66, 0x67, 0x68, 0x69, 0x6a, 0x6b, 0x6c, 0x6d, 0x6e, 0x6f, 0x70, 0x71, 0x72, 0x73, 0x74, 0x75, 0x76, 0x77, 0x78, 0x79, 0x7a, 0x7b, 0x7c, 0x7d, 0x7e] :: byte list) + 1 < 65536
   \<and> (case Recv_string_std str_validate_inplace (read_back \<lparr>pos = 0, buffer = ([0, 0, 1] @ ([0x20, 0x21, 0x22, 0x23, 0x24, 0x25, 0x26, 0x27, 0x28, 0x29, 0x2a, 0x2b, 0x2c, 0x2d, 0x2e, 0x2f, 0x30, 0x31, 0x32, 0x33, 0x34, 0x35, 0x36, 0x37, 0x38, 0x39, 0x3a, 0x3b, 0x3c, 0x3d, 0x3e, 0x3f, 0x40, 0x41, 0x42, 0x43, 0x44, 0x45, 0x46, 0x47, 0x48, 0x49, 0x4a, 0x4b, 0x4c, 0x4d, 0x4e, 0x4f, 0x50, 0x51, 0x52, 0x53, 0x54, 0x55, 0x56, 0x57, 0x58, 0x59, 0x5a, 0x5b, 0x5c, 0x5d, 0x5e, 0x5f, 0x60, 0x61, 0x62, 0x63, 0x64, 0x65, 0x66, 0x67, 0x68, 0x69, 0x6a, 0x6b, 0x6c, 0x6d, 0x6e, 0x6f, 0x70, 0x71, 0x72, 0x73, 0x74, 0x75, 0x76, 0x77, 0x78, 0x79, 0x7a, 0x7b, 0x7c, 0x7d, 0x7e] :: byte list) @ [0]), limit = 1460, cs = None\<rparr> \<lparr>has_quit = False\<rparr> 3) []
        of Inl e \<Rightarrow> False | Inr (d, q') \<Rightarrow> d = ([0x20, 0x21, 0x22, 0x23, 0x24, 0x25, 0x26, 0x27, 0x28, 0x29, 0x2a, 0x2b, 0x2c, 0x2d, 0x2e, 0x2f, 0x30, 0x31, 0x32, 0x33, 0x34, 0x35, 0x36, 0x37, 0x38, 0x39, 0x3a, 0x3b, 0x3c, 0x3d, 0x3e, 0x3f, 0x40, 0x41, 0x42, 0x43, 0x44, 0x45, 0x46, 0x47, 0x48, 0x49, 0x4a, 0x4b, 0x4c, 0x4d, 0x4e, 0x4f, 0x50, 0x51, 0x52, 0x53, 0x54, 0x55, 0x56, 0x57, 0x58, 0x59, 0x5a, 0x5b, 0x5c, 0x5d, 0x5e, 0x5f, 0x60, 0x61, 0x62, 0x63, 0x64, 0x65, 0x66, 0x67, 0x68, 0x69, 0x6a, 0x6b, 0x6c, 0x6d, 0x6e, 0x6f, 0x70, 0x71, 0x72, 0x73, 0x74, 0x75, 0x76, 0x77, 0x78, 0x79, 0x7a, 0x7b, 0x7c, 0x7d, 0x7e] :: byte list))"
    by (simp add: Recv_string_std_def HasClientQuit_def Size_def size_t_sub_def read_back_def
        str_validate_inplace_def IsControl_def)
  have e2: "\<not> has_quit \<lparr>has_quit = False\<rparr>
   \<and> CanWriteToPacket \<lparr>pos = 0, buffer = [0, 0, 1], limit = 1460, cs = None\<rparr> 8
   \<and> CanWriteToPacket \<lparr>pos = 0, buffer = [0, 0, 1], limit = 1460, cs = None\<rparr> (length ([0x20, 0x21, 0x22, 0x23, 0x24, 0x25, 0x26, 0x27, 0x28, 0x29, 0x2a, 0x2b, 0x2c, 0x2d, 0x2e, 0x2f, 0x30, 0x31, 0x32, 0x33, 0x34, 0x35, 0x36, 0x37, 0x38, 0x39, 0x3a, 0x3b, 0x3c, 0x3d, 0x3e, 0x3f, 0x40, 0x41, 0x42, 0x43, 0x44, 0x45, 0x46, 0x47, 0x48, 0x49, 0x4a, 0x4b, 0x4c, 0x4d, 0x4e, 0x4f, 0x50, 0x51, 0x52, 0x53, 0x54, 0x55, 0x56, 0x57, 0x58, 0x59, 0x5a, 0x5b, 0x5c, 0x5d, 0x5e, 0x5f, 0x60, 0x61, 0x62, 0x63, 0x64, 0x65, 0x66, 0x67, 0x68, 0x69, 0x6a, 0x6b, 0x6c, 0x6d, 0x6e, 0x6f, 0x70, 0x71, 0x72, 0x73, 0x74, 0x75, 0x76, 0x77, 0x78, 0x79, 0x7a, 0x7b, 0x7c, 0x7d, 0x7e] :: byte list) + 1)
   \<and> printable_ascii ([0x20, 0x21, 0x22, 0x23, 0x24, 0x25, 0x26, 0x27, 0x28, 0x29, 0x2a, 0x2b, 0x2c, 0x2d, 0x2e, 0x2f, 0x30, 0x31, 0x32, 0x33, 0x34, 0x35, 0x36, 0x37, 0x38, 0x39, 0x3a, 0x3b, 0x3c, 0x3d, 0x3e, 0x3f, 0x40, 0x41, 0x42, 0x43, 0x44, 0x45, 0x46, 0x47, 0x48, 0x49, 0x4a, 0x4b, 0x4c, 0x4d, 0x4e, 0x4f, 0x50, 0x51, 0x52, 0x53, 0x54, 0x55, 0x56, 0x57, 0x58, 0x59, 0x5a, 0x5b, 0x5c, 0x5d, 0x5e, 0x5f, 0x60, 0x61, 0x62, 0x63, 0x64, 0x65, 0x66, 0x67, 0x68, 0x69, 0x6a, 0x6b, 0x6c, 0x6d, 0x6e, 0x6f, 0x70, 0x71, 0x72, 0x73, 0x74, 0x75, 0x76, 0x77, 0x78, 0x79, 0x7a, 0x7b, 0x7c, 0x7d, 0x7e] :: byte list)
   \<and> 0 \<notin> set ([0x20, 0x21, 0x22, 0x23, 0x24, 0x25, 0x26, 0x27, 0x28, 0x29, 0x2a, 0x2b, 0x2c, 0x2d, 0x2e, 0x2f, 0x30, 0x31, 0x32, 0x33, 0x34, 0x35, 0x36, 0x37, 0x38, 0x39, 0x3a, 0x3b, 0x3c, 0x3d, 0x3e, 0x3f, 0x40, 0x41, 0x42, 0x43, 0x44, 0x45, 0x46, 0x47, 0x48, 0x49, 0x4a, 0x4b, 0x4c, 0x4d, 0x4e, 0x4f, 0x50, 0x51, 0x52, 0x53, 0x54, 0x55, 0x56, 0x57, 0x58, 0x59, 0x5a, 0x5b, 0x5c, 0x5d, 0x5e, 0x5f, 0x60, 0x61, 0x62, 0x63, 0x64, 0x65, 0x66, 0x67, 0x68, 0x69, 0x6a, 0x6b, 0x6c, 0x6d, 0x6e, 0x6f, 0x70, 0x71, 0x72, 0x73, 0x74, 0x75, 0x76, 0x77, 0x78, 0x79, 0x7a, 0x7b, 0x7c, 0x7d, 0x7e] :: byte list)
   \<and> length ([0x20, 0x21, 0x22, 0x23, 0x24, 0x25, 0x26, 0x27, 0x28, 0x29, 0x2a, 0x2b, 0x2c, 0x2d, 0x2e, 0x2f, 0x30, 0x31, 0x32, 0x33, 0x34, 0x35, 0x36, 0x37, 0x38, 0x39, 0x3a, 0x3b, 0x3c, 0x3d, 0x3e, 0x3f, 0x40, 0x41, 0x42, 0x43, 0x44, 0x45, 0x46, 0x47, 0x48, 0x49, 0x4a, 0x4b, 0x4c, 0x4d, 0x4e, 0x4f, 0x50, 0x51, 0x52, 0x53, 0x54, 0x55, 0x56, 0x57, 0x58, 0x59, 0x5a, 0x5b, 0x5c, 0x5d, 0x5e, 0x5f, 0x60, 0x61, 0x62, 0x63, 0x64, 0x65, 0x66, 0x67, 0x68, 0x69, 0x6a, 0x6b, 0x6c, 0x6d, 0x6e, 0x6f, 0x70, 0x71, 0x72, 0x73, 0x74, 0x75, 0x76, 0x77, 0x78, 0x79, 0x7a, 0x7b, 0x7c, 0x7d, 0x7e] :: byte list) < length (replicate 128 (0::byte))
   \<and> Send_bool \<lparr>pos = 0, buffer = [0, 0, 1], limit = 1460, cs = None\<rparr> True = Inr \<lparr>pos = 0, buffer = [0, 0, 1, 1], limit = 1460, cs = None\<rparr>
   \<and> Recv_bool (read_back \<lparr>pos = 0, buffer = [0, 0, 1, 1], limit = 1460, cs = None\<rparr> \<lparr>has_quit = False\<rparr> 3) = Inr (True, read_back \<lparr>pos = 0, buffer = [0, 0, 1, 1], limit = 1460, cs = None\<rparr> \<lparr>has_quit = False\<rparr> 4)
   \<and> Send_bool \<lparr>pos = 0, buffer = [0, 0, 1], limit = 1460, cs = None\<rparr> False = Inr \<lparr>pos = 0, buffer = [0, 0, 1, 0], limit = 1460, cs = None\<rparr>
   \<and> Recv_bool (read_back \<lparr>pos = 0, buffer = [0, 0, 1, 0], limit = 1460, cs = None\<rparr> \<lparr>has_quit = False\<rparr> 3) = Inr (False, read_back \<lparr>pos = 0, buffer = [0, 0, 1, 0], limit = 1460, cs = None\<rparr> \<lparr>has_quit = False\<rparr> 4)
   \<and> Send_uint8 \<lparr>pos = 0, buffer = [0, 0, 1], limit = 1460, cs = None\<rparr> 0xFF = Inr \<lparr>pos = 0, buffer = [0, 0, 1, 0xFF], limit = 1460, cs = None\<rparr>
   \<and> Recv_uint8 (read_back \<lparr>pos = 0, buffer = [0, 0, 1, 0xFF], limit = 1460, cs = None\<rparr> \<lparr>has_quit = False\<rparr> 3) = Inr (0xFF, read_back \<lparr>pos = 0, buffer = [0, 0, 1, 0xFF], limit = 1460, cs = None\<rparr> \<lparr>has_quit = False\<rparr> 4)
   \<and> Send_uint8 \<lparr>pos = 0, buffer = [0, 0, 1], limit = 1460, cs = None\<rparr> 0 = Inr \<lparr>pos = 0, buffer = [0, 0, 1, 0], limit = 1460, cs = None\<rparr>
   \<and> Recv_uint8 (read_back \<lparr>pos = 0, buffer = [0, 0, 1, 0], limit = 1460, cs = None\<rparr> \<lparr>has_quit = False\<rparr> 3) = Inr (0, read_back \<lparr>pos = 0, buffer = [0, 0, 1, 0], limit = 1460, cs = None\<rparr> \<lparr>has_quit = False\<rparr> 4)
   \<and> Send_uint16 \<lparr>pos = 0, buffer = [0, 0, 1], limit = 1460, cs = None\<rparr> 0xFFFF = Inr \<lparr>pos = 0, buffer = [0, 0, 1, 0xFF, 0xFF], limit = 1460, cs = None\<rparr>
   \<and> Recv_uint16 (read_back \<lparr>pos = 0, buffer = [0, 0, 1, 0xFF, 0xFF], limit = 1460, cs = None\<rparr> \<lparr>has_quit = False\<rparr> 3) = Inr (0xFFFF, read_back \<lparr>pos = 0, buffer = [0, 0, 1, 0xFF, 0xFF], limit = 1460, cs = None\<rparr> \<lparr>has_quit = False\<rparr> 5)
   \<and> Send_uint16 \<lparr>pos = 0, buffer = [0, 0, 1], limit = 1460, cs = None\<rparr> 0 = Inr \<lparr>pos = 0, buffer = [0, 0, 1, 0, 0], limit = 1460, cs = None\<rparr>
   \<and> Recv_uint16 (read_back \<lparr>pos = 0, buffer = [0, 0, 1, 0, 0], limit = 1460, cs = None\<rparr> \<lparr>has_quit = False\<rparr> 3) = Inr (0, read_back \<lparr>pos = 0, buffer = [0, 0, 1, 0, 0], limit = 1460, cs = None\<rparr> \<lparr>has_quit = False\<rparr> 5)
   \<and> Send_uint32 \<lparr>pos = 0, buffer = [0, 0, 1], limit = 1460, cs = None\<rparr> 0xFFFFFFFF = Inr \<lparr>pos = 0, buffer = [0, 0, 1, 0xFF, 0xFF, 0xFF, 0xFF], limit = 1460, cs = None\<rparr>
   \<and> Recv_uint32 (read_back \<lparr>pos = 0, buffer = [0, 0, 1, 0xFF, 0xFF, 0xFF, 0xFF], limit = 1460, cs = None\<rparr> \<lparr>has_quit = False\<rparr> 3) = Inr (0xFFFFFFFF, read_back \<lparr>pos = 0, buffer = [0, 0, 1, 0xFF, 0xFF, 0xFF, 0xFF], limit = 1460, cs = None\<rparr> \<lparr>has_quit = False\<rparr> 7)
   \<and> Send_uint32 \<lparr>pos = 0, buffer = [0, 0, 1], limit = 1460, cs = None\<rparr> 0x01234567 = Inr \<lparr>pos = 0, buffer = [0, 0, 1, 0x67, 0x45, 0x23, 0x01], limit = 1460, cs = None\<rparr>
   \<and> Recv_uint32 (read_back \<lparr>pos = 0, buffer = [0, 0, 1, 0x67, 0x45, 0x23, 0x01], limit = 1460, cs = None\<rparr> \<lparr>has_quit = False\<rparr> 3) = Inr (0x01234567, read_back \<lparr>pos = 0, buffer = [0, 0, 1, 0x67, 0x45, 0x23, 0x01], limit = 1460, cs = None\<rparr> \<lparr>has_quit = False\<rparr> 7)
   \<and> Send_uint32 \<lparr>pos = 0, buffer = [0, 0, 1], limit = 1460, cs = None\<rparr> 0 = Inr \<lparr>pos = 0, buffer = [0, 0, 1, 0, 0, 0, 0], limit = 1460, cs = None\<rparr>
   \<and> Recv_uint32 (read_back \<lparr>pos = 0, buffer = [0, 0, 1, 0, 0, 0, 0], limit = 1460, cs = None\<rparr> \<lparr>has_quit = False\<rparr> 3) = Inr (0, read_back \<lparr>pos = 0, buffer = [0, 0, 1, 0, 0, 0, 0], limit = 1460, cs = None\<rparr> \<lparr>has_quit = False\<rparr> 7)
   \<and> Send_uint64 \<lparr>pos = 0, buffer = [0, 0, 1], limit = 1460, cs = None\<rparr> 0xFFFFFFFFFFFFFFFF = Inr \<lparr>pos = 0, buffer = [0, 0, 1, 0xFF, 0xFF, 0xFF, 0xFF, 0xFF, 0xFF, 0xFF, 0xFF], limit = 1460, cs = None\<rparr>
   \<and> Recv_uint64 (read_back \<lparr>pos = 0, buffer = [0, 0, 1, 0xFF, 0xFF, 0xFF, 0xFF, 0xFF, 0xFF, 0xFF, 0xFF], limit = 1460, cs = None\<rparr> \<lparr>has_quit = False\<rparr> 3) = Inr (0xFFFFFFFFFFFFFFFF, read_back \<lparr>pos = 0, buffer = [0, 0, 1, 0xFF, 0xFF, 0xFF, 0xFF, 0xFF, 0xFF, 0xFF, 0xFF], limit = 1460, cs = None\<rparr> \<lparr>has_quit = False\<rparr> 11)
   \<and> Send_uint64 \<lparr>pos = 0, buffer = [0, 0, 1], limit = 1460, cs = None\<rparr> 0 = Inr \<lparr>pos = 0, buffer = [0, 0, 1, 0, 0, 0, 0, 0, 0, 0, 0], limit = 1460, cs = None\<rparr>
   \<and> Recv_uint64 (read_back \<lparr>pos = 0, buffer = [0, 0, 1, 0, 0, 0, 0, 0, 0, 0, 0], limit = 1460, cs = None\<rparr> \<lparr>has_quit = False\<rparr> 3) = Inr (0, read_back \<lparr>pos = 0, buffer = [0, 0, 1, 0, 0, 0, 0, 0, 0, 0, 0], limit = 1460, cs = None\<rparr> \<lparr>has_quit = False\<rparr> 11)
   \<and> Send_string \<lparr>pos = 0, buffer = [0, 0, 1], limit = 1460, cs = None\<rparr> ([0x20, 0x21, 0x22, 0x23, 0x24, 0x25, 0x26, 0x27, 0x28, 0x29, 0x2a, 0x2b, 0x2c, 0x2d, 0x2e, 0x2f, 0x30, 0x31, 0x32, 0x33, 0x34, 0x35, 0x36, 0x37, 0x38, 0x39, 0x3a, 0x3b, 0x3c, 0x3d, 0x3e, 0x3f, 0x40, 0x41, 0x42, 0x43, 0x44, 0x45, 0x46, 0x47, 0x48, 0x49, 0x4a, 0x4b, 0x4c, 0x4d, 0x4e, 0x4f, 0x50, 0x51, 0x52, 0x53, 0x54, 0x55, 0x56, 0x57, 0x58, 0x59, 0x5a, 0x5b, 0x5c, 0x5d, 0x5e, 0x5f, 0x60, 0x61, 0x62, 0x63, 0x64, 0x65, 0x66, 0x67, 0x68, 0x69, 0x6a, 0x6b, 0x6c, 0x6d, 0x6e, 0x6f, 0x70, 0x71, 0x72, 0x73, 0x74, 0x75, 0x76, 0x77, 0x78, 0x79, 0x7a, 0x7b, 0x7c, 0x7d, 0x7e] :: byte list) = Inr \<lparr>pos = 0, buffer = ([0, 0, 1] @ ([0x20, 0x21, 0x22, 0x23, 0x24, 0x25, 0x26, 0x27, 0x28, 0x29, 0x2a, 0x2b, 0x2c, 0x2d, 0x2e, 0x2f, 0x30, 0x31, 0x32, 0x33, 0x34, 0x35, 0x36, 0x37, 0x38, 0x39, 0x3a, 0x3b, 0x3c, 0x3d, 0x3e, 0x3f, 0x40, 0x41, 0x42, 0x43, 0x44, 0x45, 0x46, 0x47, 0x48, 0x49, 0x4a, 0x4b, 0x4c, 0x4d, 0x4e, 0x4f, 0x50, 0x51, 0x52, 0x53, 0x54, 0x55, 0x56, 0x57, 0x58, 0x59, 0x5a, 0x5b, 0x5c, 0x5d, 0x5e, 0x5f, 0x60, 0x61, 0x62, 0x63, 0x64, 0x65, 0x66, 0x67, 0x68, 0x69, 0x6a, 0x6b, 0x6c, 0x6d, 0x6e, 0x6f, 0x70, 0x71, 0x72, 0x73, 0x74, 0x75, 0x76, 0x77, 0x78, 0x79, 0x7a, 0x7b, 0x7c, 0x7d, 0x7e] :: byte list) @ [0]), limit = 1460, cs = None\<rparr>
   \<and> (case Recv_string str_validate (read_back \<lparr>pos = 0, buffer = ([0, 0, 1] @ ([0x20, 0x21, 0x22, 0x23, 0x24, 0x25, 0x26, 0x27, 0x28, 0x29, 0x2a, 0x2b, 0x2c, 0x2d, 0x2e, 0x2f, 0x30, 0x31, 0x32, 0x33, 0x34, 0x35, 0x36, 0x37, 0x38, 0x39, 0x3a, 0x3b, 0x3c, 0x3d, 0x3e, 0x3f, 0x40, 0x41, 0x42, 0x43, 0x44, 0x45, 0x46, 0x47, 0x48, 0x49, 0x4a, 0x4b, 0x4c, 0x4d, 0x4e, 0x4f, 0x50, 0x51, 0x52, 0x53, 0x54, 0x55, 0x56, 0x57, 0x58, 0x59, 0x5a, 0x5b, 0x5c, 0x5d, 0x5e, 0x5f, 0x60, 0x61, 0x62, 0x63, 0x64, 0x65, 0x66, 0x67, 0x68, 0x69, 0x6a, 0x6b, 0x6c, 0x6d, 0x6e, 0x6f, 0x70, 0x71, 0x72, 0x73, 0x74, 0x75, 0x76, 0x77, 0x78, 0x79, 0x7a, 0x7b, 0x7c, 0x7d, 0x7e] :: byte list) @ [0]), limit = 1460, cs = None\<rparr> \<lparr>has_quit = False\<rparr> 3) (replicate 128 0) 128
        of None \<Rightarrow> False | Some (Inl e) \<Rightarrow> False | Some (Inr (d, q')) \<Rightarrow> c_str d = ([0x20, 0x21, 0x22, 0x23, 0x24, 0x25, 0x26, 0x27, 0x28, 0x29, 0x2a, 0x2b, 0x2c, 0x2d, 0x2e, 0x2f, 0x30, 0x31, 0x32, 0x33, 0x34, 0x35, 0x36, 0x37, 0x38, 0x39, 0x3a, 0x3b, 0x3c, 0x3d, 0x3e, 0x3f, 0x40, 0x41, 0x42, 0x43, 0x44, 0x45, 0x46, 0x47, 0x48, 0x49, 0x4a, 0x4b, 0x4c, 0x4d, 0x4e, 0x4f, 0x50, 0x51, 0x52, 0x53, 0x54, 0x55, 0x56, 0x57, 0x58, 0x59, 0x5a, 0x5b, 0x5c, 0x5d, 0x5e, 0x5f, 0x60, 0x61, 0x62, 0x63, 0x64, 0x65, 0x66, 0x67, 0x68, 0x69, 0x6a, 0x6b, 0x6c, 0x6d, 0x6e, 0x6f, 0x70, 0x71, 0x72, 0x73, 0x74, 0x75, 0x76, 0x77, 0x78, 0x79, 0x7a, 0x7b, 0x7c, 0x7d, 0x7e] :: byte list))
   \<and> Send_string \<lparr>pos = 0, buffer = [0, 0, 1], limit = 1460, cs = None\<rparr> [] = Inr \<lparr>pos = 0, buffer = [0, 0, 1, 0], limit = 1460, cs = None\<rparr>
   \<and> (case Recv_string str_validate (read_back \<lparr>pos = 0, buffer = [0, 0, 1, 0], limit = 1460, cs = None\<rparr> \<lparr>has_quit = False\<rparr> 3) (replicate 128 0) 128
        of None \<Rightarrow> False | Some (Inl e) \<Rightarrow> False | Some (Inr (d, q')) \<Rightarrow> c_str d = ([] :: byte list))"
    by code_simp
  have e: "?thesis" by (rule conjI [OF e1 e2])
  show ?thesis by (rule conjunct2 [OF conjI [OF t e]])
qed

subsection \<open>Truncating string reads\<close>

text \<open>
  C7, as stated, at capacity 0 and in a packet of more than 65535 bytes. With
  \<open>size = 0\<close> the decrement \<open>--size\<close> wraps around and the copy loop writes beyond the
  destination. And with \<open>"HELLOWORLD\0NEXT\0"\<close> at offset 65532 and capacity 4 the
  destination is \<open>"HEL\0"\<close>, but the 16-bit cursor wraps around while skipping and stops
  at the zero byte at offset 0: the cursor ends at 1, not one past the terminator.
\<close>

theorem Recv_string_capacity_counterexample:
  "Recv_string str_validate \<lparr>pos = 3, buffer = ([0x13, 0, 1] @ [0x48, 0x45, 0x4c, 0x4c, 0x4f, 0x57, 0x4f, 0x52, 0x4c, 0x44] @ [0] @ [0x4e, 0x45, 0x58, 0x54] @ [0]), limit = 1460, cs = Some \<lparr>has_quit = False\<rparr>\<rparr> [] 0 = Some (Inl OutOfBounds)
   \<and> drop 65532 ((0 # 0 # 1 # replicate 65529 0x41) @ [0x48, 0x45, 0x4c, 0x4c, 0x4f, 0x57, 0x4f, 0x52, 0x4c, 0x44] @ [0] @ [0x4e, 0x45, 0x58, 0x54] @ [0]) = [0x48, 0x45, 0x4c, 0x4c, 0x4f, 0x57, 0x4f, 0x52, 0x4c, 0x44] @ 0 # ([0x4e, 0x45, 0x58, 0x54] @ [0])
   \<and> Recv_string str_validate \<lparr>pos = 65532, buffer = ((0 # 0 # 1 # replicate 65529 0x41) @ [0x48, 0x45, 0x4c, 0x4c, 0x4f, 0x57, 0x4f, 0x52, 0x4c, 0x44] @ [0] @ [0x4e, 0x45, 0x58, 0x54] @ [0]), limit = 70000, cs = Some \<lparr>has_quit = False\<rparr>\<rparr> [0xAA, 0xAA, 0xAA, 0xAA] 4 = Some (Inr ([0x48, 0x45, 0x4c, 0], \<lparr>pos = 1, buffer = ((0 # 0 # 1 # replicate 65529 0x41) @ [0x48, 0x45, 0x4c, 0x4c, 0x4f, 0x57, 0x4f, 0x52, 0x4c, 0x44] @ [0] @ [0x4e, 0x45, 0x58, 0x54] @ [0]), limit = 70000, cs = Some \<lparr>has_quit = False\<rparr>\<rparr>))
   \<and> (1::nat) \<noteq> 65532 + length ([0x48, 0x45, 0x4c, 0x4c, 0x4f, 0x57, 0x4f, 0x52, 0x4c, 0x44] :: byte list) + 1"
proof -
  have c0: "Recv_string str_validate \<lparr>pos = 3, buffer = ([0x13, 0, 1] @ [0x48, 0x45, 0x4c, 0x4c, 0x4f, 0x57, 0x4f, 0x52, 0x4c, 0x44] @ [0] @ [0x4e, 0x45, 0x58, 0x54] @ [0]), limit = 1460, cs = Some \<lparr>has_quit = False\<rparr>\<rparr> [] 0 = Some (Inl OutOfBounds)"
    by (simp add: Recv_string_def HasClientQuit_def Recv_string_copy.simps size_t_dec_def)
  have c1: "drop 65532 ((0 # 0 # 1 # replicate 65529 0x41) @ [0x48, 0x45, 0x4c, 0x4c, 0x4f, 0x57, 0x4f, 0x52, 0x4c, 0x44] @ [0] @ [0x4e, 0x45, 0x58, 0x54] @ [0]) = [0x48, 0x45, 0x4c, 0x4c, 0x4f, 0x57, 0x4f, 0x52, 0x4c, 0x44] @ 0 # ([0x4e, 0x45, 0x58, 0x54] @ [0])"
    by simp
  have sv: "str_validate [0x48, 0x45, 0x4c, 0] = [0x48, 0x45, 0x4c, 0]"
    by code_simp
  have c2: "Recv_string str_validate \<lparr>pos = 65532, buffer = ((0 # 0 # 1 # replicate 65529 0x41) @ [0x48, 0x45, 0x4c, 0x4c, 0x4f, 0x57, 0x4f, 0x52, 0x4c, 0x44] @ [0] @ [0x4e, 0x45, 0x58, 0x54] @ [0]), limit = 70000, cs = Some \<lparr>has_quit = False\<rparr>\<rparr> [0xAA, 0xAA, 0xAA, 0xAA] 4 = Some (Inr ([0x48, 0x45, 0x4c, 0], \<lparr>pos = 1, buffer = ((0 # 0 # 1 # replicate 65529 0x41) @ [0x48, 0x45, 0x4c, 0x4c, 0x4f, 0x57, 0x4f, 0x52, 0x4c, 0x44] @ [0] @ [0x4e, 0x45, 0x58, 0x54] @ [0]), limit = 70000, cs = Some \<lparr>has_quit = False\<rparr>\<rparr>))"
    using Recv_string_truncated_wraps[of "(0 # 0 # 1 # replicate 65529 0x41)" str_validate "[0x4f, 0x57, 0x4f, 0x52, 0x4c, 0x44] @ [0] @ [0x4e, 0x45, 0x58, 0x54] @ [0]" 70000]
    by (simp add: sv)
  have c3: "(1::nat) \<noteq> 65532 + length ([0x48, 0x45, 0x4c, 0x4c, 0x4f, 0x57, 0x4f, 0x52, 0x4c, 0x44] :: byte list) + 1"
    by simp
  show ?thesis
    by (intro conjI c0 c1 c2 c3)
qed

text \<open>
  C7, amended. For every packet of at most 65535 bytes attached to a socket handler that
  has not quit, holding at its cursor a string \<open>s\<close> without NUL, its terminator and then
  \<open>rest\<close>, and every destination of capacity at least 1 and at most the length of \<open>s\<close>:
  \<open>Recv_string\<close> copies the first \<open>capacity - 1\<close> bytes of \<open>s\<close>, NUL-terminates the
  destination (which is then handed to the sanitising step), and sets the cursor one
  past the terminator of \<open>s\<close> in the packet, so that the unread bytes are exactly
  \<open>rest\<close>; and when \<open>rest\<close> starts with a terminated string, the next \<open>Recv_string\<close> into
  an array with room for it yields that string. The witness is the example
  \<open>"HELLOWORLD\0NEXT\0"\<close> with capacity 4: the destination is \<open>"HEL\0"\<close> and the next
  \<open>Recv_string\<close> yields \<open>"NEXT"\<close>.
\<close>

theorem Recv_string_truncation_resync:
  assumes "cs p = Some h" and "\<not> has_quit h"
    and "drop (pos p) (buffer p) = s @ 0 # rest" and "0 \<notin> set s"
    and "0 < length dest" and "length dest \<le> length s"
    and "Size p \<le> 65535"
  shows "\<exists>p'. Recv_string validate p dest (length dest)
             = Some (Inr (validate (take (length dest - 1) s @ [0]), p'))
          \<and> pos p' = pos p + length s + 1 \<and> buffer p' = buffer p \<and> cs p' = cs p
          \<and> drop (pos p') (buffer p') = rest
          \<and> (rest = next_s @ 0 # rest' \<and> 0 \<notin> set next_s \<and> length next_s < length dest'
                \<longrightarrow> (\<exists>d p''. Recv_string validate p' dest' (length dest')
                                = Some (Inr (validate d, p'')) \<and> c_str d = next_s))"
proof -
  let ?p' = "p\<lparr>pos := pos p + length s + 1\<rparr>"
  have len: "pos p + length s + 1 + length rest = Size p"
  proof -
    have "length (drop (pos p) (buffer p)) = length s + 1 + length rest" using assms(3) by simp
    then show ?thesis by (simp add: Size_def)
  qed
  have r: "Recv_string validate p dest (length dest)
      = Some (Inr (validate (take (length dest - 1) s @ [0]), ?p'))"
    using assms len by (intro Recv_string_truncating) auto
  have d: "drop (pos ?p') (buffer ?p') = rest"
  proof -
    have "drop (length s + 1) (drop (pos p) (buffer p)) = rest"
      using assms(3) by simp
    then show ?thesis by (simp add: add.commute add.left_commute)
  qed
  have nxt: "\<exists>d p''. Recv_string validate ?p' dest' (length dest')
                                = Some (Inr (validate d, p'')) \<and> c_str d = next_s"
    if "rest = next_s @ 0 # rest'" "0 \<notin> set next_s" "length next_s < length dest'"
  proof -
    have "cs ?p' = Some h" "Size ?p' \<le> 65535" using assms by (simp_all add: Size_def)
    from Recv_string_fitting[OF this(1) assms(2) _ that(2,3) this(2), of rest' validate] d that(1)
    show ?thesis by auto
  qed
  from r d nxt show ?thesis by (intro exI[of _ ?p']) auto
qed

theorem Recv_string_truncation_resync_witness:
  "Size \<lparr>pos = 3, buffer = ([0x13, 0, 1] @ [0x48, 0x45, 0x4c, 0x4c, 0x4f, 0x57, 0x4f, 0x52, 0x4c, 0x44] @ [0] @ [0x4e, 0x45, 0x58, 0x54] @ [0]), limit = 1460, cs = Some \<lparr>has_quit = False\<rparr>\<rparr> \<le> 65535
   \<and> cs \<lparr>pos = 3, buffer = ([0x13, 0, 1] @ [0x48, 0x45, 0x4c, 0x4c, 0x4f, 0x57, 0x4f, 0x52, 0x4c, 0x44] @ [0] @ [0x4e, 0x45, 0x58, 0x54] @ [0]), limit = 1460, cs = Some \<lparr>has_quit = False\<rparr>\<rparr> = Some \<lparr>has_quit = False\<rparr>
   \<and> \<not> has_quit \<lparr>has_quit = False\<rparr>
   \<and> drop (pos \<lparr>pos = 3, buffer = ([0x13, 0, 1] @ [0x48, 0x45, 0x4c, 0x4c, 0x4f, 0x57, 0x4f, 0x52, 0x4c, 0x44] @ [0] @ [0x4e, 0x45, 0x58, 0x54] @ [0]), limit = 1460, cs = Some \<lparr>has_quit = False\<rparr>\<rparr>) (buffer \<lparr>pos = 3, buffer = ([0x13, 0, 1] @ [0x48, 0x45, 0x4c, 0x4c, 0x4f, 0x57, 0x4f, 0x52, 0x4c, 0x44] @ [0] @ [0x4e, 0x45, 0x58, 0x54] @ [0]), limit = 1460, cs = Some \<lparr>has_quit = False\<rparr>\<rparr>) = [0x48, 0x45, 0x4c, 0x4c, 0x4f, 0x57, 0x4f, 0x52, 0x4c, 0x44] @ 0 # ([0x4e, 0x45, 0x58, 0x54] @ [0])
   \<and> 0 \<notin> set ([0x48, 0x45, 0x4c, 0x4c, 0x4f, 0x57, 0x4f, 0x52, 0x4c, 0x44] :: byte list)
   \<and> 0 < length ([0xAA, 0xAA, 0xAA, 0xAA] :: byte list)
   \<and> length ([0xAA, 0xAA, 0xAA, 0xAA] :: byte list) \<le> length ([0x48, 0x45, 0x4c, 0x4c, 0x4f, 0x57, 0x4f, 0x52, 0x4c, 0x44] :: byte list)
   \<and> Recv_string (\<lambda>d. d) \<lparr>pos = 3, buffer = ([0x13, 0, 1] @ [0x48, 0x45, 0x4c, 0x4c, 0x4f, 0x57, 0x4f, 0x52, 0x4c, 0x44] @ [0] @ [0x4e, 0x45, 0x58, 0x54] @ [0]), limit = 1460, cs = Some \<lparr>has_quit = False\<rparr>\<rparr> [0xAA, 0xAA, 0xAA, 0xAA] 4 = Some (Inr ([0x48, 0x45, 0x4c, 0], \<lparr>pos = 14, buffer = ([0x13, 0, 1] @ [0x48, 0x45, 0x4c, 0x4c, 0x4f, 0x57, 0x4f, 0x52, 0x4c, 0x44] @ [0] @ [0x4e, 0x45, 0x58, 0x54] @ [0]), limit = 1460, cs = Some \<lparr>has_quit = False\<rparr>\<rparr>))
   \<and> drop (pos \<lparr>pos = 14, buffer = ([0x13, 0, 1] @ [0x48, 0x45, 0x4c, 0x4c, 0x4f, 0x57, 0x4f, 0x52, 0x4c, 0x44] @ [0] @ [0x4e, 0x45, 0x58, 0x54] @ [0]), limit = 1460, cs = Some \<lparr>has_quit = False\<rparr>\<rparr>) (buffer \<lparr>pos = 14, buffer = ([0x13, 0, 1] @ [0x48, 0x45, 0x4c, 0x4c, 0x4f, 0x57, 0x4f, 0x52, 0x4c, 0x44] @ [0] @ [0x4e, 0x45, 0x58, 0x54] @ [0]), limit = 1460, cs = Some \<lparr>has_quit = False\<rparr>\<rparr>) = [0x4e, 0x45, 0x58, 0x54] @ [0]
   \<and> Recv_string (\<lambda>d. d) \<lparr>pos = 14, buffer = ([0x13, 0, 1] @ [0x48, 0x45, 0x4c, 0x4c, 0x4f, 0x57, 0x4f, 0x52, 0x4c, 0x44] @ [0] @ [0x4e, 0x45, 0x58, 0x54] @ [0]), limit = 1460, cs = Some \<lparr>has_quit = False\<rparr>\<rparr> (replicate 8 0xAA) 8 = Some (Inr ([0x4e, 0x45, 0x58, 0x54] @ [0, 0, 0xAA, 0xAA], \<lparr>pos = 20, buffer = ([0x13, 0, 1] @ [0x48, 0x45, 0x4c, 0x4c, 0x4f, 0x57, 0x4f, 0x52, 0x4c, 0x44] @ [0] @ [0x4e, 0x45, 0x58, 0x54] @ [0]), limit = 1460, cs = Some \<lparr>has_quit = False\<rparr>\<rparr>))
   \<and> c_str ([0x4e, 0x45, 0x58, 0x54] @ [0, 0, 0xAA, 0xAA] :: byte list) = [0x4e, 0x45, 0x58, 0x54]"
proof -
  have a: "cs \<lparr>pos = 3, buffer = ([0x13, 0, 1] @ [0x48, 0x45, 0x4c, 0x4c, 0x4f, 0x57, 0x4f, 0x52, 0x4c, 0x44] @ [0] @ [0x4e, 0x45, 0x58, 0x54] @ [0]), limit = 1460, cs = Some \<lparr>has_quit = False\<rparr>\<rparr> = Some \<lparr>has_quit = False\<rparr>"
    "\<not> has_quit \<lparr>has_quit = False\<rparr>"
    "drop (pos \<lparr>pos = 3, buffer = ([0x13, 0, 1] @ [0x48, 0x45, 0x4c, 0x4c, 0x4f, 0x57, 0x4f, 0x52, 0x4c, 0x44] @ [0] @ [0x4e, 0x45, 0x58, 0x54] @ [0]), limit = 1460, cs = Some \<lparr>has_quit = False\<rparr>\<rparr>) (buffer \<lparr>pos = 3, buffer = ([0x13, 0, 1] @ [0x48, 0x45, 0x4c, 0x4c, 0x4f, 0x57, 0x4f, 0x52, 0x4c, 0x44] @ [0] @ [0x4e, 0x45, 0x58, 0x54] @ [0]), limit = 1460, cs = Some \<lparr>has_quit = False\<rparr>\<rparr>) = [0x48, 0x45, 0x4c, 0x4c, 0x4f, 0x57, 0x4f, 0x52, 0x4c, 0x44] @ 0 # ([0x4e, 0x45, 0x58, 0x54] @ [0])"
    "0 \<notin> set ([0x48, 0x45, 0x4c, 0x4c, 0x4f, 0x57, 0x4f, 0x52, 0x4c, 0x44] :: byte list)"
    "0 < length ([0xAA, 0xAA, 0xAA, 0xAA] :: byte list)"
    "length ([0xAA, 0xAA, 0xAA, 0xAA] :: byte list) \<le> length ([0x48, 0x45, 0x4c, 0x4c, 0x4f, 0x57, 0x4f, 0x52, 0x4c, 0x44] :: byte list)"
    "Size \<lparr>pos = 3, buffer = ([0x13, 0, 1] @ [0x48, 0x45, 0x4c, 0x4c, 0x4f, 0x57, 0x4f, 0x52, 0x4c, 0x44] @ [0] @ [0x4e, 0x45, 0x58, 0x54] @ [0]), limit = 1460, cs = Some \<lparr>has_quit = False\<rparr>\<rparr> \<le> 65535"
    by (simp_all add: Size_def)
  note t = Recv_string_truncation_resync[OF a, of "\<lambda>d. d"]
  have e1: "Size \<lparr>pos = 3, buffer = ([0x13, 0, 1] @ [0x48, 0x45, 0x4c, 0x4c, 0x4f, 0x57, 0x4f, 0x52, 0x4c, 0x44] @ [0] @ [0x4e, 0x45, 0x58, 0x54] @ [0]), limit = 1460, cs = Some \<lparr>has_quit = False\<rparr>\<rparr> \<le> 65535"
    by (simp add: Size_def)
  have e2: "cs \<lparr>pos = 3, buffer = ([0x13, 0, 1] @ [0x48, 0x45, 0x4c, 0x4c, 0x4f, 0x57, 0x4f, 0x52, 0x4c, 0x44] @ [0] @ [0x4e, 0x45, 0x58, 0x54] @ [0]), limit = 1460, cs = Some \<lparr>has_quit = False\<rparr>\<rparr> = Some \<lparr>has_quit = False\<rparr>
   \<and> \<not> has_quit \<lparr>has_quit = False\<rparr>
   \<and> drop (pos \<lparr>pos = 3, buffer = ([0x13, 0, 1] @ [0x48, 0x45, 0x4c, 0x4c, 0x4f, 0x57, 0x4f, 0x52, 0x4c, 0x44] @ [0] @ [0x4e, 0x45, 0x58, 0x54] @ [0]), limit = 1460, cs = Some \<lparr>has_quit = False\<rparr>\<rparr>) (buffer \<lparr>pos = 3, buffer = ([0x13, 0, 1] @ [0x48, 0x45, 0x4c, 0x4c, 0x4f, 0x57, 0x4f, 0x52, 0x4c, 0x44] @ [0] @ [0x4e, 0x45, 0x58, 0x54] @ [0]), limit = 1460, cs = Some \<lparr>has_quit = False\<rparr>\<rparr>) = [0x48, 0x45, 0x4c, 0x4c, 0x4f, 0x57, 0x4f, 0x52, 0x4c, 0x44] @ 0 # ([0x4e, 0x45, 0x58, 0x54] @ [0])
   \<and> 0 \<notin> set ([0x48, 0x45, 0x4c, 0x4c, 0x4f, 0x57, 0x4f, 0x52, 0x4c, 0x44] :: byte list)
   \<and> 0 < length ([0xAA, 0xAA, 0xAA, 0xAA] :: byte list)
   \<and> length ([0xAA, 0xAA, 0xAA, 0xAA] :: byte list) \<le> length ([0x48, 0x45, 0x4c, 0x4c, 0x4f, 0x57, 0x4f, 0x52, 0x4c, 0x44] :: byte list)
   \<and> Recv_string (\<lambda>d. d) \<lparr>pos = 3, buffer = ([0x13, 0, 1] @ [0x48, 0x45, 0x4c, 0x4c, 0x4f, 0x57, 0x4f, 0x52, 0x4c, 0x44] @ [0] @ [0x4e, 0x45, 0x58, 0x54] @ [0]), limit = 1460, cs = Some \<lparr>has_quit = False\<rparr>\<rparr> [0xAA, 0xAA, 0xAA, 0xAA] 4 = Some (Inr ([0x48, 0x45, 0x4c, 0], \<lparr>pos = 14, buffer = ([0x13, 0, 1] @ [0x48, 0x45, 0x4c, 0x4c, 0x4f, 0x57, 0x4f, 0x52, 0x4c, 0x44] @ [0] @ [0x4e, 0x45, 0x58, 0x54] @ [0]), limit = 1460, cs = Some \<lparr>has_quit = False\<rparr>\<rparr>))
   \<and> drop (pos \<lparr>pos = 14, buffer = ([0x13, 0, 1] @ [0x48, 0x45, 0x4c, 0x4c, 0x4f, 0x57, 0x4f, 0x52, 0x4c, 0x44] @ [0] @ [0x4e, 0x45, 0x58, 0x54] @ [0]), limit = 1460, cs = Some \<lparr>has_quit = False\<rparr>\<rparr>) (buffer \<lparr>pos = 14, buffer = ([0x13, 0, 1] @ [0x48, 0x45, 0x4c, 0x4c, 0x4f, 0x57, 0x4f, 0x52, 0x4c, 0x44] @ [0] @ [0x4e, 0x45, 0x58, 0x54] @ [0]), limit = 1460, cs = Some \<lparr>has_quit = False\<rparr>\<rparr>) = [0x4e, 0x45, 0x58, 0x54] @ [0]
   \<and> Recv_string (\<lambda>d. d) \<lparr>pos = 14, buffer = ([0x13, 0, 1] @ [0x48, 0x45, 0x4c, 0x4c, 0x4f, 0x57, 0x4f, 0x52, 0x4c, 0x44] @ [0] @ [0x4e, 0x45, 0x58, 0x54] @ [0]), limit = 1460, cs = Some \<lparr>has_quit = False\<rparr>\<rparr> (replicate 8 0xAA) 8 = Some (Inr ([0x4e, 0x45, 0x58, 0x54] @ [0, 0, 0xAA, 0xAA], \<lparr>pos = 20, buffer = ([0x13, 0, 1] @ [0x48, 0x45, 0x4c, 0x4c, 0x4f, 0x57, 0x4f, 0x52, 0x4c, 0x44] @ [0] @ [0x4e, 0x45, 0x58, 0x54] @ [0]), limit = 1460, cs = Some \<lparr>has_quit = False\<rparr>\<rparr>))
   \<and> c_str ([0x4e, 0x45, 0x58, 0x54] @ [0, 0, 0xAA, 0xAA] :: byte list) = [0x4e, 0x45, 0x58, 0x54]"
    by code_simp
  have e: "?thesis" by (rule conjI [OF e1 e2])
  show ?thesis by (rule conjunct2 [OF conjI [OF t e]])
qed

subsection \<open>The cursor after a string at the end of the packet\<close>

text \<open>
  C4. \<open>Recv_string(char *, size_t)\<close> can leave the cursor beyond the end of the buffer.
  On the complete 7-byte frame \<open>07 00 01 'A' 'B' 'C' 00\<close> with the cursor after the type
  byte, reading into an array of 8 bytes copies \<open>"ABC"\<close> and its terminator, and since
  the cursor then equals \<open>Size()\<close> the branch meant for an exhausted source runs as well
  and increments the cursor once more: it ends at 8, one more than \<open>Size() = 7\<close>. The
  same happens for a source without terminator (\<open>06 00 01 'A' 'B' 'C'\<close>: cursor 7, size
  6). \<open>RemainingBytesToTransfer\<close> then wraps around. The \<open>std::string\<close> overload on
  the first frame leaves the cursor at 7.
\<close>

theorem Recv_string_cursor_past_end:
  "Recv_string (\<lambda>d. d) \<lparr>pos = 3, buffer = ([7, 0, 1] @ [0x41, 0x42, 0x43] @ [0]), limit = 1460, cs = Some \<lparr>has_quit = False\<rparr>\<rparr> (replicate 8 0) 8 = Some (Inr ([0x41, 0x42, 0x43] @ [0, 0, 0, 0, 0], \<lparr>pos = 3, buffer = ([7, 0, 1] @ [0x41, 0x42, 0x43] @ [0]), limit = 1460, cs = Some \<lparr>has_quit = False\<rparr>\<rparr>\<lparr>pos := 8\<rparr>))
   \<and> Size (\<lparr>pos = 3, buffer = ([7, 0, 1] @ [0x41, 0x42, 0x43] @ [0]), limit = 1460, cs = Some \<lparr>has_quit = False\<rparr>\<rparr>\<lparr>pos := 8\<rparr>) = 7
   \<and> Recv_string (\<lambda>d. d) \<lparr>pos = 3, buffer = ([6, 0, 1] @ [0x41, 0x42, 0x43]), limit = 1460, cs = Some \<lparr>has_quit = False\<rparr>\<rparr> (replicate 8 0) 8 = Some (Inr ([0x41, 0x42, 0x43] @ [0, 0, 0, 0, 0], \<lparr>pos = 3, buffer = ([6, 0, 1] @ [0x41, 0x42, 0x43]), limit = 1460, cs = Some \<lparr>has_quit = False\<rparr>\<rparr>\<lparr>pos := 7\<rparr>))
   \<and> Size (\<lparr>pos = 3, buffer = ([6, 0, 1] @ [0x41, 0x42, 0x43]), limit = 1460, cs = Some \<lparr>has_quit = False\<rparr>\<rparr>\<lparr>pos := 7\<rparr>) = 6
   \<and> RemainingBytesToTransfer (\<lparr>pos = 3, buffer = ([7, 0, 1] @ [0x41, 0x42, 0x43] @ [0]), limit = 1460, cs = Some \<lparr>has_quit = False\<rparr>\<rparr>\<lparr>pos := 8\<rparr>) = 2 ^ 64 - 1
   \<and> Recv_string_std (\<lambda>d. d) \<lparr>pos = 3, buffer = ([7, 0, 1] @ [0x41, 0x42, 0x43] @ [0]), limit = 1460, cs = Some \<lparr>has_quit = False\<rparr>\<rparr> [] = Inr ([0x41, 0x42, 0x43], \<lparr>pos = 3, buffer = ([7, 0, 1] @ [0x41, 0x42, 0x43] @ [0]), limit = 1460, cs = Some \<lparr>has_quit = False\<rparr>\<rparr>\<lparr>pos := 7\<rparr>)"
proof -
  have a: "Recv_string (\<lambda>d. d) \<lparr>pos = 3, buffer = ([7, 0, 1] @ [0x41, 0x42, 0x43] @ [0]), limit = 1460, cs = Some \<lparr>has_quit = False\<rparr>\<rparr> (replicate 8 0) 8 = Some (Inr ([0x41, 0x42, 0x43] @ [0, 0, 0, 0, 0], \<lparr>pos = 3, buffer = ([7, 0, 1] @ [0x41, 0x42, 0x43] @ [0]), limit = 1460, cs = Some \<lparr>has_quit = False\<rparr>\<rparr>\<lparr>pos := 8\<rparr>))"
    by code_simp
  have b: "Recv_string (\<lambda>d. d) \<lparr>pos = 3, buffer = ([6, 0, 1] @ [0x41, 0x42, 0x43]), limit = 1460, cs = Some \<lparr>has_quit = False\<rparr>\<rparr> (replicate 8 0) 8 = Some (Inr ([0x41, 0x42, 0x43] @ [0, 0, 0, 0, 0], \<lparr>pos = 3, buffer = ([6, 0, 1] @ [0x41, 0x42, 0x43]), limit = 1460, cs = Some \<lparr>has_quit = False\<rparr>\<rparr>\<lparr>pos := 7\<rparr>))"
    by code_simp
  have c: "Recv_string_std (\<lambda>d. d) \<lparr>pos = 3, buffer = ([7, 0, 1] @ [0x41, 0x42, 0x43] @ [0]), limit = 1460, cs = Some \<lparr>has_quit = False\<rparr>\<rparr> [] = Inr ([0x41, 0x42, 0x43], \<lparr>pos = 3, buffer = ([7, 0, 1] @ [0x41, 0x42, 0x43] @ [0]), limit = 1460, cs = Some \<lparr>has_quit = False\<rparr>\<rparr>\<lparr>pos := 7\<rparr>)"
    by (simp add: Recv_string_std_def HasClientQuit_def Size_def size_t_sub_def)
  have d: "RemainingBytesToTransfer (\<lparr>pos = 3, buffer = ([7, 0, 1] @ [0x41, 0x42, 0x43] @ [0]), limit = 1460, cs = Some \<lparr>has_quit = False\<rparr>\<rparr>\<lparr>pos := 8\<rparr>) = 2 ^ 64 - 1"
    by (simp add: RemainingBytesToTransfer_def size_t_sub_def Size_def)
  show ?thesis by (simp only: a b c d) (simp add: Size_def)
qed

section \<open>Facts about sending and receiving\<close>

lemma drained_refl:
  "queue_ok (packet_queue (client st)) \<Longrightarrow> list_all progresses (to_send st) \<Longrightarrow> drained st st"
  unfolding drained_def by (auto intro: exI[of _ 0])

lemma drained_trans:
  assumes "drained a b" and "drained b c"
  shows "drained a c"
proof -
  from assms(1) obtain k where k: "map buffer (packet_queue (client b)) = drop k (map buffer (packet_queue (client a)))"
    unfolding drained_def by blast
  from assms(2) obtain j where j: "map buffer (packet_queue (client c)) = drop j (map buffer (packet_queue (client b)))"
    unfolding drained_def by blast
  have "map buffer (packet_queue (client c)) = drop (j + k) (map buffer (packet_queue (client a)))"
    using k j by simp
  then have "\<exists>k. map buffer (packet_queue (client c)) = drop k (map buffer (packet_queue (client a)))" ..
  moreover have "client c = (client a)\<lparr>packet_queue := packet_queue (client c)\<rparr>"
  proof -
    have "client b = (client a)\<lparr>packet_queue := packet_queue (client b)\<rparr>"
      and "client c = (client b)\<lparr>packet_queue := packet_queue (client c)\<rparr>"
      using assms unfolding drained_def by blast+
    then show ?thesis by (metis NetworkClientSocket.update_convs(3) NetworkClientSocket.surjective)
  qed
  ultimately show ?thesis
    using assms unfolding drained_def by auto
qed

lemma pending_Cons: "pending (p # q) = drop (pos p) (buffer p) @ pending q"
  by (simp add: pending_def)

lemma pending_Nil [simp]: "pending [] = []"
  by (simp add: pending_def)

lemma queue_ok_Cons: "queue_ok (p # q) \<longleftrightarrow> pos p < Size p \<and> queue_ok q"
  by (simp add: queue_ok_def)

lemma Send_Packets_loop_drains:
  assumes "list_all progresses (to_send st)" and "queue_ok (packet_queue (client st))"
  shows "fst (Send_Packets_loop st) \<and> drained st (snd (Send_Packets_loop st))
    \<and> (packet_queue (client st) \<noteq> [] \<and> to_send st \<noteq> []
          \<longrightarrow> length (to_send (snd (Send_Packets_loop st))) < length (to_send st))"
  using assms
proof (induction st rule: Send_Packets_loop.induct)
  case (1 st)
  show ?case
  proof (cases "packet_queue (client st)")
    case Nil
    then show ?thesis using "1.prems"
      by (subst (1 2 3) Send_Packets_loop.simps) (simp add: drained_refl)
  next
    case (Cons p q)
    note queue = Cons
    show ?thesis
    proof (cases "to_send st")
      case Nil
      then show ?thesis using "1.prems" queue
        by (subst (1 2 3) Send_Packets_loop.simps) (simp add: drained_refl)
    next
      case (Cons ev evs)
      note script = Cons
      have evs: "list_all progresses evs" and ev: "progresses ev"
        using "1.prems"(1) script by simp_all
      have p: "pos p < Size p" and q: "queue_ok q"
        using "1.prems"(2) queue by (simp_all add: queue_ok_Cons)
      show ?thesis
      proof (cases ev)
        case SendWouldBlock
        have "drained st (st\<lparr>to_send := evs\<rparr>)"
          using evs "1.prems"(2) script SendWouldBlock
          unfolding drained_def by (auto simp add: count_accepts_def intro: exI[of _ 0])
        then show ?thesis using queue script SendWouldBlock
          by (subst (1 2 3) Send_Packets_loop.simps) simp
      next
        case SendError
        then show ?thesis using ev by simp
      next
        case (Accepts n)
        then have n: "0 < n" using ev by simp
        define res where "res = min n (Size p - pos p)"
        define p' where "p' = p\<lparr>pos := pos p + res\<rparr>"
        define st' where "st' = st\<lparr>to_send := evs, wire := wire st @ take res (drop (pos p) (buffer p))\<rparr>"
        have res: "res \<noteq> 0" "res \<le> Size p - pos p" using n p by (simp_all add: res_def)
        have cl: "client st = client st'" by (simp add: st'_def)
        have bytes: "take res (drop (pos p) (buffer p)) @ drop (pos p + res) (buffer p)
            = drop (pos p) (buffer p)"
          by (metis append_take_drop_id drop_drop add.commute)
        have len: "length (take res (drop (pos p) (buffer p))) = res"
          using res(2) by (simp add: Size_def)
        show ?thesis
        proof (cases "pos p' = Size p'")
          case True
          let ?st2 = "st'\<lparr>client := (client st')\<lparr>packet_queue := q\<rparr>\<rparr>"
          have unfold: "Send_Packets_loop st = Send_Packets_loop ?st2"
            using queue script Accepts res(1) True
            by (subst Send_Packets_loop.simps)
               (simp add: Let_def res_def[symmetric] p'_def[symmetric] st'_def[symmetric] cl)
          have "fst (Send_Packets_loop ?st2) \<and> drained ?st2 (snd (Send_Packets_loop ?st2))
              \<and> (packet_queue (client ?st2) \<noteq> [] \<and> to_send ?st2 \<noteq> []
                 \<longrightarrow> length (to_send (snd (Send_Packets_loop ?st2))) < length (to_send ?st2))"
            using evs q True
            by (intro "1.IH"[OF queue script Accepts res_def res(1) p'_def st'_def])
               (simp_all add: st'_def)
          then have IH: "fst (Send_Packets_loop ?st2)" "drained ?st2 (snd (Send_Packets_loop ?st2))"
            by simp_all
          have rest: "drop (pos p + res) (buffer p) = []"
            using True by (simp add: p'_def Size_def)
          have step: "drained st ?st2"
            unfolding drained_def
            using evs q queue script Accepts bytes rest len res
            by (auto simp add: st'_def pending_Cons count_accepts_def Size_def intro: exI[of _ 1])
          have lt: "length (to_send ?st2) < length (to_send st)"
            using script by (simp add: st'_def)
          have "length (to_send (snd (Send_Packets_loop ?st2))) \<le> length (to_send ?st2)"
            using IH(2) unfolding drained_def by simp
          with lt drained_trans[OF step IH(2)] IH(1) unfold show ?thesis by simp
        next
          case False
          let ?st2 = "st'\<lparr>client := (client st')\<lparr>packet_queue := p' # q\<rparr>\<rparr>"
          have unfold: "Send_Packets_loop st = (True, ?st2)"
            using queue script Accepts res(1) False
            by (subst Send_Packets_loop.simps)
               (simp add: Let_def res_def[symmetric] p'_def[symmetric] st'_def[symmetric] cl)
          have lt: "pos p' < Size p'"
            using False res(2) p by (simp add: p'_def Size_def)
          have "drained st ?st2"
            unfolding drained_def
            using evs q queue script Accepts bytes len res lt
            by (auto simp add: st'_def p'_def pending_Cons count_accepts_def queue_ok_Cons Size_def
                intro: exI[of _ 0])
          then show ?thesis using unfold script by (simp add: st'_def)
        qed
      qed
    qed
  qed
qed

lemma drained_live: "drained st st' \<Longrightarrow> live st \<Longrightarrow> live st'"
proof -
  assume d: "drained st st'" and l: "live st"
  from d have "client st' = (client st)\<lparr>packet_queue := packet_queue (client st')\<rparr>"
    unfolding drained_def by blast
  then have "writable (client st') = writable (client st)" "sock (client st') = sock (client st)"
    by (metis NetworkClientSocket.select_convs NetworkClientSocket.surjective NetworkClientSocket.update_convs(3))+
  then show ?thesis using l by (simp add: live_def IsConnected_def)
qed

lemma Send_Packets_drains:
  assumes "live st" and "list_all progresses (to_send st)" and "queue_ok (packet_queue (client st))"
  shows "fst (Send_Packets st)" and "drained st (snd (Send_Packets st))"
    and "packet_queue (client st) \<noteq> [] \<Longrightarrow> to_send st \<noteq> []
          \<Longrightarrow> length (to_send (snd (Send_Packets st))) < length (to_send st)"
  using Send_Packets_loop_drains[OF assms(2,3)] assms(1)
  by (simp_all add: Send_Packets_def live_def)

lemma Send_Packets_repeatedly_drains:
  assumes "live st" and "list_all progresses (to_send st)" and "queue_ok (packet_queue (client st))"
  shows "drained st (Send_Packets_repeatedly k st)"
  using assms
proof (induction k arbitrary: st)
  case 0
  then show ?case by (simp add: drained_refl)
next
  case (Suc k)
  let ?st1 = "snd (Send_Packets st)"
  have d: "drained st ?st1" using Suc.prems by (rule Send_Packets_drains)
  then have "live ?st1" "list_all progresses (to_send ?st1)" "queue_ok (packet_queue (client ?st1))"
    using Suc.prems(1) drained_live unfolding drained_def by blast+
  from Suc.IH[OF this] d show ?case by (auto intro: drained_trans)
qed

lemma queue_ok_pending: "queue_ok q \<Longrightarrow> q \<noteq> [] \<Longrightarrow> pending q \<noteq> []"
  by (cases q) (auto simp add: queue_ok_Cons pending_Cons Size_def)

lemma count_accepts_le_length: "count_accepts evs \<le> length evs"
  by (simp add: count_accepts_def)

lemma Send_Packets_repeatedly_empties:
  assumes "live st" and "list_all progresses (to_send st)" and "queue_ok (packet_queue (client st))"
    and "length (pending (packet_queue (client st))) \<le> count_accepts (to_send st)"
    and "length (to_send st) \<le> k"
  shows "packet_queue (client (Send_Packets_repeatedly k st)) = []"
  using assms
proof (induction k arbitrary: st)
  case 0
  then have "pending (packet_queue (client st)) = []" by (simp add: count_accepts_def)
  with queue_ok_pending[OF "0.prems"(3)] show ?case by auto
next
  case (Suc k)
  let ?st1 = "snd (Send_Packets st)"
  have d: "drained st ?st1" using Suc.prems(1-3) by (rule Send_Packets_drains)
  then have inv: "live ?st1" "list_all progresses (to_send ?st1)" "queue_ok (packet_queue (client ?st1))"
    using Suc.prems(1) drained_live unfolding drained_def by blast+
  have acc: "length (pending (packet_queue (client ?st1))) \<le> count_accepts (to_send ?st1)"
    using d Suc.prems(4) unfolding drained_def by linarith
  show ?case
  proof (cases "packet_queue (client st) = []")
    case True
    then have "packet_queue (client ?st1) = []"
      using d unfolding drained_def by auto
    then have "length (to_send ?st1) \<le> k \<or> pending (packet_queue (client ?st1)) = []" by simp
    have "packet_queue (client (Send_Packets_repeatedly k ?st1)) = []"
    proof -
      from Send_Packets_repeatedly_drains[OF inv, of k]
      obtain j where "map buffer (packet_queue (client (Send_Packets_repeatedly k ?st1)))
          = drop j (map buffer (packet_queue (client ?st1)))"
        unfolding drained_def by blast
      then show ?thesis using \<open>packet_queue (client ?st1) = []\<close> by simp
    qed
    then show ?thesis by simp
  next
    case False
    then have "pending (packet_queue (client st)) \<noteq> []"
      using queue_ok_pending[OF Suc.prems(3)] by simp
    then have "to_send st \<noteq> []" using Suc.prems(4) by (auto simp add: count_accepts_def)
    from Send_Packets_drains(3)[OF Suc.prems(1-3) False this] Suc.prems(5)
    have "length (to_send ?st1) \<le> k" by simp
    from Suc.IH[OF inv acc this] show ?thesis by simp
  qed
qed

lemma PrepareToSend_Inr:
  assumes "PrepareToSend p = Inr p'"
  shows "pos p' = 0" and "2 \<le> Size p'" and "cs p' = None"
proof -
  from assms have c: "cs p = None" by (auto simp add: PrepareToSend_def split: if_splits)
  have s: "2 \<le> Size p"
  proof (rule ccontr)
    assume "\<not> 2 \<le> Size p"
    then have "buffer p = [] \<or> (\<exists>x. buffer p = [x])"
      by (cases "buffer p"; cases "tl (buffer p)") (auto simp add: Size_def)
    then show False using assms c
      by (auto simp add: PrepareToSend_def poke_def split: if_splits)
  qed
  from PrepareToSend_size[OF c s] assms s show "pos p' = 0" and "2 \<le> Size p'" by auto
  from assms c show "cs p' = None"
    by (auto simp add: PrepareToSend_def poke_def and_then_def split: if_splits)
qed



lemma Send_Packets_not_live:
  assumes "\<not> live st"
  shows "Send_Packets st = (False, st)" and "Send_Packets_repeatedly k st = st"
proof -
  show s: "Send_Packets st = (False, st)"
    using assms by (auto simp add: Send_Packets_def live_def)
  show "Send_Packets_repeatedly k st = st"
    by (induction k) (simp_all add: s)
qed

lemma Send_Packets_zero:
  assumes "live st" and "packet_queue (client st) = p # q" and "to_send st = Accepts 0 # evs"
  shows "Send_Packets st = (False, snd (CloseConnection (st\<lparr>to_send := evs\<rparr>)))"
  using assms
  by (subst Send_Packets_def, subst Send_Packets_loop.simps) (simp add: live_def)






lemma length_pending_le: "length (pending q) \<le> length (concat (map buffer q))"
  by (induction q) (auto simp add: pending_def)

lemma wire_covers_removed:
  assumes "w @ pend = w0 @ concat bufs"
    and "map buffer q = drop j bufs" and "pend = pending q"
  shows "\<exists>r. w = w0 @ concat (take j bufs) @ r"
proof -
  have "concat bufs = concat (take j bufs) @ concat (drop j bufs)"
    by (metis append_take_drop_id concat_append)
  with assms(1) have eq: "w @ pend = (w0 @ concat (take j bufs)) @ concat (drop j bufs)"
    by simp
  have "length pend \<le> length (concat (drop j bufs))"
    using length_pending_le[of q] assms(2,3) by simp
  with eq show ?thesis
    by (auto simp add: append_eq_append_conv2)
qed

subsection \<open>Draining the queue\<close>

text \<open>
  C9, as stated, at a \<open>send\<close> that takes zero bytes: a result of 0 is treated as the
  peer having left. On a hosting peer with the packet \<open>A\<close> queued and the script
  \<open>[Accepts 0, Accepts 100]\<close>, the first \<open>Send_Packets\<close> calls \<open>CloseConnection\<close> and
  returns false; no byte of \<open>A\<close> is ever transmitted and the queue is released.
\<close>

theorem Send_Packets_zero_counterexample:
  "Send_Packet \<lparr>globals = \<lparr>network_server = True, networking = True, switch_mode = SM_OTHER 0, switch_mode_errorstr = STR_OTHER 0\<rparr>, client = \<lparr>has_quit = False, sock = Some 1, writable = True, packet_queue = [], packet_recv = None\<rparr>, to_send = [Accepts 0, Accepts 100], wire = [], to_recv = []\<rparr> \<lparr>pos = 0, buffer = [0, 0, 1, 0xAA], limit = 1460, cs = None\<rparr> = Inr \<lparr>globals = \<lparr>network_server = True, networking = True, switch_mode = SM_OTHER 0, switch_mode_errorstr = STR_OTHER 0\<rparr>, client = \<lparr>has_quit = False, sock = Some 1, writable = True, packet_queue = [\<lparr>pos = 0, buffer = [4, 0, 1, 0xAA], limit = 1460, cs = None\<rparr>], packet_recv = None\<rparr>, to_send = [Accepts 0, Accepts 100], wire = [], to_recv = []\<rparr>
   \<and> fst (Send_Packets \<lparr>globals = \<lparr>network_server = True, networking = True, switch_mode = SM_OTHER 0, switch_mode_errorstr = STR_OTHER 0\<rparr>, client = \<lparr>has_quit = False, sock = Some 1, writable = True, packet_queue = [\<lparr>pos = 0, buffer = [4, 0, 1, 0xAA], limit = 1460, cs = None\<rparr>], packet_recv = None\<rparr>, to_send = [Accepts 0, Accepts 100], wire = [], to_recv = []\<rparr>) = False
   \<and> wire (Send_Packets_repeatedly 2 \<lparr>globals = \<lparr>network_server = True, networking = True, switch_mode = SM_OTHER 0, switch_mode_errorstr = STR_OTHER 0\<rparr>, client = \<lparr>has_quit = False, sock = Some 1, writable = True, packet_queue = [\<lparr>pos = 0, buffer = [4, 0, 1, 0xAA], limit = 1460, cs = None\<rparr>], packet_recv = None\<rparr>, to_send = [Accepts 0, Accepts 100], wire = [], to_recv = []\<rparr>) = []
   \<and> packet_queue (client (Send_Packets_repeatedly 2 \<lparr>globals = \<lparr>network_server = True, networking = True, switch_mode = SM_OTHER 0, switch_mode_errorstr = STR_OTHER 0\<rparr>, client = \<lparr>has_quit = False, sock = Some 1, writable = True, packet_queue = [\<lparr>pos = 0, buffer = [4, 0, 1, 0xAA], limit = 1460, cs = None\<rparr>], packet_recv = None\<rparr>, to_send = [Accepts 0, Accepts 100], wire = [], to_recv = []\<rparr>)) = []
   \<and> to_send (Send_Packets_repeatedly 2 \<lparr>globals = \<lparr>network_server = True, networking = True, switch_mode = SM_OTHER 0, switch_mode_errorstr = STR_OTHER 0\<rparr>, client = \<lparr>has_quit = False, sock = Some 1, writable = True, packet_queue = [\<lparr>pos = 0, buffer = [4, 0, 1, 0xAA], limit = 1460, cs = None\<rparr>], packet_recv = None\<rparr>, to_send = [Accepts 0, Accepts 100], wire = [], to_recv = []\<rparr>) = [Accepts 100]"
  by code_simp

text \<open>
  C9, amended. Let the packets \<open>A\<close>, \<open>B\<close>, \<open>C\<close> be enqueued in this order by
  \<open>Send_Packet\<close> on a connection whose send queue is empty, and let every \<open>send\<close> either
  block or take at least one byte (and at most what was offered). Then after any number
  of \<open>Send_Packets\<close> calls the bytes on the wire followed by the bytes still pending in
  the queue are the bytes of \<open>A\<close>, \<open>B\<close>, \<open>C\<close> in this order, the queue is \<open>[A, B, C]\<close>
  without its first \<open>j\<close> packets, the wire holds all bytes of these \<open>j\<close> packets
  (followed by what has been sent of the next one), and every packet in the queue still
  has bytes to transmit: a packet has left the queue only when all of its bytes are on
  the wire. On a writable, connected socket whose script takes bytes at least as many
  times as there are bytes, once the script is used up the wire holds exactly the bytes
  of \<open>A\<close>, \<open>B\<close>, \<open>C\<close> and the queue is empty. On a socket that is not writable or not
  connected \<open>Send_Packets\<close> returns false and changes nothing. And on any writable,
  connected socket with a packet queued, a \<open>send\<close> that takes zero bytes makes
  \<open>Send_Packets\<close> call \<open>CloseConnection\<close> and return false.
\<close>

theorem Send_Packets_in_order:
  assumes "packet_queue (client st0) = []" and "list_all progresses (to_send st0)"
    and "Send_Packet st0 A = Inr st1" and "Send_Packet st1 B = Inr st2"
    and "Send_Packet st2 C = Inr st3"
  shows "\<exists>a b c. PrepareToSend A = Inr a \<and> PrepareToSend B = Inr b \<and> PrepareToSend C = Inr c
      \<and> packet_queue (client st3) = [a, b, c]
      \<and> (\<forall>k. wire (Send_Packets_repeatedly k st3)
                  @ pending (packet_queue (client (Send_Packets_repeatedly k st3)))
                = wire st0 @ buffer a @ buffer b @ buffer c
             \<and> (\<exists>j sent. map buffer (packet_queue (client (Send_Packets_repeatedly k st3)))
                    = drop j [buffer a, buffer b, buffer c]
                  \<and> wire (Send_Packets_repeatedly k st3)
                    = wire st0 @ concat (take j [buffer a, buffer b, buffer c]) @ sent)
             \<and> queue_ok (packet_queue (client (Send_Packets_repeatedly k st3))))
      \<and> (writable (client st0) \<and> IsConnected (client st0)
           \<and> length (buffer a @ buffer b @ buffer c) \<le> count_accepts (to_send st0) \<longrightarrow>
           (\<forall>k \<ge> length (to_send st0).
              wire (Send_Packets_repeatedly k st3) = wire st0 @ buffer a @ buffer b @ buffer c
              \<and> packet_queue (client (Send_Packets_repeatedly k st3)) = []))
      \<and> (\<not> (writable (client st0) \<and> IsConnected (client st0)) \<longrightarrow>
           Send_Packets st3 = (False, st3) \<and> (\<forall>k. Send_Packets_repeatedly k st3 = st3))
      \<and> (writable (client st) \<and> IsConnected (client st) \<and> packet_queue (client st) \<noteq> []
           \<and> to_send st = Accepts 0 # evs \<longrightarrow>
           Send_Packets st = (False, snd (CloseConnection (st\<lparr>to_send := evs\<rparr>))))"
proof -
  from assms(3) obtain a where a: "PrepareToSend A = Inr a"
    and st1: "st1 = st0\<lparr>client := (client st0)\<lparr>packet_queue := packet_queue (client st0) @ [a]\<rparr>\<rparr>"
    by (cases "PrepareToSend A") (auto simp add: Send_Packet_def)
  from assms(4) obtain b where b: "PrepareToSend B = Inr b"
    and st2: "st2 = st1\<lparr>client := (client st1)\<lparr>packet_queue := packet_queue (client st1) @ [b]\<rparr>\<rparr>"
    by (cases "PrepareToSend B") (auto simp add: Send_Packet_def)
  from assms(5) obtain c where c: "PrepareToSend C = Inr c"
    and st3: "st3 = st2\<lparr>client := (client st2)\<lparr>packet_queue := packet_queue (client st2) @ [c]\<rparr>\<rparr>"
    by (cases "PrepareToSend C") (auto simp add: Send_Packet_def)
  have q: "packet_queue (client st3) = [a, b, c]"
    using assms(1) by (simp add: st1 st2 st3)
  have same: "to_send st3 = to_send st0" "wire st3 = wire st0"
    by (simp_all add: st1 st2 st3)
  have l: "live st3 \<longleftrightarrow> writable (client st0) \<and> IsConnected (client st0)"
    by (simp add: live_def IsConnected_def st1 st2 st3)
  have pr: "list_all progresses (to_send st3)" using assms(2) same by simp
  have ok: "queue_ok (packet_queue (client st3))"
    using PrepareToSend_Inr[OF a] PrepareToSend_Inr[OF b] PrepareToSend_Inr[OF c]
    by (simp add: q queue_ok_def)
  have p: "pending (packet_queue (client st3)) = buffer a @ buffer b @ buffer c"
    using PrepareToSend_Inr(1)[OF a] PrepareToSend_Inr(1)[OF b] PrepareToSend_Inr(1)[OF c]
    by (simp add: q pending_def)
  have safety: "wire (Send_Packets_repeatedly k st3)
                  @ pending (packet_queue (client (Send_Packets_repeatedly k st3)))
                = wire st0 @ buffer a @ buffer b @ buffer c
             \<and> (\<exists>j sent. map buffer (packet_queue (client (Send_Packets_repeatedly k st3)))
                    = drop j [buffer a, buffer b, buffer c]
                  \<and> wire (Send_Packets_repeatedly k st3)
                    = wire st0 @ concat (take j [buffer a, buffer b, buffer c]) @ sent)
             \<and> queue_ok (packet_queue (client (Send_Packets_repeatedly k st3)))" for k
  proof (cases "live st3")
    case True
    from Send_Packets_repeatedly_drains[OF True pr ok, of k] p q same
    have w: "wire (Send_Packets_repeatedly k st3)
               @ pending (packet_queue (client (Send_Packets_repeatedly k st3)))
             = wire st0 @ concat [buffer a, buffer b, buffer c]"
      and ok': "queue_ok (packet_queue (client (Send_Packets_repeatedly k st3)))"
      unfolding drained_def by auto
    from Send_Packets_repeatedly_drains[OF True pr ok, of k] q
    obtain j where j: "map buffer (packet_queue (client (Send_Packets_repeatedly k st3)))
        = drop j [buffer a, buffer b, buffer c]"
      unfolding drained_def by auto
    from wire_covers_removed[OF w j refl]
    obtain sent where "wire (Send_Packets_repeatedly k st3)
        = wire st0 @ concat (take j [buffer a, buffer b, buffer c]) @ sent" ..
    with w j ok' show ?thesis by auto
  next
    case False
    have r: "Send_Packets_repeatedly k st3 = st3" by (rule Send_Packets_not_live(2)[OF False])
    have "map buffer (packet_queue (client st3)) = drop 0 [buffer a, buffer b, buffer c]
        \<and> wire st3 = wire st0 @ concat (take 0 [buffer a, buffer b, buffer c]) @ []"
      using q same by simp
    then have "\<exists>j sent. map buffer (packet_queue (client st3))
                    = drop j [buffer a, buffer b, buffer c]
                  \<and> wire st3 = wire st0 @ concat (take j [buffer a, buffer b, buffer c]) @ sent"
      by blast
    moreover have "wire st3 @ pending (packet_queue (client st3))
        = wire st0 @ buffer a @ buffer b @ buffer c"
      using p same by simp
    ultimately show ?thesis using ok unfolding r by simp
  qed
  have liveness: "wire (Send_Packets_repeatedly k st3) = wire st0 @ buffer a @ buffer b @ buffer c
              \<and> packet_queue (client (Send_Packets_repeatedly k st3)) = []"
    if "writable (client st0) \<and> IsConnected (client st0)"
      and "length (buffer a @ buffer b @ buffer c) \<le> count_accepts (to_send st0)"
      and "length (to_send st0) \<le> k" for k
  proof -
    from that(1) l have l3: "live st3" by simp
    have "packet_queue (client (Send_Packets_repeatedly k st3)) = []"
      using that p same by (intro Send_Packets_repeatedly_empties[OF l3 pr ok]) simp_all
    with safety[of k] show ?thesis by simp
  qed
  have idle: "Send_Packets st3 = (False, st3) \<and> (\<forall>k. Send_Packets_repeatedly k st3 = st3)"
    if "\<not> (writable (client st0) \<and> IsConnected (client st0))"
    using that l Send_Packets_not_live[of st3] by simp
  have zero: "Send_Packets st = (False, snd (CloseConnection (st\<lparr>to_send := evs\<rparr>)))"
    if "writable (client st)" "IsConnected (client st)" "packet_queue (client st) \<noteq> []"
      "to_send st = Accepts 0 # evs"
  proof -
    from that(3) obtain x xs where "packet_queue (client st) = x # xs"
      by (cases "packet_queue (client st)") auto
    with that show ?thesis by (intro Send_Packets_zero) (simp_all add: live_def)
  qed
  from a b c q safety liveness idle zero show ?thesis by blast
qed

theorem Send_Packets_in_order_witness:
  "writable (client \<lparr>globals = \<lparr>network_server = True, networking = True, switch_mode = SM_OTHER 0, switch_mode_errorstr = STR_OTHER 0\<rparr>, client = \<lparr>has_quit = False, sock = Some 1, writable = True, packet_queue = [], packet_recv = None\<rparr>, to_send = [Accepts 1, SendWouldBlock, Accepts 2, Accepts 1, SendWouldBlock, Accepts 3, Accepts 1, Accepts 100, Accepts 1, Accepts 1, Accepts 1, Accepts 1, Accepts 1, Accepts 1], wire = [], to_recv = []\<rparr>) \<and> IsConnected (client \<lparr>globals = \<lparr>network_server = True, networking = True, switch_mode = SM_OTHER 0, switch_mode_errorstr = STR_OTHER 0\<rparr>, client = \<lparr>has_quit = False, sock = Some 1, writable = True, packet_queue = [], packet_recv = None\<rparr>, to_send = [Accepts 1, SendWouldBlock, Accepts 2, Accepts 1, SendWouldBlock, Accepts 3, Accepts 1, Accepts 100, Accepts 1, Accepts 1, Accepts 1, Accepts 1, Accepts 1, Accepts 1], wire = [], to_recv = []\<rparr>) \<and> packet_queue (client \<lparr>globals = \<lparr>network_server = True, networking = True, switch_mode = SM_OTHER 0, switch_mode_errorstr = STR_OTHER 0\<rparr>, client = \<lparr>has_quit = False, sock = Some 1, writable = True, packet_queue = [], packet_recv = None\<rparr>, to_send = [Accepts 1, SendWouldBlock, Accepts 2, Accepts 1, SendWouldBlock, Accepts 3, Accepts 1, Accepts 100, Accepts 1, Accepts 1, Accepts 1, Accepts 1, Accepts 1, Accepts 1], wire = [], to_recv = []\<rparr>) = []
   \<and> list_all progresses (to_send \<lparr>globals = \<lparr>network_server = True, networking = True, switch_mode = SM_OTHER 0, switch_mode_errorstr = STR_OTHER 0\<rparr>, client = \<lparr>has_quit = False, sock = Some 1, writable = True, packet_queue = [], packet_recv = None\<rparr>, to_send = [Accepts 1, SendWouldBlock, Accepts 2, Accepts 1, SendWouldBlock, Accepts 3, Accepts 1, Accepts 100, Accepts 1, Accepts 1, Accepts 1, Accepts 1, Accepts 1, Accepts 1], wire = [], to_recv = []\<rparr>)
   \<and> Send_Packet \<lparr>globals = \<lparr>network_server = True, networking = True, switch_mode = SM_OTHER 0, switch_mode_errorstr = STR_OTHER 0\<rparr>, client = \<lparr>has_quit = False, sock = Some 1, writable = True, packet_queue = [], packet_recv = None\<rparr>, to_send = [Accepts 1, SendWouldBlock, Accepts 2, Accepts 1, SendWouldBlock, Accepts 3, Accepts 1, Accepts 100, Accepts 1, Accepts 1, Accepts 1, Accepts 1, Accepts 1, Accepts 1], wire = [], to_recv = []\<rparr> \<lparr>pos = 0, buffer = [0, 0, 1, 0xAA], limit = 1460, cs = None\<rparr> = Inr \<lparr>globals = \<lparr>network_server = True, networking = True, switch_mode = SM_OTHER 0, switch_mode_errorstr = STR_OTHER 0\<rparr>, client = \<lparr>has_quit = False, sock = Some 1, writable = True, packet_queue = [\<lparr>pos = 0, buffer = [4, 0, 1, 0xAA], limit = 1460, cs = None\<rparr>], packet_recv = None\<rparr>, to_send = [Accepts 1, SendWouldBlock, Accepts 2, Accepts 1, SendWouldBlock, Accepts 3, Accepts 1, Accepts 100, Accepts 1, Accepts 1, Accepts 1, Accepts 1, Accepts 1, Accepts 1], wire = [], to_recv = []\<rparr>
   \<and> Send_Packet \<lparr>globals = \<lparr>network_server = True, networking = True, switch_mode = SM_OTHER 0, switch_mode_errorstr = STR_OTHER 0\<rparr>, client = \<lparr>has_quit = False, sock = Some 1, writable = True, packet_queue = [\<lparr>pos = 0, buffer = [4, 0, 1, 0xAA], limit = 1460, cs = None\<rparr>], packet_recv = None\<rparr>, to_send = [Accepts 1, SendWouldBlock, Accepts 2, Accepts 1, SendWouldBlock, Accepts 3, Accepts 1, Accepts 100, Accepts 1, Accepts 1, Accepts 1, Accepts 1, Accepts 1, Accepts 1], wire = [], to_recv = []\<rparr> \<lparr>pos = 0, buffer = [0, 0, 2, 0xBB, 0xBC], limit = 1460, cs = None\<rparr> = Inr \<lparr>globals = \<lparr>network_server = True, networking = True, switch_mode = SM_OTHER 0, switch_mode_errorstr = STR_OTHER 0\<rparr>, client = \<lparr>has_quit = False, sock = Some 1, writable = True, packet_queue = [\<lparr>pos = 0, buffer = [4, 0, 1, 0xAA], limit = 1460, cs = None\<rparr>, \<lparr>pos = 0, buffer = [5, 0, 2, 0xBB, 0xBC], limit = 1460, cs = None\<rparr>], packet_recv = None\<rparr>, to_send = [Accepts 1, SendWouldBlock, Accepts 2, Accepts 1, SendWouldBlock, Accepts 3, Accepts 1, Accepts 100, Accepts 1, Accepts 1, Accepts 1, Accepts 1, Accepts 1, Accepts 1], wire = [], to_recv = []\<rparr>
   \<and> Send_Packet \<lparr>globals = \<lparr>network_server = True, networking = True, switch_mode = SM_OTHER 0, switch_mode_errorstr = STR_OTHER 0\<rparr>, client = \<lparr>has_quit = False, sock = Some 1, writable = True, packet_queue = [\<lparr>pos = 0, buffer = [4, 0, 1, 0xAA], limit = 1460, cs = None\<rparr>, \<lparr>pos = 0, buffer = [5, 0, 2, 0xBB, 0xBC], limit = 1460, cs = None\<rparr>], packet_recv = None\<rparr>, to_send = [Accepts 1, SendWouldBlock, Accepts 2, Accepts 1, SendWouldBlock, Accepts 3, Accepts 1, Accepts 100, Accepts 1, Accepts 1, Accepts 1, Accepts 1, Accepts 1, Accepts 1], wire = [], to_recv = []\<rparr> \<lparr>pos = 0, buffer = [0, 0, 3], limit = 1460, cs = None\<rparr> = Inr \<lparr>globals = \<lparr>network_server = True, networking = True, switch_mode = SM_OTHER 0, switch_mode_errorstr = STR_OTHER 0\<rparr>, client = \<lparr>has_quit = False, sock = Some 1, writable = True, packet_queue = [\<lparr>pos = 0, buffer = [4, 0, 1, 0xAA], limit = 1460, cs = None\<rparr>, \<lparr>pos = 0, buffer = [5, 0, 2, 0xBB, 0xBC], limit = 1460, cs = None\<rparr>, \<lparr>pos = 0, buffer = [3, 0, 3], limit = 1460, cs = None\<rparr>], packet_recv = None\<rparr>, to_send = [Accepts 1, SendWouldBlock, Accepts 2, Accepts 1, SendWouldBlock, Accepts 3, Accepts 1, Accepts 100, Accepts 1, Accepts 1, Accepts 1, Accepts 1, Accepts 1, Accepts 1], wire = [], to_recv = []\<rparr>
   \<and> length [4, 0, 1, 0xAA, 5, 0, 2, 0xBB, 0xBC, 3, 0, 3 :: byte] \<le> count_accepts (to_send \<lparr>globals = \<lparr>network_server = True, networking = True, switch_mode = SM_OTHER 0, switch_mode_errorstr = STR_OTHER 0\<rparr>, client = \<lparr>has_quit = False, sock = Some 1, writable = True, packet_queue = [], packet_recv = None\<rparr>, to_send = [Accepts 1, SendWouldBlock, Accepts 2, Accepts 1, SendWouldBlock, Accepts 3, Accepts 1, Accepts 100, Accepts 1, Accepts 1, Accepts 1, Accepts 1, Accepts 1, Accepts 1], wire = [], to_recv = []\<rparr>)
   \<and> wire (Send_Packets_repeatedly 3 \<lparr>globals = \<lparr>network_server = True, networking = True, switch_mode = SM_OTHER 0, switch_mode_errorstr = STR_OTHER 0\<rparr>, client = \<lparr>has_quit = False, sock = Some 1, writable = True, packet_queue = [\<lparr>pos = 0, buffer = [4, 0, 1, 0xAA], limit = 1460, cs = None\<rparr>, \<lparr>pos = 0, buffer = [5, 0, 2, 0xBB, 0xBC], limit = 1460, cs = None\<rparr>, \<lparr>pos = 0, buffer = [3, 0, 3], limit = 1460, cs = None\<rparr>], packet_recv = None\<rparr>, to_send = [Accepts 1, SendWouldBlock, Accepts 2, Accepts 1, SendWouldBlock, Accepts 3, Accepts 1, Accepts 100, Accepts 1, Accepts 1, Accepts 1, Accepts 1, Accepts 1, Accepts 1], wire = [], to_recv = []\<rparr>) = [4, 0, 1]
   \<and> map pos (packet_queue (client (Send_Packets_repeatedly 3 \<lparr>globals = \<lparr>network_server = True, networking = True, switch_mode = SM_OTHER 0, switch_mode_errorstr = STR_OTHER 0\<rparr>, client = \<lparr>has_quit = False, sock = Some 1, writable = True, packet_queue = [\<lparr>pos = 0, buffer = [4, 0, 1, 0xAA], limit = 1460, cs = None\<rparr>, \<lparr>pos = 0, buffer = [5, 0, 2, 0xBB, 0xBC], limit = 1460, cs = None\<rparr>, \<lparr>pos = 0, buffer = [3, 0, 3], limit = 1460, cs = None\<rparr>], packet_recv = None\<rparr>, to_send = [Accepts 1, SendWouldBlock, Accepts 2, Accepts 1, SendWouldBlock, Accepts 3, Accepts 1, Accepts 100, Accepts 1, Accepts 1, Accepts 1, Accepts 1, Accepts 1, Accepts 1], wire = [], to_recv = []\<rparr>))) = [3, 0, 0]
   \<and> wire (Send_Packets_repeatedly 14 \<lparr>globals = \<lparr>network_server = True, networking = True, switch_mode = SM_OTHER 0, switch_mode_errorstr = STR_OTHER 0\<rparr>, client = \<lparr>has_quit = False, sock = Some 1, writable = True, packet_queue = [\<lparr>pos = 0, buffer = [4, 0, 1, 0xAA], limit = 1460, cs = None\<rparr>, \<lparr>pos = 0, buffer = [5, 0, 2, 0xBB, 0xBC], limit = 1460, cs = None\<rparr>, \<lparr>pos = 0, buffer = [3, 0, 3], limit = 1460, cs = None\<rparr>], packet_recv = None\<rparr>, to_send = [Accepts 1, SendWouldBlock, Accepts 2, Accepts 1, SendWouldBlock, Accepts 3, Accepts 1, Accepts 100, Accepts 1, Accepts 1, Accepts 1, Accepts 1, Accepts 1, Accepts 1], wire = [], to_recv = []\<rparr>) = [4, 0, 1, 0xAA, 5, 0, 2, 0xBB, 0xBC, 3, 0, 3]
   \<and> packet_queue (client (Send_Packets_repeatedly 14 \<lparr>globals = \<lparr>network_server = True, networking = True, switch_mode = SM_OTHER 0, switch_mode_errorstr = STR_OTHER 0\<rparr>, client = \<lparr>has_quit = False, sock = Some 1, writable = True, packet_queue = [\<lparr>pos = 0, buffer = [4, 0, 1, 0xAA], limit = 1460, cs = None\<rparr>, \<lparr>pos = 0, buffer = [5, 0, 2, 0xBB, 0xBC], limit = 1460, cs = None\<rparr>, \<lparr>pos = 0, buffer = [3, 0, 3], limit = 1460, cs = None\<rparr>], packet_recv = None\<rparr>, to_send = [Accepts 1, SendWouldBlock, Accepts 2, Accepts 1, SendWouldBlock, Accepts 3, Accepts 1, Accepts 100, Accepts 1, Accepts 1, Accepts 1, Accepts 1, Accepts 1, Accepts 1], wire = [], to_recv = []\<rparr>)) = []"
proof -
  have a: "packet_queue (client \<lparr>globals = \<lparr>network_server = True, networking = True, switch_mode = SM_OTHER 0, switch_mode_errorstr = STR_OTHER 0\<rparr>, client = \<lparr>has_quit = False, sock = Some 1, writable = True, packet_queue = [], packet_recv = None\<rparr>, to_send = [Accepts 1, SendWouldBlock, Accepts 2, Accepts 1, SendWouldBlock, Accepts 3, Accepts 1, Accepts 100, Accepts 1, Accepts 1, Accepts 1, Accepts 1, Accepts 1, Accepts 1], wire = [], to_recv = []\<rparr>) = []"
    "list_all progresses (to_send \<lparr>globals = \<lparr>network_server = True, networking = True, switch_mode = SM_OTHER 0, switch_mode_errorstr = STR_OTHER 0\<rparr>, client = \<lparr>has_quit = False, sock = Some 1, writable = True, packet_queue = [], packet_recv = None\<rparr>, to_send = [Accepts 1, SendWouldBlock, Accepts 2, Accepts 1, SendWouldBlock, Accepts 3, Accepts 1, Accepts 100, Accepts 1, Accepts 1, Accepts 1, Accepts 1, Accepts 1, Accepts 1], wire = [], to_recv = []\<rparr>)"
    "Send_Packet \<lparr>globals = \<lparr>network_server = True, networking = True, switch_mode = SM_OTHER 0, switch_mode_errorstr = STR_OTHER 0\<rparr>, client = \<lparr>has_quit = False, sock = Some 1, writable = True, packet_queue = [], packet_recv = None\<rparr>, to_send = [Accepts 1, SendWouldBlock, Accepts 2, Accepts 1, SendWouldBlock, Accepts 3, Accepts 1, Accepts 100, Accepts 1, Accepts 1, Accepts 1, Accepts 1, Accepts 1, Accepts 1], wire = [], to_recv = []\<rparr> \<lparr>pos = 0, buffer = [0, 0, 1, 0xAA], limit = 1460, cs = None\<rparr> = Inr \<lparr>globals = \<lparr>network_server = True, networking = True, switch_mode = SM_OTHER 0, switch_mode_errorstr = STR_OTHER 0\<rparr>, client = \<lparr>has_quit = False, sock = Some 1, writable = True, packet_queue = [\<lparr>pos = 0, buffer = [4, 0, 1, 0xAA], limit = 1460, cs = None\<rparr>], packet_recv = None\<rparr>, to_send = [Accepts 1, SendWouldBlock, Accepts 2, Accepts 1, SendWouldBlock, Accepts 3, Accepts 1, Accepts 100, Accepts 1, Accepts 1, Accepts 1, Accepts 1, Accepts 1, Accepts 1], wire = [], to_recv = []\<rparr>"
    "Send_Packet \<lparr>globals = \<lparr>network_server = True, networking = True, switch_mode = SM_OTHER 0, switch_mode_errorstr = STR_OTHER 0\<rparr>, client = \<lparr>has_quit = False, sock = Some 1, writable = True, packet_queue = [\<lparr>pos = 0, buffer = [4, 0, 1, 0xAA], limit = 1460, cs = None\<rparr>], packet_recv = None\<rparr>, to_send = [Accepts 1, SendWouldBlock, Accepts 2, Accepts 1, SendWouldBlock, Accepts 3, Accepts 1, Accepts 100, Accepts 1, Accepts 1, Accepts 1, Accepts 1, Accepts 1, Accepts 1], wire = [], to_recv = []\<rparr> \<lparr>pos = 0, buffer = [0, 0, 2, 0xBB, 0xBC], limit = 1460, cs = None\<rparr> = Inr \<lparr>globals = \<lparr>network_server = True, networking = True, switch_mode = SM_OTHER 0, switch_mode_errorstr = STR_OTHER 0\<rparr>, client = \<lparr>has_quit = False, sock = Some 1, writable = True, packet_queue = [\<lparr>pos = 0, buffer = [4, 0, 1, 0xAA], limit = 1460, cs = None\<rparr>, \<lparr>pos = 0, buffer = [5, 0, 2, 0xBB, 0xBC], limit = 1460, cs = None\<rparr>], packet_recv = None\<rparr>, to_send = [Accepts 1, SendWouldBlock, Accepts 2, Accepts 1, SendWouldBlock, Accepts 3, Accepts 1, Accepts 100, Accepts 1, Accepts 1, Accepts 1, Accepts 1, Accepts 1, Accepts 1], wire = [], to_recv = []\<rparr>"
    "Send_Packet \<lparr>globals = \<lparr>network_server = True, networking = True, switch_mode = SM_OTHER 0, switch_mode_errorstr = STR_OTHER 0\<rparr>, client = \<lparr>has_quit = False, sock = Some 1, writable = True, packet_queue = [\<lparr>pos = 0, buffer = [4, 0, 1, 0xAA], limit = 1460, cs = None\<rparr>, \<lparr>pos = 0, buffer = [5, 0, 2, 0xBB, 0xBC], limit = 1460, cs = None\<rparr>], packet_recv = None\<rparr>, to_send = [Accepts 1, SendWouldBlock, Accepts 2, Accepts 1, SendWouldBlock, Accepts 3, Accepts 1, Accepts 100, Accepts 1, Accepts 1, Accepts 1, Accepts 1, Accepts 1, Accepts 1], wire = [], to_recv = []\<rparr> \<lparr>pos = 0, buffer = [0, 0, 3], limit = 1460, cs = None\<rparr> = Inr \<lparr>globals = \<lparr>network_server = True, networking = True, switch_mode = SM_OTHER 0, switch_mode_errorstr = STR_OTHER 0\<rparr>, client = \<lparr>has_quit = False, sock = Some 1, writable = True, packet_queue = [\<lparr>pos = 0, buffer = [4, 0, 1, 0xAA], limit = 1460, cs = None\<rparr>, \<lparr>pos = 0, buffer = [5, 0, 2, 0xBB, 0xBC], limit = 1460, cs = None\<rparr>, \<lparr>pos = 0, buffer = [3, 0, 3], limit = 1460, cs = None\<rparr>], packet_recv = None\<rparr>, to_send = [Accepts 1, SendWouldBlock, Accepts 2, Accepts 1, SendWouldBlock, Accepts 3, Accepts 1, Accepts 100, Accepts 1, Accepts 1, Accepts 1, Accepts 1, Accepts 1, Accepts 1], wire = [], to_recv = []\<rparr>"
    by code_simp+
  note t = Send_Packets_in_order[OF a]
  have e: "?thesis" by code_simp
  show ?thesis by (rule conjunct2 [OF conjI [OF t e]])
qed

subsection \<open>Rejected sizes and reads beyond the end\<close>




end
